theory Spec2Isabelle
  imports Complex_Main "HOL-Library.AList"
begin

section \<open>Numbers of the host language\<close>

text \<open>
  A number of the program is a double. Finite doubles are idealised as reals (no rounding,
  no overflow, no negative zero); the three special values are kept, since the code
  branches on them (\<open>x || 260\<close>, \<open>Number.isFinite\<close>, \<open>Math.max()\<close> of nothing).
\<close>

datatype jsnum = Num real | PInf | NInf | NaN

instantiation jsnum :: "{plus, minus, uminus, times}"
begin

fun uminus_jsnum :: "jsnum \<Rightarrow> jsnum" where
  "uminus_jsnum (Num a) = Num (- a)"
| "uminus_jsnum PInf = NInf"
| "uminus_jsnum NInf = PInf"
| "uminus_jsnum NaN = NaN"

fun plus_jsnum :: "jsnum \<Rightarrow> jsnum \<Rightarrow> jsnum" where
  "plus_jsnum NaN _ = NaN"
| "plus_jsnum _ NaN = NaN"
| "plus_jsnum (Num a) (Num b) = Num (a + b)"
| "plus_jsnum PInf NInf = NaN"
| "plus_jsnum NInf PInf = NaN"
| "plus_jsnum PInf _ = PInf"
| "plus_jsnum _ PInf = PInf"
| "plus_jsnum NInf _ = NInf"
| "plus_jsnum _ NInf = NInf"

definition minus_jsnum :: "jsnum \<Rightarrow> jsnum \<Rightarrow> jsnum" where
  "minus_jsnum a b = a + (- b)"

fun times_jsnum :: "jsnum \<Rightarrow> jsnum \<Rightarrow> jsnum" where
  "times_jsnum NaN _ = NaN"
| "times_jsnum _ NaN = NaN"
| "times_jsnum (Num a) (Num b) = Num (a * b)"
| "times_jsnum (Num a) PInf = (if a = 0 then NaN else if 0 < a then PInf else NInf)"
| "times_jsnum (Num a) NInf = (if a = 0 then NaN else if 0 < a then NInf else PInf)"
| "times_jsnum PInf (Num b) = (if b = 0 then NaN else if 0 < b then PInf else NInf)"
| "times_jsnum NInf (Num b) = (if b = 0 then NaN else if 0 < b then NInf else PInf)"
| "times_jsnum PInf PInf = PInf"
| "times_jsnum PInf NInf = NInf"
| "times_jsnum NInf PInf = NInf"
| "times_jsnum NInf NInf = PInf"

instance ..

end

text \<open>\<open>a / b\<close>; a zero divisor is the positive zero.\<close>

fun jdiv :: "jsnum \<Rightarrow> jsnum \<Rightarrow> jsnum" where
  "jdiv NaN _ = NaN"
| "jdiv _ NaN = NaN"
| "jdiv (Num a) (Num b) =
     (if b = 0 then (if a = 0 then NaN else if 0 < a then PInf else NInf) else Num (a / b))"
| "jdiv (Num a) _ = Num 0"
| "jdiv PInf (Num b) = (if 0 \<le> b then PInf else NInf)"
| "jdiv NInf (Num b) = (if 0 \<le> b then NInf else PInf)"
| "jdiv _ _ = NaN"

text \<open>\<open>a < b\<close> and \<open>a <= b\<close>: false as soon as one side is NaN.\<close>

fun jlt :: "jsnum \<Rightarrow> jsnum \<Rightarrow> bool" where
  "jlt NaN _ = False"
| "jlt _ NaN = False"
| "jlt (Num a) (Num b) = (a < b)"
| "jlt _ NInf = False"
| "jlt PInf _ = False"
| "jlt _ PInf = True"
| "jlt NInf _ = True"

fun jle :: "jsnum \<Rightarrow> jsnum \<Rightarrow> bool" where
  "jle NaN _ = False"
| "jle _ NaN = False"
| "jle (Num a) (Num b) = (a \<le> b)"
| "jle NInf _ = True"
| "jle _ PInf = True"
| "jle _ NInf = False"
| "jle PInf _ = False"

definition jgt :: "jsnum \<Rightarrow> jsnum \<Rightarrow> bool" where
  "jgt a b = jlt b a"

definition jge :: "jsnum \<Rightarrow> jsnum \<Rightarrow> bool" where
  "jge a b = jle b a"

text \<open>\<open>Math.max(a, b)\<close> and \<open>Math.min(a, b)\<close>: NaN as soon as one argument is NaN.\<close>

fun Math_max :: "jsnum \<Rightarrow> jsnum \<Rightarrow> jsnum" where
  "Math_max NaN _ = NaN"
| "Math_max _ NaN = NaN"
| "Math_max (Num a) (Num b) = Num (max a b)"
| "Math_max PInf _ = PInf"
| "Math_max _ PInf = PInf"
| "Math_max NInf b = b"
| "Math_max a NInf = a"

fun Math_min :: "jsnum \<Rightarrow> jsnum \<Rightarrow> jsnum" where
  "Math_min NaN _ = NaN"
| "Math_min _ NaN = NaN"
| "Math_min (Num a) (Num b) = Num (min a b)"
| "Math_min NInf _ = NInf"
| "Math_min _ NInf = NInf"
| "Math_min PInf b = b"
| "Math_min a PInf = a"

text \<open>\<open>Math.max(...xs)\<close> and \<open>Math.min(...xs)\<close>: of no argument, minus and plus infinity.\<close>

definition Math_max_of :: "jsnum list \<Rightarrow> jsnum" where
  "Math_max_of xs = foldl Math_max NInf xs"

definition Math_min_of :: "jsnum list \<Rightarrow> jsnum" where
  "Math_min_of xs = foldl Math_min PInf xs"

fun Math_ceil :: "jsnum \<Rightarrow> jsnum" where
  "Math_ceil (Num a) = Num (of_int \<lceil>a\<rceil>)"
| "Math_ceil v = v"

text \<open>\<open>Math.round\<close> rounds a tie towards plus infinity.\<close>

fun Math_round :: "jsnum \<Rightarrow> jsnum" where
  "Math_round (Num a) = Num (of_int \<lfloor>a + 1 / 2\<rfloor>)"
| "Math_round v = v"

fun Math_abs :: "jsnum \<Rightarrow> jsnum" where
  "Math_abs (Num a) = Num \<bar>a\<bar>"
| "Math_abs NaN = NaN"
| "Math_abs _ = PInf"

fun Math_cos :: "jsnum \<Rightarrow> jsnum" where
  "Math_cos (Num a) = Num (cos a)"
| "Math_cos _ = NaN"

fun Math_sin :: "jsnum \<Rightarrow> jsnum" where
  "Math_sin (Num a) = Num (sin a)"
| "Math_sin _ = NaN"

definition atan2_real :: "real \<Rightarrow> real \<Rightarrow> real" where
  "atan2_real y x =
     (if 0 < x then arctan (y / x)
      else if x < 0 then (if 0 \<le> y then arctan (y / x) + pi else arctan (y / x) - pi)
      else if 0 < y then pi / 2 else if y < 0 then - (pi / 2) else 0)"

fun Math_atan2 :: "jsnum \<Rightarrow> jsnum \<Rightarrow> jsnum" where
  "Math_atan2 NaN _ = NaN"
| "Math_atan2 _ NaN = NaN"
| "Math_atan2 (Num y) (Num x) = Num (atan2_real y x)"
| "Math_atan2 (Num y) PInf = Num 0"
| "Math_atan2 (Num y) NInf = (if 0 \<le> y then Num pi else Num (- pi))"
| "Math_atan2 PInf PInf = Num (pi / 4)"
| "Math_atan2 PInf NInf = Num (3 * pi / 4)"
| "Math_atan2 PInf (Num x) = Num (pi / 2)"
| "Math_atan2 NInf PInf = Num (- (pi / 4))"
| "Math_atan2 NInf NInf = Num (- (3 * pi / 4))"
| "Math_atan2 NInf (Num x) = Num (- (pi / 2))"

text \<open>\<open>a % b\<close>: the remainder has the sign of the dividend.\<close>

definition trunc :: "real \<Rightarrow> int" where
  "trunc q = (if 0 \<le> q then \<lfloor>q\<rfloor> else \<lceil>q\<rceil>)"

fun jrem :: "jsnum \<Rightarrow> jsnum \<Rightarrow> jsnum" where
  "jrem (Num a) (Num b) = (if b = 0 then NaN else Num (a - b * of_int (trunc (a / b))))"
| "jrem (Num a) PInf = Num a"
| "jrem (Num a) NInf = Num a"
| "jrem _ _ = NaN"

text \<open>Truthiness of a number, \<open>a || b\<close> on numbers, \<open>Number.isFinite\<close>.\<close>

fun truthy :: "jsnum \<Rightarrow> bool" where
  "truthy (Num a) = (a \<noteq> 0)"
| "truthy NaN = False"
| "truthy _ = True"

definition orElse :: "jsnum \<Rightarrow> jsnum \<Rightarrow> jsnum" where
  "orElse a b = (if truthy a then a else b)"

fun isFinite :: "jsnum \<Rightarrow> bool" where
  "isFinite (Num a) = True"
| "isFinite _ = False"

definition Math_PI :: jsnum where
  "Math_PI = Num pi"

section \<open>Strings of the host language\<close>

text \<open>
  A string is its sequence of UTF-16 code units. \<open>str\<close> reads an ASCII literal;
  \<open>codePoints\<close> is the iteration of \<open>for (const ch of s)\<close>, which takes a surrogate pair
  as one step.
\<close>

type_synonym jsstring = "nat list"

definition str :: "string \<Rightarrow> jsstring" where
  "str s = map of_char s"

fun codePoints :: "jsstring \<Rightarrow> nat list" where
  "codePoints (h # l # rest) =
     (if 55296 \<le> h \<and> h \<le> 56319 \<and> 56320 \<le> l \<and> l \<le> 57343
      then (65536 + (h - 55296) * 1024 + (l - 56320)) # codePoints rest
      else h # codePoints (l # rest))"
| "codePoints us = us"

text \<open>\<open>s.replaceAll(c, r)\<close> for a pattern \<open>c\<close> of one code unit and a replacement without \<open>$\<close>.\<close>

definition replaceAll :: "nat \<Rightarrow> jsstring \<Rightarrow> jsstring \<Rightarrow> jsstring" where
  "replaceAll c r s = concat (map (\<lambda>u. if u = c then r else [u]) s)"

text \<open>\<open>lines.join(sep)\<close>\<close>

fun join :: "jsstring \<Rightarrow> jsstring list \<Rightarrow> jsstring" where
  "join sep [] = []"
| "join sep [l] = l"
| "join sep (l # ls) = l @ sep @ join sep ls"

text \<open>
  What the platform supplies and the code calls: the collation of
  \<open>a.localeCompare(b, "zh-Hans-CN")\<close> (negative, zero or positive), the conversion of a
  number in a template literal, and \<open>n.toFixed(2)\<close>.
\<close>

record platform =
  collate :: "jsstring \<Rightarrow> jsstring \<Rightarrow> int"
  numToString :: "jsnum \<Rightarrow> jsstring"
  toFixed2 :: "jsnum \<Rightarrow> jsstring"

text \<open>
  A collation for closed examples: code units compared in turn. On strings of lower-case
  ASCII letters it is the order of the \<open>zh-Hans-CN\<close> collation.
\<close>

fun codeUnitCompare :: "jsstring \<Rightarrow> jsstring \<Rightarrow> int" where
  "codeUnitCompare [] [] = 0"
| "codeUnitCompare [] (b # bs) = - 1"
| "codeUnitCompare (a # as) [] = 1"
| "codeUnitCompare (a # as) (b # bs) =
     (if a < b then - 1 else if b < a then 1 else codeUnitCompare as bs)"

text \<open>
  \<open>xs.sort(cmp)\<close> is stable; \<open>lt a b\<close> stands for \<open>cmp(a, b) < 0\<close>. For a comparison that
  is a consistent ordering the result is the one any stable sort gives.
\<close>

fun insertBy :: "('a \<Rightarrow> 'a \<Rightarrow> bool) \<Rightarrow> 'a \<Rightarrow> 'a list \<Rightarrow> 'a list" where
  "insertBy lt x [] = [x]"
| "insertBy lt x (y # ys) = (if lt y x then y # insertBy lt x ys else x # y # ys)"

definition sortBy :: "('a \<Rightarrow> 'a \<Rightarrow> bool) \<Rightarrow> 'a list \<Rightarrow> 'a list" where
  "sortBy lt xs = foldr (insertBy lt) xs []"

section \<open>The data model\<close>

record ChenStyle =
  entityScale :: jsnum
  relationScale :: jsnum
  ellipseScale :: jsnum
  hGap :: jsnum
  vGap :: jsnum
  lineWidth :: jsnum
  fontScale :: jsnum

text \<open>\<open>Partial<ChenStyle>\<close>: every field is a number or absent.\<close>

record PartialChenStyle =
  p_entityScale :: "jsnum option"
  p_relationScale :: "jsnum option"
  p_ellipseScale :: "jsnum option"
  p_hGap :: "jsnum option"
  p_vGap :: "jsnum option"
  p_lineWidth :: "jsnum option"
  p_fontScale :: "jsnum option"

record ChenAttribute =
  attr_id :: jsstring
  attr_name :: jsstring
  attr_isPrimary :: bool

record ChenEntity =
  ent_id :: jsstring
  ent_name :: jsstring
  ent_attributes :: "ChenAttribute list"

record ChenRelationshipEndpoint =
  entityId :: jsstring
  cardinality :: jsstring

record ChenRelationship =
  rel_id :: jsstring
  rel_name :: jsstring
  rel_endpoints :: "ChenRelationshipEndpoint list"
  rel_attributes :: "ChenAttribute list"

record ChenModel =
  entities :: "ChenEntity list"
  relationships :: "ChenRelationship list"

record ChenNodeStyle =
  scale :: jsnum
  offsetX :: jsnum
  offsetY :: jsnum
  strokeWidth :: jsnum
  fill :: jsstring
  textColor :: jsstring

record PartialChenNodeStyle =
  p_scale :: "jsnum option"
  p_offsetX :: "jsnum option"
  p_offsetY :: "jsnum option"
  p_strokeWidth :: "jsnum option"
  p_fill :: "jsstring option"
  p_textColor :: "jsstring option"

type_synonym ChenNodeStyleOverrides = "jsstring \<rightharpoonup> PartialChenNodeStyle"

record ChenRenderOptions =
  nodeOverrides :: "ChenNodeStyleOverrides option"
  selectedNodeId :: "jsstring option"

datatype BackboneType = entity | relationship

record BackboneNode =
  bn_id :: jsstring
  bn_type :: BackboneType
  bn_name :: jsstring
  width :: jsnum
  height :: jsnum
  bn_attributes :: "ChenAttribute list"
  bn_endpoints :: "ChenRelationshipEndpoint list option"
  nodeStyle :: ChenNodeStyle
  bn_x :: jsnum
  bn_y :: jsnum
  orbitRadius :: jsnum
  envelopeX :: jsnum
  envelopeY :: jsnum

record AttributeNode =
  an_id :: jsstring
  an_parentId :: jsstring
  an_x :: jsnum
  an_y :: jsnum
  an_rx :: jsnum
  an_ry :: jsnum
  an_label :: jsstring
  an_isPrimary :: bool

datatype Edge =
  EntityRelationship jsstring jsstring jsstring
| AttributeLink jsstring jsstring

datatype SceneNode = Backbone BackboneNode | Attribute AttributeNode

record CardinalityLabel =
  cl_text :: jsstring
  cl_x :: jsnum
  cl_y :: jsnum

record Scene =
  sc_nodes :: "SceneNode list"
  sc_nodeById :: "jsstring \<rightharpoonup> SceneNode"
  sc_edges :: "Edge list"
  cardinalityLabels :: "CardinalityLabel list"
  sc_width :: jsnum
  sc_height :: jsnum

section \<open>Style normalisation\<close>

definition DEFAULT_CHEN_STYLE :: ChenStyle where
  "DEFAULT_CHEN_STYLE =
     \<lparr>entityScale = Num 1, relationScale = Num 1.25, ellipseScale = Num 1, hGap = Num 200,
      vGap = Num 125, lineWidth = Num 2.8, fontScale = Num 1\<rparr>"

definition DEFAULT_CHEN_NODE_STYLE :: ChenNodeStyle where
  "DEFAULT_CHEN_NODE_STYLE =
     \<lparr>scale = Num 1, offsetX = Num 0, offsetY = Num 0, strokeWidth = Num 0,
      fill = str ''#ffffff'', textColor = str ''#111111''\<rparr>"

text \<open>\<open>Number(v ?? d)\<close> for a field that is a number or absent.\<close>

definition nullish :: "'a option \<Rightarrow> 'a \<Rightarrow> 'a" where
  "nullish v d = (case v of None \<Rightarrow> d | Some x \<Rightarrow> x)"

definition normalizeStyle :: "PartialChenStyle \<Rightarrow> ChenStyle" where
  "normalizeStyle style =
     \<lparr>entityScale = nullish (p_entityScale style) (entityScale DEFAULT_CHEN_STYLE),
      relationScale = nullish (p_relationScale style) (relationScale DEFAULT_CHEN_STYLE),
      ellipseScale = nullish (p_ellipseScale style) (ellipseScale DEFAULT_CHEN_STYLE),
      hGap = nullish (p_hGap style) (hGap DEFAULT_CHEN_STYLE),
      vGap = nullish (p_vGap style) (vGap DEFAULT_CHEN_STYLE),
      lineWidth = nullish (p_lineWidth style) (lineWidth DEFAULT_CHEN_STYLE),
      fontScale = nullish (p_fontScale style) (fontScale DEFAULT_CHEN_STYLE)\<rparr>"

text \<open>\<open>s.trim()\<close> removes white space and line terminators at both ends.\<close>

definition isWhiteSpace :: "nat \<Rightarrow> bool" where
  "isWhiteSpace u \<longleftrightarrow>
     u \<in> {9, 10, 11, 12, 13, 32, 160, 5760, 8232, 8233, 8239, 8287, 12288, 65279}
     \<or> (8192 \<le> u \<and> u \<le> 8202)"

definition trim :: "jsstring \<Rightarrow> jsstring" where
  "trim s = rev (dropWhile isWhiteSpace (rev (dropWhile isWhiteSpace s)))"

definition isHexDigit :: "nat \<Rightarrow> bool" where
  "isHexDigit u \<longleftrightarrow> (48 \<le> u \<and> u \<le> 57) \<or> (97 \<le> u \<and> u \<le> 102) \<or> (65 \<le> u \<and> u \<le> 70)"

text \<open>The test of \<open>/^#([0-9a-fA-F]{3}|[0-9a-fA-F]{6})$/\<close>.\<close>

definition isHexColor :: "jsstring \<Rightarrow> bool" where
  "isHexColor s \<longleftrightarrow>
     (case s of [] \<Rightarrow> False
      | h # ds \<Rightarrow> h = 35 \<and> (length ds = 3 \<or> length ds = 6) \<and> list_all isHexDigit ds)"

definition normalizeColor :: "jsstring \<Rightarrow> jsstring \<Rightarrow> jsstring" where
  "normalizeColor rawColor fallback =
     (let color = trim rawColor in if isHexColor color then color else fallback)"

definition clamp :: "jsnum \<Rightarrow> jsnum \<Rightarrow> jsnum \<Rightarrow> jsnum" where
  "clamp lo hi v = Math_max lo (Math_min hi v)"

definition normalizeNodeStyle :: "PartialChenNodeStyle option \<Rightarrow> ChenNodeStyle" where
  "normalizeNodeStyle style =
     \<lparr>scale = clamp (Num 0.6) (Num 2.8)
        (nullish (Option.bind style p_scale) (scale DEFAULT_CHEN_NODE_STYLE)),
      offsetX = clamp (Num (- 1400)) (Num 1400)
        (nullish (Option.bind style p_offsetX) (offsetX DEFAULT_CHEN_NODE_STYLE)),
      offsetY = clamp (Num (- 1400)) (Num 1400)
        (nullish (Option.bind style p_offsetY) (offsetY DEFAULT_CHEN_NODE_STYLE)),
      strokeWidth = clamp (Num 0) (Num 12)
        (nullish (Option.bind style p_strokeWidth) (strokeWidth DEFAULT_CHEN_NODE_STYLE)),
      fill = normalizeColor
        (nullish (Option.bind style p_fill) (fill DEFAULT_CHEN_NODE_STYLE))
        (fill DEFAULT_CHEN_NODE_STYLE),
      textColor = normalizeColor
        (nullish (Option.bind style p_textColor) (textColor DEFAULT_CHEN_NODE_STYLE))
        (textColor DEFAULT_CHEN_NODE_STYLE)\<rparr>"

section \<open>Escaping and sizes\<close>

definition escapeXml :: "jsstring \<Rightarrow> jsstring" where
  "escapeXml text =
     replaceAll 39 (str ''&apos;'')
       (replaceAll 34 (str ''&quot;'')
         (replaceAll 62 (str ''&gt;'')
           (replaceAll 60 (str ''&lt;'')
             (replaceAll 38 (str ''&amp;'') text))))"

definition charWidth :: "jsnum \<Rightarrow> nat \<Rightarrow> jsnum" where
  "charWidth fontSize ch =
     (if 19968 \<le> ch \<and> ch \<le> 40959 then fontSize
      else if 65 \<le> ch \<and> ch \<le> 90 then fontSize * Num 0.66
      else if (97 \<le> ch \<and> ch \<le> 122) \<or> (48 \<le> ch \<and> ch \<le> 57) \<or> ch = 95
      then fontSize * Num 0.58
      else fontSize * Num 0.5)"

definition estimateTextWidth :: "jsstring \<Rightarrow> jsnum \<Rightarrow> jsnum" where
  "estimateTextWidth text fontSize =
     Math_max (foldl (\<lambda>width ch. width + charWidth fontSize ch) (Num 0) (codePoints text))
       (fontSize * Num 1.2)"

definition nodeSizeForEntity :: "jsstring \<Rightarrow> ChenStyle \<Rightarrow> jsnum \<Rightarrow> jsnum \<times> jsnum" where
  "nodeSizeForEntity name style nodeScale =
     (let scale = entityScale style * nodeScale;
          fontScale = fontScale style
      in (Math_max (Num 120 * scale)
            (Math_ceil ((estimateTextWidth name (Num 18 * fontScale) + Num 40) * scale)),
          Math_ceil (Num 58 * scale)))"

definition nodeSizeForRelationship :: "jsstring \<Rightarrow> ChenStyle \<Rightarrow> jsnum \<Rightarrow> jsnum \<times> jsnum" where
  "nodeSizeForRelationship name style nodeScale =
     (let scale = relationScale style * nodeScale;
          fontScale = fontScale style;
          width = Math_max (Num 96 * scale)
            (Math_ceil ((estimateTextWidth name (Num 16 * fontScale) + Num 44) * scale))
      in (width, Math_max (Num 64 * scale) (Math_ceil (width * Num 0.58))))"

text \<open>The result is \<open>(rx, ry, label)\<close>.\<close>

definition nodeSizeForAttribute ::
  "jsstring \<Rightarrow> bool \<Rightarrow> ChenStyle \<Rightarrow> jsnum \<times> jsnum \<times> jsstring" where
  "nodeSizeForAttribute name isPrimary style =
     (let label = (if isPrimary then name @ str '' (PK)'' else name);
          ellipseScale = ellipseScale style;
          fontScale = fontScale style
      in (Math_max (Num 44 * ellipseScale)
            (Math_ceil ((jdiv (estimateTextWidth label (Num 15 * fontScale)) (Num 2) + Num 18)
               * ellipseScale)),
          Math_ceil (Num 28 * ellipseScale),
          label))"

section \<open>Envelopes\<close>

text \<open>The result is \<open>(orbitRadius, envelopeX, envelopeY)\<close>.\<close>

definition maxAttrRadii :: "ChenStyle \<Rightarrow> ChenAttribute list \<Rightarrow> jsnum \<times> jsnum" where
  "maxAttrRadii style attrs =
     foldl (\<lambda>(maxAttrRx, maxAttrRy) attr.
              (case nodeSizeForAttribute (attr_name attr) (attr_isPrimary attr) style of
                 (sx, sy, text) \<Rightarrow> (Math_max maxAttrRx sx, Math_max maxAttrRy sy)))
       (Num 0, Num 0) attrs"

definition computeNodeEnvelope :: "BackboneNode \<Rightarrow> ChenStyle \<Rightarrow> jsnum \<times> jsnum \<times> jsnum" where
  "computeNodeEnvelope node style =
     (let attrs = bn_attributes node;
          (maxAttrRx, maxAttrRy) = maxAttrRadii style attrs;
          orbitRadius =
            (if 0 < length attrs
             then Math_max (width node) (height node) * Num 0.62 + Num 88 * ellipseScale style
                  + Math_min (Num 100) (Num (real (length attrs) * 8)) * ellipseScale style
             else Math_max (width node) (height node) * Num 0.5 + Num 26);
          envelopeX = Math_max (jdiv (width node) (Num 2) + Num 24)
                        (orbitRadius + maxAttrRx + Num 16);
          envelopeY = Math_max (jdiv (height node) (Num 2) + Num 24)
                        (orbitRadius + maxAttrRy + Num 16)
      in (orbitRadius, envelopeX, envelopeY))"

text \<open>\<open>Object.assign(node, computeNodeEnvelope(node, style))\<close>\<close>

definition assignEnvelope :: "BackboneNode \<Rightarrow> ChenStyle \<Rightarrow> BackboneNode" where
  "assignEnvelope node style =
     (case computeNodeEnvelope node style of
        (r, ex, ey) \<Rightarrow> node\<lparr>orbitRadius := r, envelopeX := ex, envelopeY := ey\<rparr>)"

section \<open>Connected components\<close>

text \<open>
  The adjacency is a \<open>Map\<close> from node id to a \<open>Set\<close> of node ids: an association list
  with one entry for each key, each set a list in insertion order. Node objects are
  referred to by their index in the list of backbone nodes.
\<close>

type_synonym adjacency = "(jsstring \<times> jsstring list) list"

definition neighborsOf :: "adjacency \<Rightarrow> jsstring \<Rightarrow> jsstring list" where
  "neighborsOf adj ident = (case map_of adj ident of None \<Rightarrow> [] | Some s \<Rightarrow> s)"

text \<open>\<open>adjacency.get(k)?.add(v)\<close>\<close>

definition addNeighbor :: "jsstring \<Rightarrow> jsstring \<Rightarrow> adjacency \<Rightarrow> adjacency" where
  "addNeighbor k v adj = AList.map_entry k (\<lambda>s. if v \<in> set s then s else s @ [v]) adj"

text \<open>\<open>new Map(nodes.map((node) => [node.id, node]))\<close>: a later node with the same id wins.\<close>

definition indexById :: "BackboneNode list \<Rightarrow> jsstring \<rightharpoonup> nat" where
  "indexById nodes = map_of (rev (zip (map bn_id nodes) [0..<length nodes]))"

text \<open>The inner loop over the neighbours of \<open>id\<close>, on \<open>(visited, queue)\<close>.\<close>

fun visitNeighbors ::
  "jsstring list \<Rightarrow> jsstring set \<times> jsstring list \<Rightarrow> jsstring set \<times> jsstring list" where
  "visitNeighbors [] (visited, queue) = (visited, queue)"
| "visitNeighbors (neighbor # rest) (visited, queue) =
     (if neighbor \<in> visited then visitNeighbors rest (visited, queue)
      else visitNeighbors rest (insert neighbor visited, queue @ [neighbor]))"

definition adjacencyIds :: "adjacency \<Rightarrow> jsstring set" where
  "adjacencyIds adj = (\<Union>entry \<in> set adj. set (snd entry))"

text \<open>
  The \<open>while (queue.length > 0)\<close> loop of \<open>connectedComponents\<close>, on
  \<open>(visited, queue, component)\<close>; an empty id is skipped (\<open>if (!id) continue\<close>).
  Its termination is proved with the results.
\<close>

function (domintros) componentWalk ::
  "adjacency \<Rightarrow> (jsstring \<rightharpoonup> nat) \<Rightarrow> jsstring set \<Rightarrow> jsstring list \<Rightarrow> nat list
   \<Rightarrow> jsstring set \<times> nat list" where
  "componentWalk adj byId visited [] component = (visited, component)"
| "componentWalk adj byId visited (ident # queue) component =
     (if ident = [] then componentWalk adj byId visited queue component
      else case visitNeighbors (neighborsOf adj ident) (visited, queue) of
        (visited', queue') \<Rightarrow>
          componentWalk adj byId visited' queue'
            (case byId ident of None \<Rightarrow> component | Some current \<Rightarrow> component @ [current]))"
  by pat_completeness auto

text \<open>The outer loop of \<open>connectedComponents\<close>, on \<open>(visited, components)\<close>.\<close>

definition componentStep ::
  "adjacency \<Rightarrow> (jsstring \<rightharpoonup> nat) \<Rightarrow> jsstring set \<times> nat list list \<Rightarrow> BackboneNode
   \<Rightarrow> jsstring set \<times> nat list list" where
  "componentStep adj byId state node =
     (case state of (visited, components) \<Rightarrow>
        if bn_id node \<in> visited then (visited, components)
        else case componentWalk adj byId (insert (bn_id node) visited) [bn_id node] [] of
          (visited', component) \<Rightarrow> (visited', components @ [component]))"

definition connectedComponents :: "BackboneNode list \<Rightarrow> adjacency \<Rightarrow> nat list list" where
  "connectedComponents nodes adj =
     snd (foldl (componentStep adj (indexById nodes)) ({}, []) nodes)"

section \<open>The backbone layout\<close>

text \<open>The two node-building loops.\<close>

definition makeEntityNode :: "ChenStyle \<Rightarrow> ChenNodeStyleOverrides \<Rightarrow> ChenEntity \<Rightarrow> BackboneNode" where
  "makeEntityNode style overrides e =
     (let nodeStyle = normalizeNodeStyle (overrides (ent_id e));
          size = nodeSizeForEntity (ent_name e) style (scale nodeStyle)
      in assignEnvelope
           \<lparr>bn_id = ent_id e, bn_type = entity, bn_name = ent_name e,
            width = fst size, height = snd size, bn_attributes = ent_attributes e,
            bn_endpoints = None, nodeStyle = nodeStyle, bn_x = Num 0, bn_y = Num 0,
            orbitRadius = Num 0, envelopeX = Num 0, envelopeY = Num 0\<rparr> style)"

definition makeRelationshipNode ::
  "ChenStyle \<Rightarrow> ChenNodeStyleOverrides \<Rightarrow> ChenRelationship \<Rightarrow> BackboneNode" where
  "makeRelationshipNode style overrides r =
     (let nodeStyle = normalizeNodeStyle (overrides (rel_id r));
          size = nodeSizeForRelationship (rel_name r) style (scale nodeStyle)
      in assignEnvelope
           \<lparr>bn_id = rel_id r, bn_type = relationship, bn_name = rel_name r,
            width = fst size, height = snd size, bn_attributes = rel_attributes r,
            bn_endpoints = Some (rel_endpoints r), nodeStyle = nodeStyle,
            bn_x = Num 0, bn_y = Num 0,
            orbitRadius = Num 0, envelopeX = Num 0, envelopeY = Num 0\<rparr> style)"

definition buildNodes :: "ChenModel \<Rightarrow> ChenStyle \<Rightarrow> ChenNodeStyleOverrides \<Rightarrow> BackboneNode list" where
  "buildNodes model style overrides =
     map (makeEntityNode style overrides) (entities model)
     @ map (makeRelationshipNode style overrides) (relationships model)"

text \<open>\<open>adjacency.set(node.id, new Set())\<close> for each node in turn.\<close>

definition emptyAdjacency :: "BackboneNode list \<Rightarrow> adjacency" where
  "emptyAdjacency nodes = foldl (\<lambda>adj node. AList.update (bn_id node) [] adj) [] nodes"

text \<open>
  The loop over the endpoints of the relationships, on \<open>(adjacency, edges)\<close>. An endpoint
  whose id is not a key of \<open>nodeById\<close> is passed over.
\<close>

definition addEndpoint ::
  "BackboneNode list \<Rightarrow> (jsstring \<rightharpoonup> nat) \<Rightarrow> nat \<Rightarrow> adjacency \<times> Edge list
   \<Rightarrow> ChenRelationshipEndpoint \<Rightarrow> adjacency \<times> Edge list" where
  "addEndpoint nodes nodeById relNode state endpoint =
     (case state of (adj, edges) \<Rightarrow>
        case nodeById (entityId endpoint) of
          None \<Rightarrow> (adj, edges)
        | Some entityNode \<Rightarrow>
            (addNeighbor (bn_id (nodes ! entityNode)) (bn_id (nodes ! relNode))
               (addNeighbor (bn_id (nodes ! relNode)) (bn_id (nodes ! entityNode)) adj),
             edges @ [EntityRelationship (bn_id (nodes ! entityNode)) (bn_id (nodes ! relNode))
                        (if cardinality endpoint = [] then str ''N''
                         else cardinality endpoint)]))"

definition addRelationship ::
  "BackboneNode list \<Rightarrow> (jsstring \<rightharpoonup> nat) \<Rightarrow> adjacency \<times> Edge list
   \<Rightarrow> ChenRelationship \<Rightarrow> adjacency \<times> Edge list" where
  "addRelationship nodes nodeById state r =
     (case nodeById (rel_id r) of
        None \<Rightarrow> state
      | Some relNode \<Rightarrow> foldl (addEndpoint nodes nodeById relNode) state (rel_endpoints r))"

definition buildEdges :: "ChenModel \<Rightarrow> BackboneNode list \<Rightarrow> adjacency \<times> Edge list" where
  "buildEdges model nodes =
     foldl (addRelationship nodes (indexById nodes)) (emptyAdjacency nodes, [])
       (relationships model)"

definition H_MARGIN :: "ChenStyle \<Rightarrow> jsnum" where
  "H_MARGIN style = orElse (hGap style) (Num 260)"

definition V_MARGIN :: "ChenStyle \<Rightarrow> jsnum" where
  "V_MARGIN style = orElse (vGap style) (Num 170)"

definition COMPONENT_GAP :: "ChenStyle \<Rightarrow> jsnum" where
  "COMPONENT_GAP style = Math_round (H_MARGIN style * Num 1.3)"

text \<open>\<open>component.find((node) => node.type === "relationship") || component[0]\<close>\<close>

definition chooseRoot :: "BackboneNode list \<Rightarrow> nat list \<Rightarrow> nat option" where
  "chooseRoot nodes component =
     (case find (\<lambda>i. bn_type (nodes ! i) = relationship) component of
        Some r \<Rightarrow> Some r
      | None \<Rightarrow> (case component of [] \<Rightarrow> None | first # rest \<Rightarrow> Some first))"

text \<open>\<open>depth.get(id) || 0\<close>\<close>

definition depthOf :: "(jsstring \<rightharpoonup> nat) \<Rightarrow> jsstring \<Rightarrow> nat" where
  "depthOf depth ident = (case depth ident of None \<Rightarrow> 0 | Some d \<Rightarrow> d)"

text \<open>The inner loop of the depth walk over the neighbours, on \<open>(depth, queue)\<close>.\<close>

fun assignNeighbors ::
  "jsstring list \<Rightarrow> nat \<Rightarrow> (jsstring \<rightharpoonup> nat) \<times> jsstring list
   \<Rightarrow> (jsstring \<rightharpoonup> nat) \<times> jsstring list" where
  "assignNeighbors [] currentDepth (depth, queue) = (depth, queue)"
| "assignNeighbors (neighbor # rest) currentDepth (depth, queue) =
     (if depth neighbor \<noteq> None then assignNeighbors rest currentDepth (depth, queue)
      else assignNeighbors rest currentDepth
             (depth(neighbor \<mapsto> currentDepth + 1), queue @ [neighbor]))"

text \<open>
  The \<open>while (queue.length > 0)\<close> loop that assigns the depths, on \<open>(depth, queue)\<close>.
  Its termination is proved with the results.
\<close>

function (domintros) depthWalk ::
  "adjacency \<Rightarrow> (jsstring \<rightharpoonup> nat) \<Rightarrow> jsstring list \<Rightarrow> (jsstring \<rightharpoonup> nat)" where
  "depthWalk adj depth [] = depth"
| "depthWalk adj depth (currentId # queue) =
     (if currentId = [] then depthWalk adj depth queue
      else case assignNeighbors (neighborsOf adj currentId) (depthOf depth currentId)
                  (depth, queue) of
        (depth', queue') \<Rightarrow> depthWalk adj depth' queue')"
  by pat_completeness auto

definition assignDepths :: "adjacency \<Rightarrow> jsstring \<Rightarrow> (jsstring \<rightharpoonup> nat)" where
  "assignDepths adj rootId = depthWalk adj [rootId \<mapsto> 0] [rootId]"

text \<open>
  \<open>levels\<close> is a \<open>Map\<close> from depth to the nodes of that depth, in the order of the
  component.
\<close>

definition pushLevel :: "nat \<Rightarrow> nat \<Rightarrow> (nat \<times> nat list) list \<Rightarrow> (nat \<times> nat list) list" where
  "pushLevel d node levels =
     AList.map_entry d (\<lambda>l. l @ [node])
       (if map_of levels d = None then AList.update d [] levels else levels)"

definition buildLevels ::
  "BackboneNode list \<Rightarrow> (jsstring \<rightharpoonup> nat) \<Rightarrow> nat list \<Rightarrow> (nat \<times> nat list) list" where
  "buildLevels nodes depth component =
     foldl (\<lambda>levels node. pushLevel (depthOf depth (bn_id (nodes ! node))) node levels)
       [] component"

text \<open>\<open>levels.get(d) || []\<close>\<close>

definition levelNodesAt :: "(nat \<times> nat list) list \<Rightarrow> nat \<Rightarrow> nat list" where
  "levelNodesAt levels d = (case map_of levels d of None \<Rightarrow> [] | Some l \<Rightarrow> l)"

text \<open>\<open>[...levels.keys()].sort((a, b) => a - b)\<close>\<close>

definition orderedDepths :: "(nat \<times> nat list) list \<Rightarrow> nat list" where
  "orderedDepths levels = sortBy (\<lambda>a b. a < b) (map fst levels)"

text \<open>\<open>xByDepth.get(d) || 0\<close>\<close>

definition xAt :: "(nat \<rightharpoonup> jsnum) \<Rightarrow> nat \<Rightarrow> jsnum" where
  "xAt xByDepth d = (case xByDepth d of None \<Rightarrow> Num 0 | Some x \<Rightarrow> orElse x (Num 0))"

text \<open>The loop that gives each depth its x, on \<open>(xByDepth, prevDepth)\<close>.\<close>

definition levelX ::
  "BackboneNode list \<Rightarrow> (nat \<times> nat list) list \<Rightarrow> jsnum
   \<Rightarrow> (nat \<rightharpoonup> jsnum) \<times> nat option \<Rightarrow> nat \<Rightarrow> (nat \<rightharpoonup> jsnum) \<times> nat option" where
  "levelX nodes levels hMargin state d =
     (case state of (xByDepth, prev) \<Rightarrow>
        case prev of
          None \<Rightarrow> (xByDepth(d \<mapsto> Num 0), Some d)
        | Some prevDepth \<Rightarrow>
            (let prevNodes = levelNodesAt levels prevDepth;
                 currentNodes = levelNodesAt levels d;
                 prevMaxEnvelopeX = Math_max_of (map (\<lambda>node. envelopeX (nodes ! node)) prevNodes);
                 currMaxEnvelopeX = Math_max_of (map (\<lambda>node. envelopeX (nodes ! node)) currentNodes);
                 x = xAt xByDepth prevDepth + prevMaxEnvelopeX + currMaxEnvelopeX + hMargin
             in (xByDepth(d \<mapsto> x), Some d)))"

definition assignX ::
  "BackboneNode list \<Rightarrow> (nat \<times> nat list) list \<Rightarrow> jsnum \<Rightarrow> nat list \<Rightarrow> (nat \<rightharpoonup> jsnum)" where
  "assignX nodes levels hMargin depths =
     fst (foldl (levelX nodes levels hMargin) (Map.empty, None) depths)"

text \<open>\<open>levelNodes.sort((a, b) => a.id.localeCompare(b.id, "zh-Hans-CN"))\<close>\<close>

definition sortLevel ::
  "(jsstring \<Rightarrow> jsstring \<Rightarrow> int) \<Rightarrow> BackboneNode list \<Rightarrow> nat list \<Rightarrow> nat list" where
  "sortLevel localeCompare nodes levelNodes =
     sortBy (\<lambda>a b. localeCompare (bn_id (nodes ! a)) (bn_id (nodes ! b)) < 0) levelNodes"

text \<open>The stacking loop \<open>for (let i = 1; ...)\<close>, on the previous node, \<open>yCursor\<close> and the nodes.\<close>

fun stackY :: "jsnum \<Rightarrow> nat \<Rightarrow> jsnum \<Rightarrow> nat list \<Rightarrow> BackboneNode list \<Rightarrow> BackboneNode list" where
  "stackY vMargin prevNode yCursor [] nodes = nodes"
| "stackY vMargin prevNode yCursor (currNode # rest) nodes =
     (let yCursor' = yCursor + (envelopeY (nodes ! prevNode) + envelopeY (nodes ! currNode)
                                + vMargin)
      in stackY vMargin currNode yCursor' rest
           (nodes[currNode := (nodes ! currNode)\<lparr>bn_y := yCursor'\<rparr>]))"

definition placeLevel ::
  "(jsstring \<Rightarrow> jsstring \<Rightarrow> int) \<Rightarrow> (nat \<times> nat list) list \<Rightarrow> (nat \<rightharpoonup> jsnum) \<Rightarrow> jsnum \<Rightarrow> jsnum
   \<Rightarrow> BackboneNode list \<Rightarrow> nat \<Rightarrow> BackboneNode list" where
  "placeLevel localeCompare levels xByDepth offset vMargin nodes d =
     (case sortLevel localeCompare nodes (levelNodesAt levels d) of
        [] \<Rightarrow> nodes
      | first # rest \<Rightarrow>
          (let levelNodes = first # rest;
               stacked = stackY vMargin first (Num 0) rest
                           (nodes[first := (nodes ! first)\<lparr>bn_y := Num 0\<rparr>]);
               minY = Math_min_of
                        (map (\<lambda>node. bn_y (stacked ! node) - envelopeY (stacked ! node)) levelNodes);
               maxY = Math_max_of
                        (map (\<lambda>node. bn_y (stacked ! node) + envelopeY (stacked ! node)) levelNodes);
               centerY = jdiv (minY + maxY) (Num 2)
           in foldl (\<lambda>ns node. ns[node := (ns ! node)
                       \<lparr>bn_x := offset + xAt xByDepth d, bn_y := bn_y (ns ! node) - centerY\<rparr>])
                stacked levelNodes))"

text \<open>The body of \<open>for (const component of components)\<close>, on \<open>(nodes, offsetX)\<close>.\<close>

definition layoutComponent ::
  "(jsstring \<Rightarrow> jsstring \<Rightarrow> int) \<Rightarrow> adjacency \<Rightarrow> ChenStyle \<Rightarrow> BackboneNode list \<times> jsnum \<Rightarrow> nat list
   \<Rightarrow> BackboneNode list \<times> jsnum" where
  "layoutComponent localeCompare adj style state component =
     (case state of (nodes, offset) \<Rightarrow>
        case chooseRoot nodes component of
          None \<Rightarrow> (nodes, offset)
        | Some rootNode \<Rightarrow>
            (let depth = assignDepths adj (bn_id (nodes ! rootNode));
                 levels = buildLevels nodes depth component;
                 depths = orderedDepths levels;
                 xByDepth = assignX nodes levels (H_MARGIN style) depths;
                 placed = foldl (placeLevel localeCompare levels xByDepth offset (V_MARGIN style))
                            nodes depths;
                 compMinX = Math_min_of
                   (map (\<lambda>node. bn_x (placed ! node) - envelopeX (placed ! node)) component);
                 compMaxX = Math_max_of
                   (map (\<lambda>node. bn_x (placed ! node) + envelopeX (placed ! node)) component)
             in (placed, offset + (compMaxX - compMinX + COMPONENT_GAP style))))"

text \<open>The final loop adds each node's own offset.\<close>

definition applyOffset :: "BackboneNode \<Rightarrow> BackboneNode" where
  "applyOffset node =
     node\<lparr>bn_x := bn_x node + offsetX (nodeStyle node),
          bn_y := bn_y node + offsetY (nodeStyle node)\<rparr>"

text \<open>The result is \<open>(nodes, nodeById, edges)\<close>; \<open>nodeById\<close> gives the index of the node.\<close>

definition buildBackboneLayout ::
  "(jsstring \<Rightarrow> jsstring \<Rightarrow> int) \<Rightarrow> ChenModel \<Rightarrow> ChenStyle \<Rightarrow> ChenNodeStyleOverrides
   \<Rightarrow> BackboneNode list \<times> (jsstring \<rightharpoonup> nat) \<times> Edge list" where
  "buildBackboneLayout localeCompare model style overrides =
     (let backboneNodes = buildNodes model style overrides;
          (adj, edges) = buildEdges model backboneNodes;
          components = connectedComponents backboneNodes adj;
          placed = fst (foldl (layoutComponent localeCompare adj style) (backboneNodes, Num 0) components)
      in (map applyOffset placed, indexById backboneNodes, edges))"

section \<open>Attribute placement\<close>

definition normalizeAngle :: "jsnum \<Rightarrow> jsnum" where
  "normalizeAngle angle =
     (let v = jrem angle (Math_PI * Num 2)
      in if jlt v (Num 0) then v + Math_PI * Num 2 else v)"

definition angularDistance :: "jsnum \<Rightarrow> jsnum \<Rightarrow> jsnum" where
  "angularDistance a b =
     (let diff = Math_abs (normalizeAngle a - normalizeAngle b)
      in Math_min diff (Math_PI * Num 2 - diff))"

text \<open>A candidate is \<open>(angle, score)\<close>.\<close>

definition candidateAt :: "nat \<Rightarrow> jsnum list \<Rightarrow> nat \<Rightarrow> jsnum \<times> jsnum" where
  "candidateAt totalCandidates blockedAngles i =
     (let angle = jdiv (- Math_PI) (Num 2)
                  + jdiv (Num (real i) * Math_PI * Num 2) (Num (real totalCandidates))
      in (angle,
          foldl (\<lambda>score blocked. Math_min score (angularDistance angle blocked))
            (if 0 < length blockedAngles then Math_PI else Math_PI * Num 0.7)
            blockedAngles))"

text \<open>The selection loop, on \<open>selected\<close>; it stops as soon as \<open>count\<close> angles are selected.\<close>

fun selectAngles :: "nat \<Rightarrow> jsnum \<Rightarrow> (jsnum \<times> jsnum) list \<Rightarrow> jsnum list \<Rightarrow> jsnum list" where
  "selectAngles count minGap [] selected = selected"
| "selectAngles count minGap (candidate # rest) selected =
     (let selected' =
            (if list_all (\<lambda>picked. jge (angularDistance picked (fst candidate)) minGap) selected
             then selected @ [fst candidate] else selected)
      in if length selected' = count then selected'
         else selectAngles count minGap rest selected')"

definition chooseAttributeAngles :: "nat \<Rightarrow> jsnum list \<Rightarrow> jsnum list" where
  "chooseAttributeAngles count blockedAngles =
     (if count \<le> 0 then []
      else
        let totalCandidates = max 24 (count * 6);
            candidates = sortBy (\<lambda>a b. jlt (snd b - snd a) (Num 0))
                           (map (candidateAt totalCandidates blockedAngles)
                              [0..<totalCandidates]);
            minGap = Math_min (Math_PI * Num 0.95)
                       (Math_max (Num 0.52)
                          (jdiv (Math_PI * Num 2) (Num (real count + 2)) * Num 0.92));
            selected = selectAngles count minGap candidates []
        in if length selected < count
           then selected
                @ map (\<lambda>i. jdiv (- Math_PI) (Num 2)
                            + Num (real i) * jdiv (Math_PI * Num 2) (Num (real count)))
                    [length selected..<count]
           else selected)"

definition attributesOverlap :: "jsnum \<Rightarrow> jsnum \<Rightarrow> jsnum \<Rightarrow> jsnum \<Rightarrow> AttributeNode \<Rightarrow> bool" where
  "attributesOverlap cx cy rx ry other \<longleftrightarrow>
     jlt (Math_abs (cx - an_x other)) (rx + an_rx other + Num 16)
     \<and> jlt (Math_abs (cy - an_y other)) (ry + an_ry other + Num 16)"

definition overlapsBackboneNode :: "jsnum \<Rightarrow> jsnum \<Rightarrow> jsnum \<Rightarrow> jsnum \<Rightarrow> BackboneNode \<Rightarrow> bool" where
  "overlapsBackboneNode cx cy rx ry node \<longleftrightarrow>
     (let xPad = jdiv (width node) (Num 2) + rx + Num 24;
          yPad = jdiv (height node) (Num 2) + ry + Num 24
      in jlt (Math_abs (cx - bn_x node)) xPad \<and> jlt (Math_abs (cy - bn_y node)) yPad)"

text \<open>The loop over the connector edges that collects the angles towards the neighbours.\<close>

definition pushAngle :: "jsstring \<Rightarrow> jsnum \<Rightarrow> (jsstring \<rightharpoonup> jsnum list) \<Rightarrow> (jsstring \<rightharpoonup> jsnum list)" where
  "pushAngle k a m = (case m k of None \<Rightarrow> m | Some l \<Rightarrow> m(k \<mapsto> l @ [a]))"

definition neighborAngle ::
  "BackboneNode list \<Rightarrow> (jsstring \<rightharpoonup> nat) \<Rightarrow> (jsstring \<rightharpoonup> jsnum list) \<Rightarrow> Edge
   \<Rightarrow> (jsstring \<rightharpoonup> jsnum list)" where
  "neighborAngle nodes nodeById m edge =
     (case edge of
        AttributeLink f t \<Rightarrow> m
      | EntityRelationship eid rid txt \<Rightarrow>
          (case (nodeById eid, nodeById rid) of
             (Some e, Some r) \<Rightarrow>
               (let entityNode = nodes ! e;
                    relationNode = nodes ! r;
                    entityAngle = Math_atan2 (bn_y relationNode - bn_y entityNode)
                                    (bn_x relationNode - bn_x entityNode);
                    relationAngle = Math_atan2 (bn_y entityNode - bn_y relationNode)
                                      (bn_x entityNode - bn_x relationNode)
                in pushAngle (bn_id relationNode) relationAngle
                     (pushAngle (bn_id entityNode) entityAngle m))
           | _ \<Rightarrow> m))"

definition neighborAnglesByNode ::
  "BackboneNode list \<Rightarrow> (jsstring \<rightharpoonup> nat) \<Rightarrow> Edge list \<Rightarrow> (jsstring \<rightharpoonup> jsnum list)" where
  "neighborAnglesByNode nodes nodeById edges =
     foldl (neighborAngle nodes nodeById)
       (foldl (\<lambda>m node. m(bn_id node \<mapsto> [])) Map.empty nodes) edges"

text \<open>One test of the refinement loop: does the ellipse at \<open>(x, y)\<close> hit something?\<close>

definition hits ::
  "BackboneNode list \<Rightarrow> BackboneNode \<Rightarrow> AttributeNode list \<Rightarrow> jsnum \<Rightarrow> jsnum \<Rightarrow> jsnum \<Rightarrow> jsnum
   \<Rightarrow> bool" where
  "hits nodes node attributeNodes x y rx ry \<longleftrightarrow>
     list_ex (\<lambda>otherNode. bn_id otherNode \<noteq> bn_id node
                \<and> overlapsBackboneNode x y rx ry otherNode) nodes
     \<or> list_ex (attributesOverlap x y rx ry) attributeNodes"

text \<open>The refinement loop \<open>for (let step = 0; step < 18; ...)\<close>, on \<open>(angle, dst, x, y)\<close>.\<close>

fun refine ::
  "BackboneNode list \<Rightarrow> BackboneNode \<Rightarrow> AttributeNode list \<Rightarrow> ChenStyle \<Rightarrow> jsnum \<Rightarrow> jsnum
   \<Rightarrow> nat list \<Rightarrow> jsnum \<times> jsnum \<times> jsnum \<times> jsnum \<Rightarrow> jsnum \<times> jsnum \<times> jsnum \<times> jsnum" where
  "refine nodes node attributeNodes style rx ry [] state = state"
| "refine nodes node attributeNodes style rx ry (step # steps) (angle, dst, x, y) =
     (if hits nodes node attributeNodes x y rx ry
      then
        (let dst' = dst + Num 28 * ellipseScale style;
             angle' = angle + (if step mod 2 = 0 then Num 0.08 else Num (- 0.08))
         in refine nodes node attributeNodes style rx ry steps
              (angle', dst', bn_x node + Math_cos angle' * dst',
               bn_y node + Math_sin angle' * dst'))
      else (angle, dst, x, y))"

text \<open>The body of \<open>attrs.forEach((attr, idx) => ...)\<close>, on \<open>(attributeNodes, attributeEdges)\<close>.\<close>

definition placeAttribute ::
  "BackboneNode list \<Rightarrow> ChenStyle \<Rightarrow> BackboneNode \<Rightarrow> jsnum list
   \<Rightarrow> AttributeNode list \<times> Edge list \<Rightarrow> ChenAttribute \<times> nat
   \<Rightarrow> AttributeNode list \<times> Edge list" where
  "placeAttribute nodes style node plannedAngles state entry =
     (case (state, entry) of ((attributeNodes, attributeEdges), (attr, idx)) \<Rightarrow>
        case nodeSizeForAttribute (attr_name attr) (attr_isPrimary attr) style of
          (rx, ry, text) \<Rightarrow>
            (let angle = (if idx < length plannedAngles then plannedAngles ! idx
                          else jdiv (- Math_PI) (Num 2)
                               + jdiv (Num (real idx) * Math_PI * Num 2)
                                   (Num (real (length (bn_attributes node)))));
                 dst = orbitRadius node + rx * Num 0.16;
                 (angle', dst', x, y) =
                   refine nodes node attributeNodes style rx ry [0..<18]
                     (angle, dst, bn_x node + Math_cos angle * dst,
                      bn_y node + Math_sin angle * dst)
             in (attributeNodes @
                   [\<lparr>an_id = attr_id attr, an_parentId = bn_id node, an_x = x, an_y = y,
                     an_rx = rx, an_ry = ry, an_label = text,
                     an_isPrimary = attr_isPrimary attr\<rparr>],
                 attributeEdges @ [AttributeLink (bn_id node) (attr_id attr)])))"

definition placeNodeAttributes ::
  "BackboneNode list \<Rightarrow> ChenStyle \<Rightarrow> (jsstring \<rightharpoonup> jsnum list)
   \<Rightarrow> AttributeNode list \<times> Edge list \<Rightarrow> BackboneNode \<Rightarrow> AttributeNode list \<times> Edge list" where
  "placeNodeAttributes nodes style angles state node =
     (let attrs = bn_attributes node
      in if length attrs = 0 then state
         else
           let blockedAngles = (case angles (bn_id node) of None \<Rightarrow> [] | Some l \<Rightarrow> l);
               plannedAngles = chooseAttributeAngles (length attrs) blockedAngles
           in foldl (placeAttribute nodes style node plannedAngles) state
                (zip attrs [0..<length attrs]))"

text \<open>The result is \<open>(attributeNodes, attributeEdges)\<close>.\<close>

definition placeAttributeNodes ::
  "BackboneNode list \<times> (jsstring \<rightharpoonup> nat) \<times> Edge list \<Rightarrow> ChenStyle
   \<Rightarrow> AttributeNode list \<times> Edge list" where
  "placeAttributeNodes layout style =
     (case layout of (nodes, nodeById, edges) \<Rightarrow>
        foldl (placeNodeAttributes nodes style (neighborAnglesByNode nodes nodeById edges))
          ([], []) nodes)"

section \<open>The scene\<close>

fun nodeId :: "SceneNode \<Rightarrow> jsstring" where
  "nodeId (Backbone n) = bn_id n"
| "nodeId (Attribute a) = an_id a"

fun nodeX :: "SceneNode \<Rightarrow> jsnum" where
  "nodeX (Backbone n) = bn_x n"
| "nodeX (Attribute a) = an_x a"

fun nodeY :: "SceneNode \<Rightarrow> jsnum" where
  "nodeY (Backbone n) = bn_y n"
| "nodeY (Attribute a) = an_y a"

fun shiftNode :: "jsnum \<Rightarrow> jsnum \<Rightarrow> SceneNode \<Rightarrow> SceneNode" where
  "shiftNode shiftX shiftY (Backbone n) =
     Backbone (n\<lparr>bn_x := bn_x n + shiftX, bn_y := bn_y n + shiftY\<rparr>)"
| "shiftNode shiftX shiftY (Attribute a) =
     Attribute (a\<lparr>an_x := an_x a + shiftX, an_y := an_y a + shiftY\<rparr>)"

text \<open>The bounds loop, on \<open>(minX, minY, maxX, maxY)\<close>.\<close>

fun growBounds :: "jsnum \<times> jsnum \<times> jsnum \<times> jsnum \<Rightarrow> SceneNode \<Rightarrow> jsnum \<times> jsnum \<times> jsnum \<times> jsnum" where
  "growBounds (minX, minY, maxX, maxY) (Backbone n) =
     (Math_min minX (bn_x n - jdiv (width n) (Num 2)),
      Math_min minY (bn_y n - jdiv (height n) (Num 2)),
      Math_max maxX (bn_x n + jdiv (width n) (Num 2)),
      Math_max maxY (bn_y n + jdiv (height n) (Num 2)))"
| "growBounds (minX, minY, maxX, maxY) (Attribute a) =
     (Math_min minX (an_x a - an_rx a),
      Math_min minY (an_y a - an_ry a),
      Math_max maxX (an_x a + an_rx a),
      Math_max maxY (an_y a + an_ry a))"

text \<open>\<open>new Map(allNodes.map((node) => [node.id, node]))\<close>: a later node with the same id wins.\<close>

definition sceneNodeById :: "SceneNode list \<Rightarrow> jsstring \<rightharpoonup> SceneNode" where
  "sceneNodeById nodes = map_of (rev (map (\<lambda>node. (nodeId node, node)) nodes))"

definition cardinalityLabel :: "(jsstring \<rightharpoonup> SceneNode) \<Rightarrow> Edge \<Rightarrow> CardinalityLabel list" where
  "cardinalityLabel nodeById edge =
     (case edge of
        AttributeLink f t \<Rightarrow> []
      | EntityRelationship eid rid txt \<Rightarrow>
          (case (nodeById eid, nodeById rid) of
             (Some e, Some r) \<Rightarrow>
               [\<lparr>cl_text = txt,
                 cl_x = nodeX e * (Num 1 - Num 0.62) + nodeX r * Num 0.62,
                 cl_y = nodeY e * (Num 1 - Num 0.62) + nodeY r * Num 0.62\<rparr>]
           | _ \<Rightarrow> []))"

definition computeScene ::
  "(jsstring \<Rightarrow> jsstring \<Rightarrow> int) \<Rightarrow> ChenModel \<Rightarrow> ChenStyle \<Rightarrow> ChenNodeStyleOverrides \<Rightarrow> Scene" where
  "computeScene localeCompare model style overrides =
     (let backbone = buildBackboneLayout localeCompare model style overrides;
          attrs = placeAttributeNodes backbone style;
          allNodes = map Backbone (fst backbone) @ map Attribute (fst attrs);
          allEdges = snd (snd backbone) @ snd attrs;
          (minX0, minY0, maxX0, maxY0) = foldl growBounds (PInf, PInf, NInf, NInf) allNodes;
          (minX, minY, maxX, maxY) =
            (if \<not> isFinite minX0 then (Num 0, Num 0, Num 900, Num 500)
             else (minX0, minY0, maxX0, maxY0));
          padding = Num 90;
          shifted = map (shiftNode (padding - minX) (padding - minY)) allNodes;
          nodeById = sceneNodeById shifted
      in \<lparr>sc_nodes = shifted, sc_nodeById = nodeById, sc_edges = allEdges,
          cardinalityLabels = concat (map (cardinalityLabel nodeById) allEdges),
          sc_width = Math_ceil (maxX - minX + padding * Num 2),
          sc_height = Math_ceil (maxY - minY + padding * Num 2)\<rparr>)"

section \<open>The diagram serializer\<close>

definition edgeLines :: "platform \<Rightarrow> (jsstring \<rightharpoonup> SceneNode) \<Rightarrow> Edge \<Rightarrow> jsstring list" where
  \<open>edgeLines pf nodeById edge =
     (case edge of
        EntityRelationship eid rid txt \<Rightarrow>
          (case (nodeById eid, nodeById rid) of
             (Some e, Some r) \<Rightarrow>
               [str ''<line class="line edge-er" data-edge-type="entityRelationship" data-entity-id="''
                @ escapeXml eid @ str ''" data-relationship-id="'' @ escapeXml rid
                @ str ''" x1="'' @ numToString pf (nodeX e)
                @ str ''" y1="'' @ numToString pf (nodeY e)
                @ str ''" x2="'' @ numToString pf (nodeX r)
                @ str ''" y2="'' @ numToString pf (nodeY r) @ str ''" />'']
           | _ \<Rightarrow> [])
      | AttributeLink fromId toId \<Rightarrow>
          (case (nodeById fromId, nodeById toId) of
             (Some f, Some t) \<Rightarrow>
               [str ''<line class="line edge-attr" data-edge-type="attributeLink" data-from-id="''
                @ escapeXml fromId @ str ''" data-to-id="'' @ escapeXml toId
                @ str ''" x1="'' @ numToString pf (nodeX f)
                @ str ''" y1="'' @ numToString pf (nodeY f)
                @ str ''" x2="'' @ numToString pf (nodeX t)
                @ str ''" y2="'' @ numToString pf (nodeY t) @ str ''" />'']
           | _ \<Rightarrow> []))\<close>

definition cardinalityLines :: "platform \<Rightarrow> jsnum \<Rightarrow> CardinalityLabel \<Rightarrow> jsstring list" where
  \<open>cardinalityLines pf cardFont l =
     (let boxW = Math_ceil (estimateTextWidth (cl_text l) cardFont + Num 16)
      in [str ''<rect x="'' @ numToString pf (cl_x l - jdiv boxW (Num 2))
          @ str ''" y="'' @ numToString pf (cl_y l - Num 14)
          @ str ''" width="'' @ numToString pf boxW @ str ''" height="28" fill="#fff" />'',
          str ''<text class="card" x="'' @ numToString pf (cl_x l)
          @ str ''" y="'' @ numToString pf (cl_y l) @ str ''">''
          @ escapeXml (cl_text l) @ str ''</text>''])\<close>

definition entityLines :: "platform \<Rightarrow> jsstring option \<Rightarrow> jsnum \<Rightarrow> BackboneNode \<Rightarrow> jsstring list" where
  \<open>entityLines pf selected entityStroke node =
     (let HIT_PAD = Num 12;
          isSelected = (selected = Some (bn_id node));
          strokeWidth = (if jgt (strokeWidth (nodeStyle node)) (Num 0)
                         then strokeWidth (nodeStyle node) else entityStroke);
          strokeColor = (if isSelected then str ''#0f766e'' else str ''#111111'');
          fillColor = escapeXml (fill (nodeStyle node));
          textColor = escapeXml (textColor (nodeStyle node));
          entityClass = (if isSelected then str ''entity node-shape selected-shape''
                         else str ''entity node-shape'');
          groupClass = (if isSelected then str ''selected-node'' else str ''normal-node'');
          nodeId = escapeXml (bn_id node);
          nodeName = escapeXml (bn_name node)
      in [str ''<g class="'' @ groupClass @ str ''" data-node-id="'' @ nodeId
          @ str ''" data-node-type="entity" data-node-name="'' @ nodeName @ str ''">'',
          str ''<rect class="node-hit" x="''
          @ numToString pf (bn_x node - jdiv (width node) (Num 2) - HIT_PAD)
          @ str ''" y="'' @ numToString pf (bn_y node - jdiv (height node) (Num 2) - HIT_PAD)
          @ str ''" width="'' @ numToString pf (width node + HIT_PAD * Num 2)
          @ str ''" height="'' @ numToString pf (height node + HIT_PAD * Num 2) @ str ''" />'',
          str ''<rect class="'' @ entityClass
          @ str ''" x="'' @ numToString pf (bn_x node - jdiv (width node) (Num 2))
          @ str ''" y="'' @ numToString pf (bn_y node - jdiv (height node) (Num 2))
          @ str ''" width="'' @ numToString pf (width node)
          @ str ''" height="'' @ numToString pf (height node)
          @ str ''" fill="'' @ fillColor @ str ''" stroke="'' @ strokeColor
          @ str ''" stroke-width="'' @ toFixed2 pf strokeWidth @ str ''" />'',
          str ''<text class="label" x="'' @ numToString pf (bn_x node)
          @ str ''" y="'' @ numToString pf (bn_y node)
          @ str ''" fill="'' @ textColor @ str ''">'' @ nodeName @ str ''</text>'',
          str ''</g>''])\<close>

definition relationshipLines ::
  "platform \<Rightarrow> jsstring option \<Rightarrow> jsnum \<Rightarrow> BackboneNode \<Rightarrow> jsstring list" where
  \<open>relationshipLines pf selected relationStroke node =
     (let HIT_PAD = Num 12;
          isSelected = (selected = Some (bn_id node));
          strokeWidth = (if jgt (strokeWidth (nodeStyle node)) (Num 0)
                         then strokeWidth (nodeStyle node) else relationStroke);
          strokeColor = (if isSelected then str ''#0f766e'' else str ''#111111'');
          fillColor = escapeXml (fill (nodeStyle node));
          textColor = escapeXml (textColor (nodeStyle node));
          relationClass = (if isSelected then str ''relation node-shape selected-shape''
                           else str ''relation node-shape'');
          groupClass = (if isSelected then str ''selected-node'' else str ''normal-node'');
          nodeId = escapeXml (bn_id node);
          nodeName = escapeXml (bn_name node);
          points = join (str '' '')
            [numToString pf (bn_x node) @ str '','' 
               @ numToString pf (bn_y node - jdiv (height node) (Num 2)),
             numToString pf (bn_x node + jdiv (width node) (Num 2)) @ str '',''
               @ numToString pf (bn_y node),
             numToString pf (bn_x node) @ str '',''
               @ numToString pf (bn_y node + jdiv (height node) (Num 2)),
             numToString pf (bn_x node - jdiv (width node) (Num 2)) @ str '',''
               @ numToString pf (bn_y node)];
          hitPoints = join (str '' '')
            [numToString pf (bn_x node) @ str '',''
               @ numToString pf (bn_y node - jdiv (height node) (Num 2) - HIT_PAD),
             numToString pf (bn_x node + jdiv (width node) (Num 2) + HIT_PAD) @ str '',''
               @ numToString pf (bn_y node),
             numToString pf (bn_x node) @ str '',''
               @ numToString pf (bn_y node + jdiv (height node) (Num 2) + HIT_PAD),
             numToString pf (bn_x node - jdiv (width node) (Num 2) - HIT_PAD) @ str '',''
               @ numToString pf (bn_y node)]
      in [str ''<g class="'' @ groupClass @ str ''" data-node-id="'' @ nodeId
          @ str ''" data-node-type="relationship" data-node-name="'' @ nodeName @ str ''">'',
          str ''<polygon class="node-hit" points="'' @ hitPoints @ str ''" />'',
          str ''<polygon class="'' @ relationClass @ str ''" points="'' @ points
          @ str ''" fill="'' @ fillColor @ str ''" stroke="'' @ strokeColor
          @ str ''" stroke-width="'' @ toFixed2 pf strokeWidth @ str ''" />'',
          str ''<text class="label" x="'' @ numToString pf (bn_x node)
          @ str ''" y="'' @ numToString pf (bn_y node)
          @ str ''" fill="'' @ textColor @ str ''">'' @ nodeName @ str ''</text>'',
          str ''</g>''])\<close>

definition attributeLines :: "platform \<Rightarrow> AttributeNode \<Rightarrow> jsstring list" where
  \<open>attributeLines pf node =
     (let attrId = escapeXml (an_id node);
          parentId = escapeXml (an_parentId node);
          pkClass = (if an_isPrimary node then str ''attrLabel pk'' else str ''attrLabel'')
      in [str ''<g data-node-id="'' @ attrId
          @ str ''" data-node-type="attribute" data-parent-id="'' @ parentId @ str ''">'',
          str ''<ellipse class="attr" cx="'' @ numToString pf (an_x node)
          @ str ''" cy="'' @ numToString pf (an_y node)
          @ str ''" rx="'' @ numToString pf (an_rx node)
          @ str ''" ry="'' @ numToString pf (an_ry node) @ str ''" />'',
          str ''<text class="'' @ pkClass @ str ''" x="'' @ numToString pf (an_x node)
          @ str ''" y="'' @ numToString pf (an_y node) @ str ''">''
          @ escapeXml (an_label node) @ str ''</text>'',
          str ''</g>''])\<close>

definition nodeLines ::
  "platform \<Rightarrow> jsstring option \<Rightarrow> jsnum \<Rightarrow> jsnum \<Rightarrow> SceneNode \<Rightarrow> jsstring list" where
  "nodeLines pf selected entityStroke relationStroke node =
     (case node of
        Backbone n \<Rightarrow>
          (case bn_type n of
             entity \<Rightarrow> entityLines pf selected entityStroke n
           | relationship \<Rightarrow> relationshipLines pf selected relationStroke n)
      | Attribute a \<Rightarrow> attributeLines pf a)"

definition headerLines :: "platform \<Rightarrow> Scene \<Rightarrow> jsnum \<Rightarrow> ChenStyle \<Rightarrow> jsstring list" where
  \<open>headerLines pf scene lw style =
     (let entityStroke = Math_max (Num 1.8) (lw * Num 1.35);
          relationStroke = Math_max (Num 1.8) (lw * Num 1.35);
          attrStroke = Math_max (Num 1.2) (lw * Num 1.05);
          labelFont = Math_max (Num 12) (Math_round (Num 22 * fontScale style));
          attrFont = Math_max (Num 11) (Math_round (Num 20 * fontScale style));
          cardFont = Math_max (Num 11) (Math_round (Num 22 * fontScale style))
      in [str ''<svg xmlns="http://www.w3.org/2000/svg" width="''
          @ numToString pf (sc_width scene) @ str ''" height="''
          @ numToString pf (sc_height scene) @ str ''" viewBox="0 0 ''
          @ numToString pf (sc_width scene) @ str '' '' @ numToString pf (sc_height scene)
          @ str ''" role="img" aria-label="Chen ER Diagram">'',
          str ''<style>'',
          str ''.line{stroke:#111;stroke-width:'' @ toFixed2 pf lw
          @ str '';fill:none;stroke-linecap:round;stroke-linejoin:round;shape-rendering:geometricPrecision;}'',
          str ''.entity{stroke:#111;stroke-width:'' @ toFixed2 pf entityStroke
          @ str '';shape-rendering:geometricPrecision;}'',
          str ''.relation{stroke:#111;stroke-width:'' @ toFixed2 pf relationStroke
          @ str '';stroke-linejoin:round;shape-rendering:geometricPrecision;}'',
          str ''.attr{fill:#fff;stroke:#111;stroke-width:'' @ toFixed2 pf attrStroke
          @ str '';shape-rendering:geometricPrecision;}'',
          str ''.node-shape{cursor:grab;}'',
          str ''.node-hit{fill:#000;fill-opacity:0;stroke:none;pointer-events:all;cursor:grab;}'',
          str ''.selected-node .node-shape{stroke:#0f766e !important;filter:drop-shadow(0 0 1px #0f766e);}'',
          str ''.label{font-family:'PingFang SC','Microsoft YaHei',sans-serif;font-size:''
          @ numToString pf labelFont
          @ str ''px;text-anchor:middle;dominant-baseline:middle;pointer-events:none;text-rendering:geometricPrecision;}'',
          str ''.attrLabel{fill:#111;font-family:'PingFang SC','Microsoft YaHei',sans-serif;font-size:''
          @ numToString pf attrFont
          @ str ''px;text-anchor:middle;dominant-baseline:middle;pointer-events:none;text-rendering:geometricPrecision;}'',
          str ''.pk{text-decoration:underline;}'',
          str ''.card{fill:#111;font-family:'PingFang SC','Microsoft YaHei',sans-serif;font-size:''
          @ numToString pf cardFont
          @ str ''px;font-weight:600;text-anchor:middle;dominant-baseline:middle;pointer-events:none;text-rendering:geometricPrecision;}'',
          str ''</style>''])\<close>

text \<open>The lines of the document, before \<open>lines.join("\n")\<close>.\<close>

definition renderLines ::
  "platform \<Rightarrow> ChenModel \<Rightarrow> PartialChenStyle \<Rightarrow> ChenRenderOptions \<Rightarrow> jsstring list" where
  "renderLines pf model styleInput options =
     (let style = normalizeStyle styleInput;
          overrides = (case nodeOverrides options of None \<Rightarrow> Map.empty | Some m \<Rightarrow> m);
          selected = (case selectedNodeId options of
                        None \<Rightarrow> None
                      | Some ident \<Rightarrow> if ident = [] then None else Some ident);
          scene = computeScene (collate pf) model style overrides;
          lineWidth = orElse (lineWidth style) (Num 2.8);
          entityStroke = Math_max (Num 1.8) (lineWidth * Num 1.35);
          relationStroke = Math_max (Num 1.8) (lineWidth * Num 1.35);
          cardFont = Math_max (Num 11) (Math_round (Num 22 * fontScale style))
      in headerLines pf scene lineWidth style
         @ concat (map (edgeLines pf (sc_nodeById scene)) (sc_edges scene))
         @ concat (map (cardinalityLines pf cardFont) (cardinalityLabels scene))
         @ concat (map (nodeLines pf selected entityStroke relationStroke) (sc_nodes scene))
         @ [str ''</svg>''])"

definition renderChenSvg ::
  "platform \<Rightarrow> ChenModel \<Rightarrow> PartialChenStyle \<Rightarrow> ChenRenderOptions \<Rightarrow> jsstring" where
  "renderChenSvg pf model styleInput options =
     join [10] (renderLines pf model styleInput options)"

section \<open>Models and reference definitions for the results\<close>

definition emptyModel :: ChenModel where
  "emptyModel = \<lparr>entities = [], relationships = []\<rparr>"

definition emptyStyle :: PartialChenStyle where
  "emptyStyle =
     \<lparr>p_entityScale = None, p_relationScale = None, p_ellipseScale = None, p_hGap = None,
      p_vGap = None, p_lineWidth = None, p_fontScale = None\<rparr>"

definition noOptions :: ChenRenderOptions where
  "noOptions = \<lparr>nodeOverrides = None, selectedNodeId = None\<rparr>"

text \<open>What the escaping has to do to one code unit.\<close>

definition escapeChar :: "nat \<Rightarrow> jsstring" where
  "escapeChar u =
     (if u = 38 then str ''&amp;'' else if u = 60 then str ''&lt;''
      else if u = 62 then str ''&gt;'' else if u = 34 then str ''&quot;''
      else if u = 39 then str ''&apos;'' else [u])"

text \<open>
  A backbone node without attributes, with the default node style: id, name, type,
  endpoints, width and height, position, orbit radius, envelope.
\<close>

definition plainNode ::
  "string \<Rightarrow> string \<Rightarrow> BackboneType \<Rightarrow> ChenRelationshipEndpoint list option
   \<Rightarrow> real \<times> real \<Rightarrow> real \<times> real \<Rightarrow> real \<Rightarrow> real \<Rightarrow> BackboneNode" where
  "plainNode ident name type eps dims pos r e =
     \<lparr>bn_id = str ident, bn_type = type, bn_name = str name,
      width = Num (fst dims), height = Num (snd dims), bn_attributes = [], bn_endpoints = eps,
      nodeStyle = DEFAULT_CHEN_NODE_STYLE, bn_x = Num (fst pos), bn_y = Num (snd pos),
      orbitRadius = Num r, envelopeX = Num e, envelopeY = Num e\<rparr>"

text \<open>Two entities \<open>users\<close> and \<open>orders\<close>, one relationship \<open>places\<close> between them.\<close>

definition placesEndpoints :: "ChenRelationshipEndpoint list" where
  "placesEndpoints =
     [\<lparr>entityId = str ''users'', cardinality = str ''1''\<rparr>,
      \<lparr>entityId = str ''orders'', cardinality = str ''N''\<rparr>]"

definition usersOrdersModel :: ChenModel where
  "usersOrdersModel =
     \<lparr>entities =
        [\<lparr>ent_id = str ''users'', ent_name = str ''users'', ent_attributes = []\<rparr>,
         \<lparr>ent_id = str ''orders'', ent_name = str ''orders'', ent_attributes = []\<rparr>],
      relationships =
        [\<lparr>rel_id = str ''places'', rel_name = str ''places'',
          rel_endpoints = placesEndpoints, rel_attributes = []\<rparr>]\<rparr>"

definition zeroGapStyle :: ChenStyle where
  "zeroGapStyle = DEFAULT_CHEN_STYLE\<lparr>hGap := Num 0, vGap := NaN\<rparr>"


text \<open>A relationship both of whose endpoints are the same entity.\<close>

definition selfReferenceModel :: ChenModel where
  "selfReferenceModel =
     \<lparr>entities = [\<lparr>ent_id = str ''emp'', ent_name = str ''emp'', ent_attributes = []\<rparr>],
      relationships =
        [\<lparr>rel_id = str ''manages'', rel_name = str ''manages'',
          rel_endpoints = [\<lparr>entityId = str ''emp'', cardinality = str ''1''\<rparr>,
                           \<lparr>entityId = str ''emp'', cardinality = str ''N''\<rparr>],
          rel_attributes = []\<rparr>]\<rparr>"

text \<open>No entity at all; the endpoint of \<open>r2\<close> names the relationship \<open>r1\<close>.\<close>

definition danglingModel :: ChenModel where
  "danglingModel =
     \<lparr>entities = [],
      relationships =
        [\<lparr>rel_id = str ''r1'', rel_name = str ''r1'', rel_endpoints = [], rel_attributes = []\<rparr>,
         \<lparr>rel_id = str ''r2'', rel_name = str ''r2'',
          rel_endpoints = [\<lparr>entityId = str ''r1'', cardinality = str ''1''\<rparr>],
          rel_attributes = []\<rparr>]\<rparr>"

definition usersOrdersNodes :: "BackboneNode list" where
  "usersOrdersNodes =
     [plainNode ''users'' ''users'' entity None (120, 58) (0, 0) 86 102,
      plainNode ''orders'' ''orders'' entity None (120, 58) (0, 0) 86 102,
      plainNode ''places'' ''places'' relationship (Some placesEndpoints) (125, 80) (0, 0) 88.5 104.5]"

definition usersOrdersAdjacency :: adjacency where
  "usersOrdersAdjacency =
     [(str ''users'', [str ''places'']),
      (str ''orders'', [str ''places'']),
      (str ''places'', [str ''users'', str ''orders''])]"

definition usersOrdersEdges :: "Edge list" where
  "usersOrdersEdges =
     [EntityRelationship (str ''users'') (str ''places'') (str ''1''),
      EntityRelationship (str ''orders'') (str ''places'') (str ''N'')]"

definition usersOrdersPlaced :: "BackboneNode list" where
  "usersOrdersPlaced =
     [plainNode ''users'' ''users'' entity None (120, 58) (406.5, 164.5) 86 102,
      plainNode ''orders'' ''orders'' entity None (120, 58) (406.5, - 164.5) 86 102,
      plainNode ''places'' ''places'' relationship (Some placesEndpoints) (125, 80) (0, 0) 88.5 104.5]"

definition usersOrdersPlacedZeroGap :: "BackboneNode list" where
  "usersOrdersPlacedZeroGap =
     [plainNode ''users'' ''users'' entity None (120, 58) (466.5, 187) 86 102,
      plainNode ''orders'' ''orders'' entity None (120, 58) (466.5, - 187) 86 102,
      plainNode ''places'' ''places'' relationship (Some placesEndpoints) (125, 80) (0, 0) 88.5 104.5]"





definition selfReferenceNodes :: "BackboneNode list" where
  "selfReferenceNodes =
     [plainNode ''emp'' ''emp'' entity None (120, 58) (0, 0) 86 102,
      plainNode ''manages'' ''manages'' relationship (Some (rel_endpoints (hd (relationships selfReferenceModel)))) (137, 80) (0, 0) 94.5 110.5]"

definition selfReferenceAdjacency :: adjacency where
  "selfReferenceAdjacency =
     [(str ''emp'', [str ''manages'']),
      (str ''manages'', [str ''emp''])]"

definition selfReferenceEdges :: "Edge list" where
  "selfReferenceEdges =
     [EntityRelationship (str ''emp'') (str ''manages'') (str ''1''),
      EntityRelationship (str ''emp'') (str ''manages'') (str ''N'')]"

definition selfReferencePlaced :: "BackboneNode list" where
  "selfReferencePlaced =
     [plainNode ''emp'' ''emp'' entity None (120, 58) (412.5, 0) 86 102,
      plainNode ''manages'' ''manages'' relationship (Some (rel_endpoints (hd (relationships selfReferenceModel)))) (137, 80) (0, 0) 94.5 110.5]"

definition danglingNodes :: "BackboneNode list" where
  "danglingNodes =
     [plainNode ''r1'' ''r1'' relationship (Some []) (120, 80) (0, 0) 86 102,
      plainNode ''r2'' ''r2'' relationship (Some (rel_endpoints (relationships danglingModel ! 1))) (120, 80) (0, 0) 86 102]"

definition danglingAdjacency :: adjacency where
  "danglingAdjacency =
     [(str ''r1'', [str ''r2'']),
      (str ''r2'', [str ''r1''])]"

definition danglingEdges :: "Edge list" where
  "danglingEdges =
     [EntityRelationship (str ''r1'') (str ''r2'') (str ''1'')]"

definition danglingPlaced :: "BackboneNode list" where
  "danglingPlaced =
     [plainNode ''r1'' ''r1'' relationship (Some []) (120, 80) (0, 0) 86 102,
      plainNode ''r2'' ''r2'' relationship (Some (rel_endpoints (relationships danglingModel ! 1))) (120, 80) (404, 0) 86 102]"

text \<open>The nodes of the scene of \<open>usersOrdersModel\<close>.\<close>

definition usersOrdersShifted :: "BackboneNode list" where
  "usersOrdersShifted =
     [plainNode ''users'' ''users'' entity None (120, 58) (559, 448) 86 102,
      plainNode ''orders'' ''orders'' entity None (120, 58) (559, 119) 86 102,
      plainNode ''places'' ''places'' relationship (Some placesEndpoints) (125, 80) (152.5, 283.5) 88.5 104.5]"




text \<open>
  A node as it is before the layout places it; the label of an attribute, with the mark of
  a primary key; what an attribute node shows of its attribute.
\<close>

definition unplaced :: "BackboneNode \<Rightarrow> BackboneNode" where
  "unplaced node = node\<lparr>bn_x := Num 0, bn_y := Num 0\<rparr>"

definition attributeLabel :: "ChenAttribute \<Rightarrow> jsstring" where
  "attributeLabel attr =
     (if attr_isPrimary attr then attr_name attr @ str '' (PK)'' else attr_name attr)"

definition attributeInfo :: "AttributeNode \<Rightarrow> jsstring \<times> jsstring \<times> jsstring \<times> bool" where
  "attributeInfo a = (an_id a, an_parentId a, an_label a, an_isPrimary a)"

definition expectedInfo ::
  "BackboneNode \<Rightarrow> ChenAttribute \<Rightarrow> jsstring \<times> jsstring \<times> jsstring \<times> bool" where
  "expectedInfo node attr = (attr_id attr, bn_id node, attributeLabel attr, attr_isPrimary attr)"

text \<open>An entity with one attribute, whose name has the five reserved characters.\<close>

definition scriptModel :: ChenModel where
  \<open>scriptModel =
     \<lparr>entities =
        [\<lparr>ent_id = str ''e'', ent_name = str ''e'',
          ent_attributes =
            [\<lparr>attr_id = str ''a'', attr_name = str ''<script>&"'' @ [39],
              attr_isPrimary = False\<rparr>]\<rparr>],
      relationships = []\<rparr>\<close>

text \<open>A platform that compares by code units, with given number formats.\<close>

definition examplePlatform :: "(jsnum \<Rightarrow> jsstring) \<Rightarrow> (jsnum \<Rightarrow> jsstring) \<Rightarrow> platform" where
  "examplePlatform print fixed =
     \<lparr>collate = codeUnitCompare, numToString = print, toFixed2 = fixed\<rparr>"

text \<open>
  The ids of the backbone nodes of a model, the edge of one endpoint, and the edges of the
  endpoints whose id is among given ids, in the order of the model.
\<close>

definition nodeIds :: "ChenModel \<Rightarrow> jsstring set" where
  "nodeIds model = ent_id ` set (entities model) \<union> rel_id ` set (relationships model)"

definition endpointEdge :: "ChenRelationship \<Rightarrow> ChenRelationshipEndpoint \<Rightarrow> Edge" where
  "endpointEdge r ep =
     EntityRelationship (entityId ep) (rel_id r)
       (if cardinality ep = [] then str ''N'' else cardinality ep)"

definition endpointEdges :: "jsstring set \<Rightarrow> ChenRelationship \<Rightarrow> Edge list" where
  "endpointEdges ids r =
     map (endpointEdge r) (filter (\<lambda>ep. entityId ep \<in> ids) (rel_endpoints r))"

definition modelEdges :: "ChenModel \<Rightarrow> Edge list" where
  "modelEdges model = concat (map (endpointEdges (nodeIds model)) (relationships model))"

text \<open>The two adjacency links of one edge, and the text of its label.\<close>

definition linkEdge :: "adjacency \<Rightarrow> Edge \<Rightarrow> adjacency" where
  "linkEdge adj edge =
     (case edge of
        EntityRelationship e r c \<Rightarrow> addNeighbor e r (addNeighbor r e adj)
      | AttributeLink f t \<Rightarrow> adj)"

fun edgeText :: "Edge \<Rightarrow> jsstring" where
  "edgeText (EntityRelationship e r c) = c"
| "edgeText (AttributeLink f t) = []"

text \<open>An entity with one relationship, one of whose endpoints names no node.\<close>

definition ghostModel :: ChenModel where
  "ghostModel =
     \<lparr>entities = [\<lparr>ent_id = str ''a'', ent_name = str ''a'', ent_attributes = []\<rparr>],
      relationships =
        [\<lparr>rel_id = str ''r'', rel_name = str ''r'',
          rel_endpoints =
            [\<lparr>entityId = str ''a'', cardinality = str ''1''\<rparr>,
             \<lparr>entityId = str ''ghost'', cardinality = str ''N''\<rparr>],
          rel_attributes = []\<rparr>]\<rparr>"

text \<open>
  The replacement of each code unit of a text by its reference.
\<close>

definition escaped :: "jsstring \<Rightarrow> jsstring" where
  "escaped s = concat (map escapeChar s)"

text \<open>
  Reference definitions for the vertical placement of a level, to be compared with what the
  layout computes. The stacking cursors of the nodes that follow \<open>prev\<close> in a sorted level,
  from the cursor \<open>y\<close> of \<open>prev\<close>: each is the one before plus the two envelope half-heights
  plus the vertical margin.
\<close>

fun levelCursors :: "jsnum \<Rightarrow> BackboneNode list \<Rightarrow> nat \<Rightarrow> jsnum \<Rightarrow> nat list \<Rightarrow> jsnum list" where
  "levelCursors vMargin nodes prev y [] = []"
| "levelCursors vMargin nodes prev y (nxt # rest) =
     (y + (envelopeY (nodes ! prev) + envelopeY (nodes ! nxt) + vMargin))
     # levelCursors vMargin nodes nxt
         (y + (envelopeY (nodes ! prev) + envelopeY (nodes ! nxt) + vMargin)) rest"

text \<open>The nodes of a sorted level with their stacking cursors; the first is at 0.\<close>

definition stackedLevel :: "jsnum \<Rightarrow> BackboneNode list \<Rightarrow> nat list \<Rightarrow> (nat \<times> jsnum) list" where
  "stackedLevel vMargin nodes level =
     (case level of
        [] \<Rightarrow> []
      | first # rest \<Rightarrow>
          (first, Num 0) # zip rest (levelCursors vMargin nodes first (Num 0) rest))"

text \<open>The centre of a stacked level: half the sum of its least top and its greatest bottom.\<close>

definition levelCentre :: "BackboneNode list \<Rightarrow> (nat \<times> jsnum) list \<Rightarrow> jsnum" where
  "levelCentre nodes stacked =
     jdiv (Math_min_of (map (\<lambda>entry. snd entry - envelopeY (nodes ! fst entry)) stacked)
           + Math_max_of (map (\<lambda>entry. snd entry + envelopeY (nodes ! fst entry)) stacked))
       (Num 2)"

text \<open>
  The levels of a component: its nodes by depth from its root, the first relationship of
  the component or else its first node.
\<close>

definition componentLevels ::
  "adjacency \<Rightarrow> BackboneNode list \<Rightarrow> nat list \<Rightarrow> (nat \<times> nat list) list" where
  "componentLevels adj nodes component =
     (case chooseRoot nodes component of
        None \<Rightarrow> []
      | Some rootNode \<Rightarrow>
          buildLevels nodes (assignDepths adj (bn_id (nodes ! rootNode))) component)"








section \<open>Results\<close>

subsection \<open>Termination of the walks\<close>

lemma visitNeighbors_new:
  "\<exists>new. visitNeighbors ns (visited, queue) = (visited \<union> set new, queue @ new)
         \<and> distinct new \<and> set new \<inter> visited = {} \<and> set new \<subseteq> set ns"
proof (induction ns arbitrary: visited queue)
  case Nil
  show ?case by (rule exI [of _ "[]"]) simp
next
  case (Cons n ns)
  show ?case
  proof (cases "n \<in> visited")
    case True
    from Cons.IH [of visited queue] obtain new where
      "visitNeighbors ns (visited, queue) = (visited \<union> set new, queue @ new)"
      "distinct new" "set new \<inter> visited = {}" "set new \<subseteq> set ns" by blast
    with True show ?thesis by (intro exI [of _ new]) auto
  next
    case False
    from Cons.IH [of "insert n visited" "queue @ [n]"] obtain new where
      new: "visitNeighbors ns (insert n visited, queue @ [n])
            = (insert n visited \<union> set new, (queue @ [n]) @ new)"
      "distinct new" "set new \<inter> insert n visited = {}" "set new \<subseteq> set ns" by blast
    with False show ?thesis by (intro exI [of _ "n # new"]) auto
  qed
qed

lemma neighborsOf_adjacencyIds: "set (neighborsOf adj ident) \<subseteq> adjacencyIds adj"
proof (cases "map_of adj ident")
  case None
  then show ?thesis by (simp add: neighborsOf_def)
next
  case (Some s)
  then have "(ident, s) \<in> set adj" by (rule map_of_SomeD)
  with Some show ?thesis by (force simp: neighborsOf_def adjacencyIds_def)
qed

lemma finite_adjacencyIds: "finite (adjacencyIds adj)"
  by (simp add: adjacencyIds_def)

lemma visitNeighbors_measure:
  assumes "visitNeighbors (neighborsOf adj ident) (visited, queue) = (visited', queue')"
  shows "2 * card (adjacencyIds adj - visited') + length queue'
         \<le> 2 * card (adjacencyIds adj - visited) + length queue"
proof -
  from visitNeighbors_new [of "neighborsOf adj ident" visited queue] assms obtain new where
    new: "visited' = visited \<union> set new" "queue' = queue @ new" "distinct new"
      "set new \<inter> visited = {}" "set new \<subseteq> set (neighborsOf adj ident)" by auto
  let ?U = "adjacencyIds adj"
  from new(5) neighborsOf_adjacencyIds [of adj ident] have sub: "set new \<subseteq> ?U" by blast
  have "?U - visited = (?U - visited') \<union> set new" using new(1,4) sub by auto
  moreover have "(?U - visited') \<inter> set new = {}" using new(1) by auto
  ultimately have "card (?U - visited) = card (?U - visited') + card (set new)"
    using finite_adjacencyIds [of adj] by (metis card_Un_disjoint finite_Diff List.finite_set)
  with new(2,3) show ?thesis by (simp add: distinct_card)
qed

lemma componentWalk_total: "componentWalk_dom (adj, byId, visited, queue, component)"
proof (induction "2 * card (adjacencyIds adj - visited) + length queue"
    arbitrary: visited queue component rule: less_induct)
  case less
  show ?case
  proof (cases queue)
    case Nil
    then show ?thesis by (simp add: componentWalk.domintros(1))
  next
    case (Cons ident rest)
    show ?thesis
      unfolding Cons
    proof (rule componentWalk.domintros(2))
      show "componentWalk_dom (adj, byId, visited, rest, component)"
        by (rule less) (simp add: Cons)
    next
      fix x ya
      assume "(x, ya) = visitNeighbors (neighborsOf adj ident) (visited, rest)"
      then have "2 * card (adjacencyIds adj - x) + length ya
                 \<le> 2 * card (adjacencyIds adj - visited) + length rest"
        by (intro visitNeighbors_measure) simp
      then show "componentWalk_dom (adj, byId, x, ya,
                   case byId ident of None \<Rightarrow> component | Some current \<Rightarrow> component @ [current])"
        by (intro less) (simp add: Cons)
    qed
  qed
qed

termination componentWalk
  by (auto intro: componentWalk_total)

lemma assignNeighbors_new:
  "\<exists>new. snd (assignNeighbors ns d (depth, queue)) = queue @ new
         \<and> dom (fst (assignNeighbors ns d (depth, queue))) = dom depth \<union> set new
         \<and> distinct new \<and> set new \<inter> dom depth = {} \<and> set new \<subseteq> set ns"
proof (induction ns arbitrary: depth queue)
  case Nil
  show ?case by (rule exI [of _ "[]"]) simp
next
  case (Cons n ns)
  show ?case
  proof (cases "depth n = None")
    case False
    from Cons.IH [of depth queue] obtain new where
      "snd (assignNeighbors ns d (depth, queue)) = queue @ new"
      "dom (fst (assignNeighbors ns d (depth, queue))) = dom depth \<union> set new"
      "distinct new" "set new \<inter> dom depth = {}" "set new \<subseteq> set ns" by blast
    with False show ?thesis by (intro exI [of _ new]) auto
  next
    case True
    let ?depth = "depth(n \<mapsto> d + 1)"
    from Cons.IH [of ?depth "queue @ [n]"] obtain new where
      "snd (assignNeighbors ns d (?depth, queue @ [n])) = (queue @ [n]) @ new"
      "dom (fst (assignNeighbors ns d (?depth, queue @ [n]))) = dom ?depth \<union> set new"
      "distinct new" "set new \<inter> dom ?depth = {}" "set new \<subseteq> set ns" by blast
    with True show ?thesis by (intro exI [of _ "n # new"]) auto
  qed
qed

lemma assignNeighbors_measure:
  assumes "assignNeighbors (neighborsOf adj ident) d (depth, queue) = (depth', queue')"
  shows "2 * card (adjacencyIds adj - dom depth') + length queue'
         \<le> 2 * card (adjacencyIds adj - dom depth) + length queue"
proof -
  from assignNeighbors_new [of "neighborsOf adj ident" d depth queue] assms obtain new where
    new: "dom depth' = dom depth \<union> set new" "queue' = queue @ new" "distinct new"
      "set new \<inter> dom depth = {}" "set new \<subseteq> set (neighborsOf adj ident)" by auto
  let ?U = "adjacencyIds adj"
  from new(5) neighborsOf_adjacencyIds [of adj ident] have sub: "set new \<subseteq> ?U" by blast
  have "?U - dom depth = (?U - dom depth') \<union> set new" using new(1,4) sub by auto
  moreover have "(?U - dom depth') \<inter> set new = {}" using new(1) by auto
  ultimately have "card (?U - dom depth) = card (?U - dom depth') + card (set new)"
    using finite_adjacencyIds [of adj] by (metis card_Un_disjoint finite_Diff List.finite_set)
  with new(2,3) show ?thesis by (simp add: distinct_card)
qed

lemma depthWalk_total: "depthWalk_dom (adj, depth, queue)"
proof (induction "2 * card (adjacencyIds adj - dom depth) + length queue"
    arbitrary: depth queue rule: less_induct)
  case less
  show ?case
  proof (cases queue)
    case Nil
    then show ?thesis by (simp add: depthWalk.domintros(1))
  next
    case (Cons currentId rest)
    show ?thesis
      unfolding Cons
    proof (rule depthWalk.domintros(2))
      show "depthWalk_dom (adj, depth, rest)"
        by (rule less) (simp add: Cons)
    next
      fix x ya
      assume "(x, ya) = assignNeighbors (neighborsOf adj currentId) (depthOf depth currentId)
                         (depth, rest)"
      then have eq: "assignNeighbors (neighborsOf adj currentId) (depthOf depth currentId)
                   (depth, rest) = (x, ya)"
        by simp
      then have "2 * card (adjacencyIds adj - dom x) + length ya
                 \<le> 2 * card (adjacencyIds adj - dom depth) + length rest"
        by (rule assignNeighbors_measure)
      then have "depthWalk_dom (adj, x, ya)"
        by (intro less) (simp add: Cons)
      with eq show "depthWalk_dom (adj, assignNeighbors (neighborsOf adj currentId)
                      (depthOf depth currentId) (depth, rest))"
        by simp
    qed
  qed
qed

termination depthWalk
  by (auto intro: depthWalk_total)

text \<open>
  C4 (as the code has it). Style normalisation is total; a field that is absent takes its
  default; a field that is given is passed through as it is, NaN included.
\<close>

theorem normalizeStyle_fields:
  "entityScale (normalizeStyle s) = (case p_entityScale s of None \<Rightarrow> Num 1 | Some v \<Rightarrow> v)
   \<and> relationScale (normalizeStyle s) = (case p_relationScale s of None \<Rightarrow> Num 1.25 | Some v \<Rightarrow> v)
   \<and> ellipseScale (normalizeStyle s) = (case p_ellipseScale s of None \<Rightarrow> Num 1 | Some v \<Rightarrow> v)
   \<and> hGap (normalizeStyle s) = (case p_hGap s of None \<Rightarrow> Num 200 | Some v \<Rightarrow> v)
   \<and> vGap (normalizeStyle s) = (case p_vGap s of None \<Rightarrow> Num 125 | Some v \<Rightarrow> v)
   \<and> lineWidth (normalizeStyle s) = (case p_lineWidth s of None \<Rightarrow> Num 2.8 | Some v \<Rightarrow> v)
   \<and> fontScale (normalizeStyle s) = (case p_fontScale s of None \<Rightarrow> Num 1 | Some v \<Rightarrow> v)"
  by (simp add: normalizeStyle_def nullish_def DEFAULT_CHEN_STYLE_def split: option.splits)

theorem normalizeStyle_nan_counterexample:
  "hGap (normalizeStyle (emptyStyle\<lparr>p_hGap := Some NaN\<rparr>)) = NaN
   \<and> hGap DEFAULT_CHEN_STYLE = Num 200"
  by (simp add: normalizeStyle_def nullish_def DEFAULT_CHEN_STYLE_def emptyStyle_def)

subsection \<open>Unfolding the layout on a given model\<close>

lemmas size_eval = estimateTextWidth_def charWidth_def nodeSizeForEntity_def
  nodeSizeForRelationship_def nodeSizeForAttribute_def str_def

lemmas node_eval = buildNodes_def makeEntityNode_def makeRelationshipNode_def
  normalizeNodeStyle_def nullish_def DEFAULT_CHEN_NODE_STYLE_def clamp_def normalizeColor_def
  trim_def isWhiteSpace_def isHexColor_def isHexDigit_def assignEnvelope_def
  computeNodeEnvelope_def maxAttrRadii_def

lemmas edge_eval = buildEdges_def addRelationship_def addEndpoint_def addNeighbor_def
  emptyAdjacency_def indexById_def

lemmas component_eval = connectedComponents_def componentStep_def neighborsOf_def indexById_def

lemmas place_eval = layoutComponent_def chooseRoot_def assignDepths_def depthOf_def
  neighborsOf_def buildLevels_def pushLevel_def levelNodesAt_def orderedDepths_def sortBy_def
  xAt_def levelX_def assignX_def sortLevel_def placeLevel_def H_MARGIN_def V_MARGIN_def
  COMPONENT_GAP_def orElse_def Math_max_of_def Math_min_of_def minus_jsnum_def applyOffset_def

lemmas scene_eval = computeScene_def placeAttributeNodes_def placeNodeAttributes_def
  neighborAnglesByNode_def neighborAngle_def pushAngle_def sceneNodeById_def
  cardinalityLabel_def minus_jsnum_def

subsection \<open>The empty model\<close>

lemma emptyLayout: "buildBackboneLayout cmp emptyModel style overrides = ([], Map.empty, [])"
  by (simp add: buildBackboneLayout_def emptyModel_def buildNodes_def edge_eval component_eval)

lemma emptyScene:
  "computeScene cmp emptyModel style overrides =
     \<lparr>sc_nodes = [], sc_nodeById = Map.empty, sc_edges = [], cardinalityLabels = [],
      sc_width = Num 1080, sc_height = Num 680\<rparr>"
  unfolding computeScene_def emptyLayout
  by (simp add: placeAttributeNodes_def neighborAnglesByNode_def sceneNodeById_def minus_jsnum_def)

text \<open>
  C8. For the model without entities and relationships the scene has no node, the canvas
  is the fallback bounds 900 by 500 plus twice the padding of 90, whatever the style and the
  overrides, and the document is the header, sized 1080 by 680, followed by the closing tag.
\<close>

theorem empty_model_canvas:
  \<open>sc_nodes (computeScene (collate pf) emptyModel style overrides) = []
   \<and> sc_width (computeScene (collate pf) emptyModel style overrides) = Num (900 + 2 * 90)
   \<and> sc_height (computeScene (collate pf) emptyModel style overrides) = Num (500 + 2 * 90)
   \<and> hd (renderLines pf emptyModel styleInput options) =
       str ''<svg xmlns="http://www.w3.org/2000/svg" width="'' @ numToString pf (Num 1080)
       @ str ''" height="'' @ numToString pf (Num 680) @ str ''" viewBox="0 0 ''
       @ numToString pf (Num 1080) @ str '' '' @ numToString pf (Num 680)
       @ str ''" role="img" aria-label="Chen ER Diagram">''
   \<and> length (renderLines pf emptyModel styleInput options) = 15
   \<and> last (renderLines pf emptyModel styleInput options) = str ''</svg>''\<close>
  by (simp add: emptyScene renderLines_def headerLines_def Let_def)

subsection \<open>The layout in stages\<close>

lemma plainNode_sel:
  "bn_id (plainNode ident name type eps dims pos r e) = str ident"
  "bn_type (plainNode ident name type eps dims pos r e) = type"
  "bn_name (plainNode ident name type eps dims pos r e) = str name"
  "width (plainNode ident name type eps dims pos r e) = Num (fst dims)"
  "height (plainNode ident name type eps dims pos r e) = Num (snd dims)"
  "bn_attributes (plainNode ident name type eps dims pos r e) = []"
  "nodeStyle (plainNode ident name type eps dims pos r e) = DEFAULT_CHEN_NODE_STYLE"
  "bn_x (plainNode ident name type eps dims pos r e) = Num (fst pos)"
  "bn_y (plainNode ident name type eps dims pos r e) = Num (snd pos)"
  "orbitRadius (plainNode ident name type eps dims pos r e) = Num r"
  "envelopeX (plainNode ident name type eps dims pos r e) = Num e"
  "envelopeY (plainNode ident name type eps dims pos r e) = Num e"
  "(plainNode ident name type eps dims pos r e)\<lparr>bn_x := Num x\<rparr>
     = plainNode ident name type eps dims (x, snd pos) r e"
  "(plainNode ident name type eps dims pos r e)\<lparr>bn_y := Num y\<rparr>
     = plainNode ident name type eps dims (fst pos, y) r e"
  by (simp_all add: plainNode_def)

lemmas plain_eval = plainNode_sel DEFAULT_CHEN_STYLE_def DEFAULT_CHEN_NODE_STYLE_def str_def

lemma layoutComponent_staged:
  assumes "chooseRoot nodes component = Some r"
      and "assignDepths adj (bn_id (nodes ! r)) = depth"
      and "buildLevels nodes depth component = levels"
      and "orderedDepths levels = depths"
      and "assignX nodes levels (H_MARGIN style) depths = xByDepth"
      and "foldl (placeLevel cmp levels xByDepth offset (V_MARGIN style)) nodes depths = placed"
      and "offset + (Math_max_of (map (\<lambda>node. bn_x (placed ! node)
                                          + envelopeX (placed ! node)) component)
                     - Math_min_of (map (\<lambda>node. bn_x (placed ! node)
                                            - envelopeX (placed ! node)) component)
                     + COMPONENT_GAP style) = offset'"
  shows "layoutComponent cmp adj style (nodes, offset) component = (placed, offset')"
  using assms by (simp add: layoutComponent_def Let_def)

lemma buildBackboneLayout_staged:
  assumes "buildNodes model style overrides = nodes"
      and "buildEdges model nodes = (adj, edges)"
      and "connectedComponents nodes adj = components"
      and "foldl (layoutComponent cmp adj style) (nodes, Num 0) components = (placed, offset)"
      and "map applyOffset placed = final"
  shows "buildBackboneLayout cmp model style overrides = (final, indexById nodes, edges)"
  using assms by (simp add: buildBackboneLayout_def Let_def)

lemma placeNodeAttributes_plain:
  "bn_attributes node = [] \<Longrightarrow> placeNodeAttributes nodes style angles state node = state"
  by (simp add: placeNodeAttributes_def)

lemma foldl_placeNodeAttributes_plain:
  "\<forall>node \<in> set ns. bn_attributes node = []
   \<Longrightarrow> foldl (placeNodeAttributes nodes style angles) state ns = state"
  by (induction ns arbitrary: state) (simp_all add: placeNodeAttributes_plain)

lemma placeAttributeNodes_plain:
  "\<forall>node \<in> set nodes. bn_attributes node = []
   \<Longrightarrow> placeAttributeNodes (nodes, nodeById, edges) style = ([], [])"
  by (simp add: placeAttributeNodes_def foldl_placeNodeAttributes_plain)

lemma computeScene_staged:
  assumes "buildBackboneLayout cmp model style overrides = (nodes, nodeById, edges)"
      and "\<forall>node \<in> set nodes. bn_attributes node = []"
      and "foldl growBounds (PInf, PInf, NInf, NInf) (map Backbone nodes)
           = (Num minX, Num minY, Num maxX, Num maxY)"
      and "map (shiftNode (Num 90 - Num minX) (Num 90 - Num minY)) (map Backbone nodes) = shifted"
  shows "computeScene cmp model style overrides =
           \<lparr>sc_nodes = shifted, sc_nodeById = sceneNodeById shifted, sc_edges = edges,
            cardinalityLabels = concat (map (cardinalityLabel (sceneNodeById shifted)) edges),
            sc_width = Math_ceil (Num maxX - Num minX + Num 90 * Num 2),
            sc_height = Math_ceil (Num maxY - Num minY + Num 90 * Num 2)\<rparr>"
  using assms by (simp add: computeScene_def placeAttributeNodes_plain Let_def)

subsection \<open>The model \<open>usersOrdersModel\<close>\<close>

lemma usersOrders_nodes: "buildNodes usersOrdersModel DEFAULT_CHEN_STYLE Map.empty = usersOrdersNodes"
  by (simp add: usersOrdersModel_def usersOrdersNodes_def plainNode_def placesEndpoints_def DEFAULT_CHEN_STYLE_def node_eval
      size_eval)

lemma usersOrders_nodesZeroGap: "buildNodes usersOrdersModel zeroGapStyle Map.empty = usersOrdersNodes"
  by (simp add: usersOrdersModel_def usersOrdersNodes_def plainNode_def placesEndpoints_def zeroGapStyle_def DEFAULT_CHEN_STYLE_def node_eval
      size_eval)

lemma usersOrders_edges: "buildEdges usersOrdersModel usersOrdersNodes = (usersOrdersAdjacency, usersOrdersEdges)"
  by (simp add: usersOrdersModel_def usersOrdersNodes_def usersOrdersAdjacency_def usersOrdersEdges_def placesEndpoints_def plain_eval edge_eval)

lemma usersOrders_components: "connectedComponents usersOrdersNodes usersOrdersAdjacency = [[0, 2, 1]]"
  by (simp add: usersOrdersNodes_def usersOrdersAdjacency_def plain_eval component_eval)

lemma usersOrders_root: "chooseRoot usersOrdersNodes [0, 2, 1] = Some 2"
  by (simp add: usersOrdersNodes_def plain_eval chooseRoot_def)

lemma usersOrders_depths:
  "assignDepths usersOrdersAdjacency (bn_id (usersOrdersNodes ! 2)) =
     [str ''places'' \<mapsto> 0, str ''users'' \<mapsto> 1, str ''orders'' \<mapsto> 1]"
  by (simp add: usersOrdersNodes_def usersOrdersAdjacency_def plain_eval assignDepths_def neighborsOf_def
      depthOf_def)

lemma usersOrders_levels:
  "buildLevels usersOrdersNodes [str ''places'' \<mapsto> 0, str ''users'' \<mapsto> 1, str ''orders'' \<mapsto> 1] [0, 2, 1] =
     [(1, [0, 1]), (0, [2])]"
  by (simp add: usersOrdersNodes_def plain_eval buildLevels_def pushLevel_def depthOf_def)

lemma usersOrders_orderedDepths: "orderedDepths [(1, [0, 1]), (0, [2::nat])] = [0, 1]"
  by (simp add: orderedDepths_def sortBy_def)

lemma usersOrders_x:
  "assignX usersOrdersNodes [(1, [0, 1]), (0, [2])] (H_MARGIN DEFAULT_CHEN_STYLE) [0, 1] =
     [0 \<mapsto> Num 0, 1 \<mapsto> Num 406.5]"
  by (simp add: usersOrdersNodes_def plain_eval assignX_def levelX_def levelNodesAt_def Math_max_of_def
      xAt_def orElse_def H_MARGIN_def Let_def)

lemma usersOrders_placed:
  "foldl (placeLevel codeUnitCompare [(1, [0, 1]), (0, [2])]
            [0 \<mapsto> Num 0, 1 \<mapsto> Num 406.5] (Num 0) (V_MARGIN DEFAULT_CHEN_STYLE))
     usersOrdersNodes [0, 1] = usersOrdersPlaced"
  by (simp add: usersOrdersNodes_def usersOrdersPlaced_def plain_eval placeLevel_def levelNodesAt_def
      sortLevel_def sortBy_def Math_min_of_def Math_max_of_def minus_jsnum_def xAt_def orElse_def
      V_MARGIN_def Let_def)

lemma usersOrders_offset:
  "Num 0 + (Math_max_of (map (\<lambda>node. bn_x (usersOrdersPlaced ! node)
                                   + envelopeX (usersOrdersPlaced ! node)) [0, 2, 1])
            - Math_min_of (map (\<lambda>node. bn_x (usersOrdersPlaced ! node)
                                     - envelopeX (usersOrdersPlaced ! node)) [0, 2, 1])
            + COMPONENT_GAP DEFAULT_CHEN_STYLE) = Num 873"
  by (simp add: usersOrdersPlaced_def plain_eval Math_min_of_def Math_max_of_def minus_jsnum_def
      COMPONENT_GAP_def H_MARGIN_def orElse_def)

lemma usersOrders_component_layout:
  "layoutComponent codeUnitCompare usersOrdersAdjacency DEFAULT_CHEN_STYLE (usersOrdersNodes, Num 0) [0, 2, 1] =
     (usersOrdersPlaced, Num 873)"
  by (rule layoutComponent_staged [OF usersOrders_root usersOrders_depths usersOrders_levels usersOrders_orderedDepths
        usersOrders_x usersOrders_placed usersOrders_offset])

lemma usersOrders_layout:
  "buildBackboneLayout codeUnitCompare usersOrdersModel DEFAULT_CHEN_STYLE Map.empty =
     (usersOrdersPlaced, indexById usersOrdersNodes, usersOrdersEdges)"
proof (rule buildBackboneLayout_staged [OF usersOrders_nodes usersOrders_edges usersOrders_components])
  show "foldl (layoutComponent codeUnitCompare usersOrdersAdjacency DEFAULT_CHEN_STYLE) (usersOrdersNodes, Num 0)
          [[0, 2, 1]] = (usersOrdersPlaced, Num 873)"
    by (simp only: foldl.simps usersOrders_component_layout)
  show "map applyOffset usersOrdersPlaced = usersOrdersPlaced"
    by (simp add: usersOrdersPlaced_def applyOffset_def plainNode_def DEFAULT_CHEN_NODE_STYLE_def)
qed

lemma usersOrders_xZeroGap:
  "assignX usersOrdersNodes [(1, [0, 1]), (0, [2])] (H_MARGIN zeroGapStyle) [0, 1] =
     [0 \<mapsto> Num 0, 1 \<mapsto> Num 466.5]"
  by (simp add: usersOrdersNodes_def plain_eval zeroGapStyle_def assignX_def levelX_def levelNodesAt_def Math_max_of_def
      xAt_def orElse_def H_MARGIN_def Let_def)

lemma usersOrders_placedZeroGap:
  "foldl (placeLevel codeUnitCompare [(1, [0, 1]), (0, [2])]
            [0 \<mapsto> Num 0, 1 \<mapsto> Num 466.5] (Num 0) (V_MARGIN zeroGapStyle))
     usersOrdersNodes [0, 1] = usersOrdersPlacedZeroGap"
  by (simp add: usersOrdersNodes_def usersOrdersPlacedZeroGap_def plain_eval zeroGapStyle_def placeLevel_def levelNodesAt_def
      sortLevel_def sortBy_def Math_min_of_def Math_max_of_def minus_jsnum_def xAt_def orElse_def
      V_MARGIN_def Let_def)

lemma usersOrders_offsetZeroGap:
  "Num 0 + (Math_max_of (map (\<lambda>node. bn_x (usersOrdersPlacedZeroGap ! node)
                                   + envelopeX (usersOrdersPlacedZeroGap ! node)) [0, 2, 1])
            - Math_min_of (map (\<lambda>node. bn_x (usersOrdersPlacedZeroGap ! node)
                                     - envelopeX (usersOrdersPlacedZeroGap ! node)) [0, 2, 1])
            + COMPONENT_GAP zeroGapStyle) = Num 1011"
  by (simp add: usersOrdersPlacedZeroGap_def plain_eval zeroGapStyle_def Math_min_of_def Math_max_of_def minus_jsnum_def
      COMPONENT_GAP_def H_MARGIN_def orElse_def)

lemma usersOrders_component_layoutZeroGap:
  "layoutComponent codeUnitCompare usersOrdersAdjacency zeroGapStyle (usersOrdersNodes, Num 0) [0, 2, 1] =
     (usersOrdersPlacedZeroGap, Num 1011)"
  by (rule layoutComponent_staged [OF usersOrders_root usersOrders_depths usersOrders_levels usersOrders_orderedDepths
        usersOrders_xZeroGap usersOrders_placedZeroGap usersOrders_offsetZeroGap])

lemma usersOrders_layoutZeroGap:
  "buildBackboneLayout codeUnitCompare usersOrdersModel zeroGapStyle Map.empty =
     (usersOrdersPlacedZeroGap, indexById usersOrdersNodes, usersOrdersEdges)"
proof (rule buildBackboneLayout_staged [OF usersOrders_nodesZeroGap usersOrders_edges usersOrders_components])
  show "foldl (layoutComponent codeUnitCompare usersOrdersAdjacency zeroGapStyle) (usersOrdersNodes, Num 0)
          [[0, 2, 1]] = (usersOrdersPlacedZeroGap, Num 1011)"
    by (simp only: foldl.simps usersOrders_component_layoutZeroGap)
  show "map applyOffset usersOrdersPlacedZeroGap = usersOrdersPlacedZeroGap"
    by (simp add: usersOrdersPlacedZeroGap_def applyOffset_def plainNode_def DEFAULT_CHEN_NODE_STYLE_def)
qed

subsection \<open>The model \<open>sameLevelModel\<close>\<close>













subsection \<open>The model \<open>selfReferenceModel\<close>\<close>

lemma selfReference_nodes: "buildNodes selfReferenceModel DEFAULT_CHEN_STYLE Map.empty = selfReferenceNodes"
  by (simp add: selfReferenceModel_def selfReferenceNodes_def plainNode_def DEFAULT_CHEN_STYLE_def node_eval
      size_eval)

lemma selfReference_edges: "buildEdges selfReferenceModel selfReferenceNodes = (selfReferenceAdjacency, selfReferenceEdges)"
  by (simp add: selfReferenceModel_def selfReferenceNodes_def selfReferenceAdjacency_def selfReferenceEdges_def plain_eval edge_eval)

lemma selfReference_components: "connectedComponents selfReferenceNodes selfReferenceAdjacency = [[0, 1]]"
  by (simp add: selfReferenceNodes_def selfReferenceAdjacency_def plain_eval component_eval)

lemma selfReference_root: "chooseRoot selfReferenceNodes [0, 1] = Some 1"
  by (simp add: selfReferenceNodes_def plain_eval chooseRoot_def)

lemma selfReference_depths:
  "assignDepths selfReferenceAdjacency (bn_id (selfReferenceNodes ! 1)) =
     [str ''manages'' \<mapsto> 0, str ''emp'' \<mapsto> 1]"
  by (simp add: selfReferenceNodes_def selfReferenceAdjacency_def plain_eval assignDepths_def neighborsOf_def
      depthOf_def)

lemma selfReference_levels:
  "buildLevels selfReferenceNodes [str ''manages'' \<mapsto> 0, str ''emp'' \<mapsto> 1] [0, 1] =
     [(1, [0]), (0, [1])]"
  by (simp add: selfReferenceNodes_def plain_eval buildLevels_def pushLevel_def depthOf_def)

lemma selfReference_orderedDepths: "orderedDepths [(1, [0]), (0, [1::nat])] = [0, 1]"
  by (simp add: orderedDepths_def sortBy_def)

lemma selfReference_x:
  "assignX selfReferenceNodes [(1, [0]), (0, [1])] (H_MARGIN DEFAULT_CHEN_STYLE) [0, 1] =
     [0 \<mapsto> Num 0, 1 \<mapsto> Num 412.5]"
  by (simp add: selfReferenceNodes_def plain_eval assignX_def levelX_def levelNodesAt_def Math_max_of_def
      xAt_def orElse_def H_MARGIN_def Let_def)

lemma selfReference_placed:
  "foldl (placeLevel codeUnitCompare [(1, [0]), (0, [1])]
            [0 \<mapsto> Num 0, 1 \<mapsto> Num 412.5] (Num 0) (V_MARGIN DEFAULT_CHEN_STYLE))
     selfReferenceNodes [0, 1] = selfReferencePlaced"
  by (simp add: selfReferenceNodes_def selfReferencePlaced_def plain_eval placeLevel_def levelNodesAt_def
      sortLevel_def sortBy_def Math_min_of_def Math_max_of_def minus_jsnum_def xAt_def orElse_def
      V_MARGIN_def Let_def)

lemma selfReference_offset:
  "Num 0 + (Math_max_of (map (\<lambda>node. bn_x (selfReferencePlaced ! node)
                                   + envelopeX (selfReferencePlaced ! node)) [0, 1])
            - Math_min_of (map (\<lambda>node. bn_x (selfReferencePlaced ! node)
                                     - envelopeX (selfReferencePlaced ! node)) [0, 1])
            + COMPONENT_GAP DEFAULT_CHEN_STYLE) = Num 885"
  by (simp add: selfReferencePlaced_def plain_eval Math_min_of_def Math_max_of_def minus_jsnum_def
      COMPONENT_GAP_def H_MARGIN_def orElse_def)

lemma selfReference_component_layout:
  "layoutComponent codeUnitCompare selfReferenceAdjacency DEFAULT_CHEN_STYLE (selfReferenceNodes, Num 0) [0, 1] =
     (selfReferencePlaced, Num 885)"
  by (rule layoutComponent_staged [OF selfReference_root selfReference_depths selfReference_levels selfReference_orderedDepths
        selfReference_x selfReference_placed selfReference_offset])

lemma selfReference_layout:
  "buildBackboneLayout codeUnitCompare selfReferenceModel DEFAULT_CHEN_STYLE Map.empty =
     (selfReferencePlaced, indexById selfReferenceNodes, selfReferenceEdges)"
proof (rule buildBackboneLayout_staged [OF selfReference_nodes selfReference_edges selfReference_components])
  show "foldl (layoutComponent codeUnitCompare selfReferenceAdjacency DEFAULT_CHEN_STYLE) (selfReferenceNodes, Num 0)
          [[0, 1]] = (selfReferencePlaced, Num 885)"
    by (simp only: foldl.simps selfReference_component_layout)
  show "map applyOffset selfReferencePlaced = selfReferencePlaced"
    by (simp add: selfReferencePlaced_def applyOffset_def plainNode_def DEFAULT_CHEN_NODE_STYLE_def)
qed

subsection \<open>The model \<open>danglingModel\<close>\<close>

lemma dangling_nodes: "buildNodes danglingModel DEFAULT_CHEN_STYLE Map.empty = danglingNodes"
  by (simp add: danglingModel_def danglingNodes_def plainNode_def DEFAULT_CHEN_STYLE_def node_eval
      size_eval)

lemma dangling_edges: "buildEdges danglingModel danglingNodes = (danglingAdjacency, danglingEdges)"
  by (simp add: danglingModel_def danglingNodes_def danglingAdjacency_def danglingEdges_def plain_eval edge_eval)

lemma dangling_components: "connectedComponents danglingNodes danglingAdjacency = [[0, 1]]"
  by (simp add: danglingNodes_def danglingAdjacency_def plain_eval component_eval)

lemma dangling_root: "chooseRoot danglingNodes [0, 1] = Some 0"
  by (simp add: danglingNodes_def plain_eval chooseRoot_def)

lemma dangling_depths:
  "assignDepths danglingAdjacency (bn_id (danglingNodes ! 0)) =
     [str ''r1'' \<mapsto> 0, str ''r2'' \<mapsto> 1]"
  by (simp add: danglingNodes_def danglingAdjacency_def plain_eval assignDepths_def neighborsOf_def
      depthOf_def)

lemma dangling_levels:
  "buildLevels danglingNodes [str ''r1'' \<mapsto> 0, str ''r2'' \<mapsto> 1] [0, 1] =
     [(0, [0]), (1, [1])]"
  by (simp add: danglingNodes_def plain_eval buildLevels_def pushLevel_def depthOf_def)

lemma dangling_orderedDepths: "orderedDepths [(0, [0]), (1, [1::nat])] = [0, 1]"
  by (simp add: orderedDepths_def sortBy_def)

lemma dangling_x:
  "assignX danglingNodes [(0, [0]), (1, [1])] (H_MARGIN DEFAULT_CHEN_STYLE) [0, 1] =
     [0 \<mapsto> Num 0, 1 \<mapsto> Num 404]"
  by (simp add: danglingNodes_def plain_eval assignX_def levelX_def levelNodesAt_def Math_max_of_def
      xAt_def orElse_def H_MARGIN_def Let_def)

lemma dangling_placed:
  "foldl (placeLevel codeUnitCompare [(0, [0]), (1, [1])]
            [0 \<mapsto> Num 0, 1 \<mapsto> Num 404] (Num 0) (V_MARGIN DEFAULT_CHEN_STYLE))
     danglingNodes [0, 1] = danglingPlaced"
  by (simp add: danglingNodes_def danglingPlaced_def plain_eval placeLevel_def levelNodesAt_def
      sortLevel_def sortBy_def Math_min_of_def Math_max_of_def minus_jsnum_def xAt_def orElse_def
      V_MARGIN_def Let_def)

lemma dangling_offset:
  "Num 0 + (Math_max_of (map (\<lambda>node. bn_x (danglingPlaced ! node)
                                   + envelopeX (danglingPlaced ! node)) [0, 1])
            - Math_min_of (map (\<lambda>node. bn_x (danglingPlaced ! node)
                                     - envelopeX (danglingPlaced ! node)) [0, 1])
            + COMPONENT_GAP DEFAULT_CHEN_STYLE) = Num 868"
  by (simp add: danglingPlaced_def plain_eval Math_min_of_def Math_max_of_def minus_jsnum_def
      COMPONENT_GAP_def H_MARGIN_def orElse_def)

lemma dangling_component_layout:
  "layoutComponent codeUnitCompare danglingAdjacency DEFAULT_CHEN_STYLE (danglingNodes, Num 0) [0, 1] =
     (danglingPlaced, Num 868)"
  by (rule layoutComponent_staged [OF dangling_root dangling_depths dangling_levels dangling_orderedDepths
        dangling_x dangling_placed dangling_offset])

lemma dangling_layout:
  "buildBackboneLayout codeUnitCompare danglingModel DEFAULT_CHEN_STYLE Map.empty =
     (danglingPlaced, indexById danglingNodes, danglingEdges)"
proof (rule buildBackboneLayout_staged [OF dangling_nodes dangling_edges dangling_components])
  show "foldl (layoutComponent codeUnitCompare danglingAdjacency DEFAULT_CHEN_STYLE) (danglingNodes, Num 0)
          [[0, 1]] = (danglingPlaced, Num 868)"
    by (simp only: foldl.simps dangling_component_layout)
  show "map applyOffset danglingPlaced = danglingPlaced"
    by (simp add: danglingPlaced_def applyOffset_def plainNode_def DEFAULT_CHEN_NODE_STYLE_def)
qed

subsection \<open>The scene of \<open>usersOrdersModel\<close>\<close>

lemma usersOrders_scene:
  "computeScene codeUnitCompare usersOrdersModel DEFAULT_CHEN_STYLE Map.empty =
      \<lparr>sc_nodes = map Backbone usersOrdersShifted,
       sc_nodeById = sceneNodeById (map Backbone usersOrdersShifted),
       sc_edges = usersOrdersEdges,
       cardinalityLabels = concat (map (cardinalityLabel
         (sceneNodeById (map Backbone usersOrdersShifted))) usersOrdersEdges),
       sc_width = Math_ceil (Num 466.5 - Num (- 62.5) + Num 90 * Num 2),
       sc_height = Math_ceil (Num 193.5 - Num (- 193.5) + Num 90 * Num 2)\<rparr>"
proof (rule computeScene_staged [OF usersOrders_layout])
  show "\<forall>node \<in> set usersOrdersPlaced. bn_attributes node = []"
    by (simp add: usersOrdersPlaced_def plainNode_sel)
  show "foldl growBounds (PInf, PInf, NInf, NInf) (map Backbone usersOrdersPlaced)
        = (Num (- 62.5), Num (- 193.5), Num 466.5, Num 193.5)"
    by (simp add: usersOrdersPlaced_def plainNode_sel minus_jsnum_def)
  show "map (shiftNode (Num 90 - Num (- 62.5)) (Num 90 - Num (- 193.5)))
          (map Backbone usersOrdersPlaced) = map Backbone usersOrdersShifted"
    by (simp add: usersOrdersPlaced_def usersOrdersShifted_def plainNode_def minus_jsnum_def)
qed

subsection \<open>Comparison by code units\<close>




subsection \<open>Sorting\<close>

lemma set_insertBy: "set (insertBy lt x ys) = insert x (set ys)"
  by (induction ys) auto

lemma set_sortBy: "set (sortBy lt xs) = set xs"
  by (induction xs) (simp_all add: sortBy_def set_insertBy)

lemma distinct_insertBy: "distinct (insertBy lt x ys) \<longleftrightarrow> x \<notin> set ys \<and> distinct ys"
  by (induction ys) (auto simp: set_insertBy)

lemma distinct_sortBy: "distinct (sortBy lt xs) \<longleftrightarrow> distinct xs"
  by (induction xs) (simp_all add: sortBy_def distinct_insertBy set_sortBy [unfolded sortBy_def])

lemma length_insertBy: "length (insertBy lt x ys) = Suc (length ys)"
  by (induction ys) auto

lemma length_sortBy: "length (sortBy lt xs) = length xs"
  by (induction xs) (simp_all add: sortBy_def length_insertBy)




subsection \<open>The gaps\<close>

lemma distinct_keys_pushLevel:
  "distinct (map fst levels) \<Longrightarrow> distinct (map fst (pushLevel d node levels))"
  by (simp add: pushLevel_def distinct_map_entry distinct_update)

lemma distinct_keys_foldl_pushLevel:
  "distinct (map fst levels)
   \<Longrightarrow> distinct (map fst (foldl (\<lambda>levels node. pushLevel (f node) node levels) levels component))"
  by (induction component arbitrary: levels) (simp_all add: distinct_keys_pushLevel)

lemma distinct_orderedDepths: "distinct (orderedDepths (buildLevels nodes depth component))"
  by (simp add: orderedDepths_def distinct_sortBy buildLevels_def distinct_keys_foldl_pushLevel)

lemma orElse_fallback: "a = Num 0 \<or> a = NaN \<Longrightarrow> orElse a b = b"
  by (auto simp: orElse_def)

lemma levelX_snd: "snd (levelX nodes levels hm st d) = Some d"
  by (cases st) (simp add: levelX_def Let_def split: option.splits)

lemma foldl_levelX_last:
  "snd (foldl (levelX nodes levels hm) st (ds @ [p])) = Some p"
  by (simp add: levelX_snd)

lemma foldl_levelX_other:
  "d \<notin> set ds \<Longrightarrow> fst (foldl (levelX nodes levels hm) st ds) d = fst st d"
proof (induction ds arbitrary: st)
  case Nil
  show ?case by simp
next
  case (Cons a ds)
  have "fst (levelX nodes levels hm st a) d = fst st d"
    using Cons.prems by (cases st) (auto simp: levelX_def Let_def split: option.splits)
  with Cons show ?case by simp
qed

lemma assignX_step:
  assumes "distinct (ds @ p # d # rest)"
  shows "assignX nodes levels hm (ds @ p # d # rest) d =
         Some (xAt (assignX nodes levels hm (ds @ p # d # rest)) p
               + Math_max_of (map (\<lambda>node. envelopeX (nodes ! node)) (levelNodesAt levels p))
               + Math_max_of (map (\<lambda>node. envelopeX (nodes ! node)) (levelNodesAt levels d))
               + hm)"
proof -
  let ?f = "levelX nodes levels hm"
  let ?s1 = "foldl ?f (Map.empty, None) (ds @ [p])"
  let ?s2 = "?f ?s1 d"
  have snd1: "snd ?s1 = Some p" by (rule foldl_levelX_last)
  have full: "foldl ?f (Map.empty, None) (ds @ p # d # rest) = foldl ?f ?s2 rest" by simp
  from assms have notin: "d \<notin> set rest" "p \<notin> set rest" "p \<noteq> d" by auto
  have xd: "assignX nodes levels hm (ds @ p # d # rest) d = fst ?s2 d"
    unfolding assignX_def full using notin(1) by (rule foldl_levelX_other)
  have xp: "assignX nodes levels hm (ds @ p # d # rest) p = fst ?s2 p"
    unfolding assignX_def full using notin(2) by (rule foldl_levelX_other)
  obtain m where s1: "?s1 = (m, Some p)" using snd1 by (cases ?s1) auto
  have s2d: "fst ?s2 d = Some (xAt m p
               + Math_max_of (map (\<lambda>node. envelopeX (nodes ! node)) (levelNodesAt levels p))
               + Math_max_of (map (\<lambda>node. envelopeX (nodes ! node)) (levelNodesAt levels d))
               + hm)"
    by (simp only: s1) (simp add: levelX_def Let_def)
  have s2p: "fst ?s2 p = m p"
    using notin(3) by (simp only: s1) (simp add: levelX_def Let_def)
  have "xAt (assignX nodes levels hm (ds @ p # d # rest)) p = xAt m p"
    unfolding xAt_def xp s2p by (rule refl)
  with xd s2d show ?thesis by simp
qed

subsection \<open>Envelopes\<close>

















subsection \<open>Updating the nodes of a level\<close>

lemma stackY_length: "length (stackY vMargin prev yCursor rest nodes) = length nodes"
  by (induction rest arbitrary: prev yCursor nodes) (simp_all add: Let_def)

lemma stackY_other:
  "j \<notin> set rest \<Longrightarrow> stackY vMargin prev yCursor rest nodes ! j = nodes ! j"
  by (induction rest arbitrary: prev yCursor nodes) (simp_all add: Let_def)

lemma foldl_update_other:
  "j \<notin> set xs \<Longrightarrow> foldl (\<lambda>ns node. ns[node := upd (ns ! node)]) ns xs ! j = ns ! j"
  by (induction xs arbitrary: ns) simp_all

lemma foldl_update_each:
  assumes "distinct xs" and "\<forall>i \<in> set xs. i < length ns" and "i \<in> set xs"
  shows "foldl (\<lambda>ns node. ns[node := upd (ns ! node)]) ns xs ! i = upd (ns ! i)"
  using assms
proof (induction xs arbitrary: ns)
  case Nil
  then show ?case by simp
next
  case (Cons x xs)
  show ?case
  proof (cases "i = x")
    case True
    with Cons.prems show ?thesis by (simp add: foldl_update_other)
  next
    case False
    with Cons.prems have "foldl (\<lambda>ns node. ns[node := upd (ns ! node)])
        (ns[x := upd (ns ! x)]) xs ! i = upd (ns[x := upd (ns ! x)] ! i)"
      by (intro Cons.IH) simp_all
    with False show ?thesis by simp
  qed
qed

subsection \<open>Two entities on one relationship\<close>

text \<open>
  C3 (as the code has it). For the entities \<open>users\<close> and \<open>orders\<close> on the relationship
  \<open>places\<close>, under the default style and without overrides: the root of the walk is the
  relationship, at depth 0, and both entities are at depth 1; they share the x 406.5, which
  is the x of \<open>places\<close> plus the two envelope half-widths 102 and 104.5 plus the horizontal
  gap 200, and are 329 apart vertically, their envelope half-heights plus the vertical gap
  125; the label of the connector of \<open>users\<close> reads 1 and that of \<open>orders\<close> reads N.
\<close>

theorem users_orders_layout:
  "buildNodes usersOrdersModel DEFAULT_CHEN_STYLE Map.empty = usersOrdersNodes
   \<and> buildEdges usersOrdersModel usersOrdersNodes = (usersOrdersAdjacency, usersOrdersEdges)
   \<and> connectedComponents usersOrdersNodes usersOrdersAdjacency = [[0, 2, 1]]
   \<and> chooseRoot usersOrdersNodes [0, 2, 1] = Some 2
   \<and> assignDepths usersOrdersAdjacency (bn_id (usersOrdersNodes ! 2))
       = [str ''places'' \<mapsto> 0, str ''users'' \<mapsto> 1, str ''orders'' \<mapsto> 1]
   \<and> map (\<lambda>node. (bn_id node, bn_x node, bn_y node, envelopeX node, envelopeY node))
         (fst (buildBackboneLayout codeUnitCompare usersOrdersModel DEFAULT_CHEN_STYLE Map.empty))
       = [(str ''users'', Num 406.5, Num 164.5, Num 102, Num 102),
          (str ''orders'', Num 406.5, Num (- 164.5), Num 102, Num 102),
          (str ''places'', Num 0, Num 0, Num 104.5, Num 104.5)]
   \<and> Num 406.5 - Num 0 = Num 102 + Num 104.5 + hGap DEFAULT_CHEN_STYLE
   \<and> Num 164.5 - Num (- 164.5) = Num 102 + Num 102 + vGap DEFAULT_CHEN_STYLE
   \<and> snd (snd (buildBackboneLayout codeUnitCompare usersOrdersModel DEFAULT_CHEN_STYLE Map.empty))
       = [EntityRelationship (str ''users'') (str ''places'') (str ''1''),
          EntityRelationship (str ''orders'') (str ''places'') (str ''N'')]
   \<and> cardinalityLabels (computeScene codeUnitCompare usersOrdersModel DEFAULT_CHEN_STYLE Map.empty)
       = [\<lparr>cl_text = str ''1'', cl_x = Num 306.97, cl_y = Num 346.01\<rparr>,
          \<lparr>cl_text = str ''N'', cl_x = Num 306.97, cl_y = Num 220.99\<rparr>]
   \<and> map (\<lambda>node. (nodeId node, nodeX node, nodeY node))
         (sc_nodes (computeScene codeUnitCompare usersOrdersModel DEFAULT_CHEN_STYLE Map.empty))
       = [(str ''users'', Num 559, Num 448), (str ''orders'', Num 559, Num 119),
          (str ''places'', Num 152.5, Num 283.5)]"
proof -
  have scene: "computeScene codeUnitCompare usersOrdersModel DEFAULT_CHEN_STYLE Map.empty =
      \<lparr>sc_nodes = map Backbone usersOrdersShifted,
       sc_nodeById = sceneNodeById (map Backbone usersOrdersShifted),
       sc_edges = usersOrdersEdges,
       cardinalityLabels = concat (map (cardinalityLabel
         (sceneNodeById (map Backbone usersOrdersShifted))) usersOrdersEdges),
       sc_width = Math_ceil (Num 466.5 - Num (- 62.5) + Num 90 * Num 2),
       sc_height = Math_ceil (Num 193.5 - Num (- 193.5) + Num 90 * Num 2)\<rparr>"
    by (rule usersOrders_scene)
  show ?thesis
    apply (intro conjI)
              apply (rule usersOrders_nodes)
             apply (rule usersOrders_edges)
            apply (rule usersOrders_components)
           apply (rule usersOrders_root)
          apply (rule usersOrders_depths)
         apply (simp add: usersOrders_layout usersOrdersPlaced_def plainNode_sel)
        apply (simp add: DEFAULT_CHEN_STYLE_def minus_jsnum_def)
       apply (simp add: DEFAULT_CHEN_STYLE_def minus_jsnum_def)
      apply (simp add: usersOrders_layout usersOrdersEdges_def)
     apply (simp add: scene usersOrdersEdges_def usersOrdersShifted_def cardinalityLabel_def
      sceneNodeById_def plainNode_sel str_def minus_jsnum_def)
    apply (simp add: scene usersOrdersShifted_def plainNode_sel)
    done
qed

text \<open>
  Both entities are at depth 1 and at the same x: their distance in x is 0, less than
  102 + 102 + 200.
\<close>

theorem users_orders_depths_counterexample:
  "chooseRoot (buildNodes usersOrdersModel DEFAULT_CHEN_STYLE Map.empty) [0, 2, 1] = Some 2
   \<and> map (assignDepths (fst (buildEdges usersOrdersModel
             (buildNodes usersOrdersModel DEFAULT_CHEN_STYLE Map.empty))) (str ''places''))
        [str ''users'', str ''orders'', str ''places''] = [Some 1, Some 1, Some 0]
   \<and> map bn_id (fst (buildBackboneLayout codeUnitCompare usersOrdersModel DEFAULT_CHEN_STYLE
        Map.empty)) = [str ''users'', str ''orders'', str ''places'']
   \<and> map bn_x (fst (buildBackboneLayout codeUnitCompare usersOrdersModel DEFAULT_CHEN_STYLE
        Map.empty)) = [Num 406.5, Num 406.5, Num 0]
   \<and> map envelopeX (fst (buildBackboneLayout codeUnitCompare usersOrdersModel
        DEFAULT_CHEN_STYLE Map.empty)) = [Num 102, Num 102, Num 104.5]
   \<and> \<not> jge (Math_abs (Num 406.5 - Num 406.5)) (Num 102 + Num 102 + hGap DEFAULT_CHEN_STYLE)"
proof -
  have "bn_id (usersOrdersNodes ! 2) = str ''places''"
    by (simp add: usersOrdersNodes_def plainNode_sel)
  with usersOrders_depths
  have "assignDepths usersOrdersAdjacency (str ''places'')
        = [str ''places'' \<mapsto> 0, str ''users'' \<mapsto> 1, str ''orders'' \<mapsto> 1]"
    by simp
  then have depths: "map (assignDepths (fst (buildEdges usersOrdersModel
             (buildNodes usersOrdersModel DEFAULT_CHEN_STYLE Map.empty))) (str ''places''))
        [str ''users'', str ''orders'', str ''places''] = [Some 1, Some 1, Some 0]"
    by (simp add: usersOrders_nodes usersOrders_edges str_def)
  have root: "chooseRoot (buildNodes usersOrdersModel DEFAULT_CHEN_STYLE Map.empty) [0, 2, 1]
      = Some 2"
    by (simp only: usersOrders_nodes usersOrders_root)
  have ids: "map bn_id (fst (buildBackboneLayout codeUnitCompare usersOrdersModel
        DEFAULT_CHEN_STYLE Map.empty)) = [str ''users'', str ''orders'', str ''places'']"
    and xs: "map bn_x (fst (buildBackboneLayout codeUnitCompare usersOrdersModel
        DEFAULT_CHEN_STYLE Map.empty)) = [Num 406.5, Num 406.5, Num 0]"
    and es: "map envelopeX (fst (buildBackboneLayout codeUnitCompare usersOrdersModel
        DEFAULT_CHEN_STYLE Map.empty)) = [Num 102, Num 102, Num 104.5]"
    by (simp_all add: usersOrders_layout usersOrdersPlaced_def plainNode_sel)
  have far: "\<not> jge (Math_abs (Num 406.5 - Num 406.5))
      (Num 102 + Num 102 + hGap DEFAULT_CHEN_STYLE)"
    by (simp add: DEFAULT_CHEN_STYLE_def minus_jsnum_def jge_def)
  from root depths ids xs es far show ?thesis by (intro conjI)
qed

subsection \<open>The layout only moves the nodes\<close>

lemma map_update_same:
  assumes "\<And>x. f (g x) = f x"
  shows "map f (xs[i := g (xs ! i)]) = map f xs"
proof (cases "i < length xs")
  case True
  have "map f (xs[i := g (xs ! i)]) = (map f xs)[i := f (xs ! i)]"
    by (simp add: map_update assms)
  also have "\<dots> = map f xs" using True by (simp add: list_update_same_conv)
  finally show ?thesis .
next
  case False
  then show ?thesis by (simp add: list_update_beyond)
qed

lemma unplaced_stackY: "map unplaced (stackY vMargin prev yCursor rest nodes) = map unplaced nodes"
proof (induction rest arbitrary: prev yCursor nodes)
  case Nil
  show ?case by simp
next
  case (Cons c rest)
  have "map unplaced (nodes[c := (nodes ! c)\<lparr>bn_y := v\<rparr>]) = map unplaced nodes" for v
    by (rule map_update_same) (simp add: unplaced_def)
  with Cons show ?case by (simp add: Let_def)
qed

lemma unplaced_foldl_update:
  "map unplaced (foldl (\<lambda>ns node. ns[node := (ns ! node)\<lparr>bn_x := x, bn_y := bn_y (ns ! node) - c\<rparr>])
     nodes level) = map unplaced nodes"
proof (induction level arbitrary: nodes)
  case Nil
  show ?case by simp
next
  case (Cons a level)
  have "map unplaced (nodes[a := (nodes ! a)\<lparr>bn_x := x, bn_y := bn_y (nodes ! a) - c\<rparr>])
        = map unplaced nodes"
    by (rule map_update_same [where g = "\<lambda>n. n\<lparr>bn_x := x, bn_y := bn_y n - c\<rparr>"])
       (simp add: unplaced_def)
  with Cons show ?case by simp
qed

lemma unplaced_placeLevel:
  "map unplaced (placeLevel cmp levels xByDepth offset vMargin nodes d) = map unplaced nodes"
proof (cases "sortLevel cmp nodes (levelNodesAt levels d)")
  case Nil
  then show ?thesis by (simp add: placeLevel_def)
next
  case (Cons first rest)
  have "map unplaced (nodes[first := (nodes ! first)\<lparr>bn_y := Num 0\<rparr>]) = map unplaced nodes"
    by (rule map_update_same) (simp add: unplaced_def)
  then show ?thesis
    unfolding placeLevel_def Cons list.case Let_def
    by (simp only: unplaced_foldl_update unplaced_stackY)
qed

lemma unplaced_foldl_placeLevel:
  "map unplaced (foldl (placeLevel cmp levels xByDepth offset vMargin) nodes depths)
   = map unplaced nodes"
  by (induction depths arbitrary: nodes) (simp_all add: unplaced_placeLevel)

lemma unplaced_layoutComponent:
  "map unplaced (fst (layoutComponent cmp adj style (nodes, offset) component))
   = map unplaced nodes"
  by (simp add: layoutComponent_def Let_def unplaced_foldl_placeLevel split: option.splits)

lemma unplaced_foldl_layoutComponent:
  "map unplaced (fst (foldl (layoutComponent cmp adj style) (nodes, offset) components))
   = map unplaced nodes"
proof (induction components arbitrary: nodes offset)
  case Nil
  show ?case by simp
next
  case (Cons c components)
  obtain nodes' offset' where step: "layoutComponent cmp adj style (nodes, offset) c = (nodes', offset')"
    by (cases "layoutComponent cmp adj style (nodes, offset) c")
  then have "map unplaced nodes' = map unplaced nodes"
    using unplaced_layoutComponent [of cmp adj style nodes offset c] by simp
  with Cons [of nodes' offset'] step show ?case by simp
qed

lemma unplaced_applyOffset: "unplaced (applyOffset node) = unplaced node"
  by (simp add: unplaced_def applyOffset_def)

lemma unplaced_makeEntityNode: "unplaced (makeEntityNode style overrides e) = makeEntityNode style overrides e"
  by (simp add: unplaced_def makeEntityNode_def assignEnvelope_def Let_def split: prod.splits)

lemma unplaced_makeRelationshipNode:
  "unplaced (makeRelationshipNode style overrides r) = makeRelationshipNode style overrides r"
  by (simp add: unplaced_def makeRelationshipNode_def assignEnvelope_def Let_def split: prod.splits)

lemma unplaced_buildNodes: "map unplaced (buildNodes model style overrides) = buildNodes model style overrides"
  by (simp add: buildNodes_def unplaced_makeEntityNode unplaced_makeRelationshipNode)

lemma layout_moves_only:
  "map unplaced (fst (buildBackboneLayout cmp model style overrides)) = buildNodes model style overrides"
proof -
  obtain adj edges where e: "buildEdges model (buildNodes model style overrides) = (adj, edges)"
    by (cases "buildEdges model (buildNodes model style overrides)")
  have "map unplaced (fst (buildBackboneLayout cmp model style overrides))
        = map unplaced (fst (foldl (layoutComponent cmp adj style)
            (buildNodes model style overrides, Num 0)
            (connectedComponents (buildNodes model style overrides) adj)))"
    by (simp add: buildBackboneLayout_def Let_def e unplaced_applyOffset comp_def)
  also have "\<dots> = map unplaced (buildNodes model style overrides)"
    by (rule unplaced_foldl_layoutComponent)
  finally show ?thesis by (simp add: unplaced_buildNodes)
qed

subsection \<open>The index of a node\<close>

lemma indexById_Some:
  assumes "indexById nodes k = Some i"
  shows "i < length nodes \<and> bn_id (nodes ! i) = k"
proof -
  from assms have "(k, i) \<in> set (zip (map bn_id nodes) [0..<length nodes])"
    unfolding indexById_def by (auto dest: map_of_SomeD)
  then obtain j where "j < length nodes" "map bn_id nodes ! j = k" "[0..<length nodes] ! j = i"
    by (auto simp add: in_set_conv_nth)
  then show ?thesis by auto
qed

lemma indexById_None: "indexById nodes k = None \<longleftrightarrow> k \<notin> bn_id ` set nodes"
proof -
  have "map fst (zip (map bn_id nodes) [0..<length nodes]) = map bn_id nodes"
    by (rule map_fst_zip) simp
  then have "set (map fst (zip (map bn_id nodes) [0..<length nodes])) = set (map bn_id nodes)"
    by (rule arg_cong)
  then have "fst ` set (zip (map bn_id nodes) [0..<length nodes]) = bn_id ` set nodes"
    by (simp only: set_map)
  then have "fst ` set (rev (zip (map bn_id nodes) [0..<length nodes])) = bn_id ` set nodes"
    by (simp only: set_rev)
  then show ?thesis by (simp only: indexById_def map_of_eq_None_iff)
qed

subsection \<open>The components are disjoint lists of nodes\<close>

lemma componentWalk_ids:
  assumes "distinct (map (\<lambda>i. bn_id (nodes ! i)) component @ queue)"
      and "set (map (\<lambda>i. bn_id (nodes ! i)) component) \<union> set queue \<subseteq> visited - old"
      and "\<forall>i \<in> set component. i < length nodes"
      and "old \<subseteq> visited"
  shows "distinct (map (\<lambda>i. bn_id (nodes ! i))
           (snd (componentWalk adj (indexById nodes) visited queue component)))
       \<and> set (map (\<lambda>i. bn_id (nodes ! i))
           (snd (componentWalk adj (indexById nodes) visited queue component)))
         \<subseteq> fst (componentWalk adj (indexById nodes) visited queue component) - old
       \<and> visited \<subseteq> fst (componentWalk adj (indexById nodes) visited queue component)
       \<and> (\<forall>i \<in> set (snd (componentWalk adj (indexById nodes) visited queue component)).
            i < length nodes)"
  using assms
proof (induction adj "indexById nodes" visited queue component rule: componentWalk.induct)
  case (1 adj visited component)
  then show ?case by auto
next
  case (2 adj visited ident queue component)
  show ?case
  proof (cases "ident = []")
    case True
    from 2(3-6) have "distinct (map (\<lambda>i. bn_id (nodes ! i)) component @ queue)"
      "set (map (\<lambda>i. bn_id (nodes ! i)) component) \<union> set queue \<subseteq> visited - old"
      by auto
    from 2(1) [OF True this 2(5,6)] True show ?thesis by simp
  next
    case False
    obtain new where new: "visitNeighbors (neighborsOf adj ident) (visited, queue)
        = (visited \<union> set new, queue @ new)"
      "distinct new" "set new \<inter> visited = {}"
      using visitNeighbors_new by blast
    define component' where "component' = (case indexById nodes ident of
        None \<Rightarrow> component | Some current \<Rightarrow> component @ [current])"
    have ids: "set (map (\<lambda>i. bn_id (nodes ! i)) component')
               \<subseteq> insert ident (set (map (\<lambda>i. bn_id (nodes ! i)) component))"
      and len: "\<forall>i \<in> set component'. i < length nodes"
      and dist: "distinct (map (\<lambda>i. bn_id (nodes ! i)) component' @ queue @ new)"
    proof -
      show "set (map (\<lambda>i. bn_id (nodes ! i)) component')
               \<subseteq> insert ident (set (map (\<lambda>i. bn_id (nodes ! i)) component))"
        by (auto simp add: component'_def indexById_Some split: option.splits)
      show "\<forall>i \<in> set component'. i < length nodes"
        using 2(5) by (auto simp add: component'_def indexById_Some split: option.splits)
      have "distinct (map (\<lambda>i. bn_id (nodes ! i)) component @ [ident] @ queue @ new)"
        using 2(3,4) new(2,3) by auto
      then show "distinct (map (\<lambda>i. bn_id (nodes ! i)) component' @ queue @ new)"
        by (auto simp add: component'_def indexById_Some split: option.splits)
    qed
    have sub: "set (map (\<lambda>i. bn_id (nodes ! i)) component') \<union> set (queue @ new)
               \<subseteq> (visited \<union> set new) - old"
    proof -
      from 2(4) have "insert ident (set (map (\<lambda>i. bn_id (nodes ! i)) component)) \<subseteq> visited - old"
        "set queue \<subseteq> visited - old" by simp_all
      with ids have "set (map (\<lambda>i. bn_id (nodes ! i)) component') \<subseteq> visited - old" by blast
      moreover from new(3) 2(6) have "set new \<inter> old = {}" by blast
      ultimately show ?thesis using \<open>set queue \<subseteq> visited - old\<close>
        by (simp only: set_append) blast
    qed
    have old: "old \<subseteq> visited \<union> set new" using 2(6) by auto
    note ih = 2(2) [OF False new(1) [symmetric], folded component'_def]
    from dist have dist': "distinct (map (\<lambda>i. bn_id (nodes ! i)) component' @ (queue @ new))"
      by simp
    note result = ih [OF dist' sub len old]
    from result False new(1) show ?thesis by (simp add: component'_def)
  qed
qed

lemma componentStep_ids:
  assumes "distinct (map (\<lambda>i. bn_id (nodes ! i)) (concat components))"
      and "set (map (\<lambda>i. bn_id (nodes ! i)) (concat components)) \<subseteq> visited"
      and "\<forall>i \<in> set (concat components). i < length nodes"
  shows "distinct (map (\<lambda>i. bn_id (nodes ! i))
           (concat (snd (componentStep adj (indexById nodes) (visited, components) node))))
       \<and> set (map (\<lambda>i. bn_id (nodes ! i))
           (concat (snd (componentStep adj (indexById nodes) (visited, components) node))))
         \<subseteq> fst (componentStep adj (indexById nodes) (visited, components) node)
       \<and> (\<forall>i \<in> set (concat (snd (componentStep adj (indexById nodes) (visited, components)
             node))). i < length nodes)"
proof (cases "bn_id node \<in> visited")
  case True
  with assms show ?thesis by (simp add: componentStep_def)
next
  case False
  let ?walk = "componentWalk adj (indexById nodes) (insert (bn_id node) visited) [bn_id node] []"
  have "distinct (map (\<lambda>i. bn_id (nodes ! i)) [] @ [bn_id node])"
    "set (map (\<lambda>i. bn_id (nodes ! i)) []) \<union> set [bn_id node]
       \<subseteq> insert (bn_id node) visited - visited"
    "\<forall>i \<in> set []. i < length nodes" "visited \<subseteq> insert (bn_id node) visited"
    using False by auto
  from componentWalk_ids [OF this, of adj]
  have walk: "distinct (map (\<lambda>i. bn_id (nodes ! i)) (snd ?walk))"
    "set (map (\<lambda>i. bn_id (nodes ! i)) (snd ?walk)) \<subseteq> fst ?walk - visited"
    "insert (bn_id node) visited \<subseteq> fst ?walk"
    "\<forall>i \<in> set (snd ?walk). i < length nodes"
    by blast+
  have step: "componentStep adj (indexById nodes) (visited, components) node
              = (fst ?walk, components @ [snd ?walk])"
    using False by (simp add: componentStep_def split: prod.splits)
  have "distinct (map (\<lambda>i. bn_id (nodes ! i)) (concat components)
                  @ map (\<lambda>i. bn_id (nodes ! i)) (snd ?walk))"
    using assms(1,2) walk(1,2) by (simp only: distinct_append) blast
  moreover have "set (map (\<lambda>i. bn_id (nodes ! i)) (concat components)) \<subseteq> fst ?walk"
    using assms(2) walk(3) by blast
  ultimately show ?thesis
    using walk(2,4) assms(3) unfolding step by (simp only: fst_conv snd_conv concat_append
        map_append concat.simps append_Nil2 set_append) blast
qed

lemma foldl_componentStep_ids:
  assumes "distinct (map (\<lambda>i. bn_id (nodes ! i)) (concat components))"
      and "set (map (\<lambda>i. bn_id (nodes ! i)) (concat components)) \<subseteq> visited"
      and "\<forall>i \<in> set (concat components). i < length nodes"
  shows "distinct (map (\<lambda>i. bn_id (nodes ! i))
           (concat (snd (foldl (componentStep adj (indexById nodes)) (visited, components) ns))))
       \<and> (\<forall>i \<in> set (concat (snd (foldl (componentStep adj (indexById nodes))
             (visited, components) ns))). i < length nodes)"
  using assms
proof (induction ns arbitrary: visited components)
  case Nil
  then show ?case by simp
next
  case (Cons node ns)
  obtain visited' components' where
    step: "componentStep adj (indexById nodes) (visited, components) node
           = (visited', components')"
    by (cases "componentStep adj (indexById nodes) (visited, components) node")
  from componentStep_ids [OF Cons.prems, of adj node]
  have "distinct (map (\<lambda>i. bn_id (nodes ! i)) (concat components'))"
    "set (map (\<lambda>i. bn_id (nodes ! i)) (concat components')) \<subseteq> visited'"
    "\<forall>i \<in> set (concat components'). i < length nodes"
    unfolding step by simp_all
  from Cons.IH [OF this] show ?case by (simp add: step)
qed

lemma connectedComponents_distinct:
  "distinct (concat (connectedComponents nodes adj))"
  "\<forall>i \<in> set (concat (connectedComponents nodes adj)). i < length nodes"
proof -
  have "distinct (map (\<lambda>i. bn_id (nodes ! i)) (concat (connectedComponents nodes adj)))
      \<and> (\<forall>i \<in> set (concat (connectedComponents nodes adj)). i < length nodes)"
    unfolding connectedComponents_def
    by (rule foldl_componentStep_ids) simp_all
  then show "distinct (concat (connectedComponents nodes adj))"
    "\<forall>i \<in> set (concat (connectedComponents nodes adj)). i < length nodes"
    by (auto dest: distinct_map [THEN iffD1])
qed

subsection \<open>The levels of a component\<close>

lemma levelNodesAt_pushLevel:
  "levelNodesAt (pushLevel d' node levels) d
   = (if d = d' then levelNodesAt levels d @ [node] else levelNodesAt levels d)"
  by (simp add: levelNodesAt_def pushLevel_def map_of_map_entry update_conv'
      split: option.splits)

lemma levelNodesAt_foldl_pushLevel:
  "levelNodesAt (foldl (\<lambda>levels node. pushLevel (f node) node levels) levels component) d
   = levelNodesAt levels d @ filter (\<lambda>node. f node = d) component"
  by (induction component arbitrary: levels) (simp_all add: levelNodesAt_pushLevel)

lemma levelNodesAt_buildLevels:
  "levelNodesAt (buildLevels nodes depth component) d
   = filter (\<lambda>node. depthOf depth (bn_id (nodes ! node)) = d) component"
  by (simp add: buildLevels_def levelNodesAt_foldl_pushLevel) (simp add: levelNodesAt_def)

lemma nth_beyond_same:
  "length a = length b \<Longrightarrow> length a \<le> i \<Longrightarrow> a ! i = b ! i"
proof (induction a arbitrary: b i)
  case Nil
  then show ?case by simp
next
  case (Cons x xs)
  from Cons.prems(1) obtain y ys where b: "b = y # ys" "length xs = length ys"
    by (cases b) auto
  from Cons.prems(2) obtain k where i: "i = Suc k" "length xs \<le> k"
    by (cases i) auto
  have "xs ! k = ys ! k" using b(2) i(2) by (rule Cons.IH)
  then show ?case by (simp add: b(1) i(1))
qed

lemma unplaced_nth:
  assumes "map unplaced a = map unplaced b"
  shows "unplaced (a ! i) = unplaced (b ! i)"
proof (cases "i < length a")
  case True
  from assms have "length a = length b" by (rule map_eq_imp_length_eq)
  with True have "i < length b" by simp
  from arg_cong [OF assms, of "\<lambda>xs. xs ! i"] True this show ?thesis by simp
next
  case False
  from assms have "length a = length b" by (rule map_eq_imp_length_eq)
  with False have "a ! i = b ! i" by (intro nth_beyond_same) simp_all
  then show ?thesis by simp
qed

lemma unplaced_fields:
  assumes "map unplaced a = map unplaced b"
  shows "bn_id (a ! i) = bn_id (b ! i)" "bn_type (a ! i) = bn_type (b ! i)"
    "envelopeY (a ! i) = envelopeY (b ! i)" "nodeStyle (a ! i) = nodeStyle (b ! i)"
proof -
  note eq = unplaced_nth [OF assms, of i]
  show "bn_id (a ! i) = bn_id (b ! i)"
    using arg_cong [OF eq, of bn_id] by (simp add: unplaced_def)
  show "bn_type (a ! i) = bn_type (b ! i)"
    using arg_cong [OF eq, of bn_type] by (simp add: unplaced_def)
  show "envelopeY (a ! i) = envelopeY (b ! i)"
    using arg_cong [OF eq, of envelopeY] by (simp add: unplaced_def)
  show "nodeStyle (a ! i) = nodeStyle (b ! i)"
    using arg_cong [OF eq, of nodeStyle] by (simp add: unplaced_def)
qed

subsection \<open>Stacking a sorted level\<close>


lemma levelCursors_cong:
  assumes "\<And>i. envelopeY (a ! i) = envelopeY (b ! i)"
  shows "levelCursors vMargin a prev y rest = levelCursors vMargin b prev y rest"
  by (induction rest arbitrary: prev y) (simp_all add: assms)

lemma envelopeY_update:
  "envelopeY (nodes[c := (nodes ! c)\<lparr>bn_y := v\<rparr>] ! i) = envelopeY (nodes ! i)"
proof (cases "c < length nodes")
  case True
  then show ?thesis by (cases "i = c") simp_all
next
  case False
  then have "nodes[c := (nodes ! c)\<lparr>bn_y := v\<rparr>] = nodes"
    by (intro list_update_beyond) simp
  then show ?thesis by simp
qed

lemma stackY_cursors:
  assumes "distinct rest" and "\<forall>i \<in> set rest. i < length nodes"
  shows "map (\<lambda>i. bn_y (stackY vMargin prev y rest nodes ! i)) rest
         = levelCursors vMargin nodes prev y rest"
  using assms
proof (induction rest arbitrary: prev y nodes)
  case Nil
  show ?case by simp
next
  case (Cons c rest)
  define y' where "y' = y + (envelopeY (nodes ! prev) + envelopeY (nodes ! c) + vMargin)"
  define nodes' where "nodes' = nodes[c := (nodes ! c)\<lparr>bn_y := y'\<rparr>]"
  from Cons.prems have c: "c \<notin> set rest" "c < length nodes" "distinct rest"
    and len: "\<forall>i \<in> set rest. i < length nodes'"
    by (simp_all add: nodes'_def)
  have step: "stackY vMargin prev y (c # rest) nodes = stackY vMargin c y' rest nodes'"
    by (simp add: Let_def y'_def nodes'_def)
  have "bn_y (stackY vMargin c y' rest nodes' ! c) = y'"
    using c by (simp add: stackY_other nodes'_def)
  moreover have "map (\<lambda>i. bn_y (stackY vMargin c y' rest nodes' ! i)) rest
                 = levelCursors vMargin nodes c y' rest"
    using Cons.IH [OF c(3) len, of c y']
      levelCursors_cong [of nodes' nodes vMargin c y' rest]
    by (simp add: nodes'_def envelopeY_update)
  ultimately show ?case
    unfolding step by (simp add: y'_def)
qed

lemma map_zip_self: "map h (zip xs (map g xs)) = map (\<lambda>x. h (x, g x)) xs"
  by (induction xs) simp_all

lemma in_zip_self: "(x, y) \<in> set (zip xs (map g xs)) \<Longrightarrow> x \<in> set xs \<and> y = g x"
  by (induction xs) auto

lemma placeLevel_other:
  assumes "j \<notin> set (levelNodesAt levels d)"
  shows "placeLevel cmp levels xByDepth offset vMargin nodes d ! j = nodes ! j"
proof (cases "sortLevel cmp nodes (levelNodesAt levels d)")
  case Nil
  then show ?thesis by (simp add: placeLevel_def)
next
  case (Cons first rest)
  have "set (first # rest) = set (levelNodesAt levels d)"
    unfolding Cons [symmetric] by (simp add: sortLevel_def set_sortBy)
  with assms have j: "j \<noteq> first" "j \<notin> set rest" "j \<notin> set (first # rest)" by auto
  define c where "c = jdiv
      (Math_min_of (map (\<lambda>node.
           bn_y (stackY vMargin first (Num 0) rest
                   (nodes[first := (nodes ! first)\<lparr>bn_y := Num 0\<rparr>]) ! node)
           - envelopeY (stackY vMargin first (Num 0) rest
                   (nodes[first := (nodes ! first)\<lparr>bn_y := Num 0\<rparr>]) ! node)) (first # rest))
       + Math_max_of (map (\<lambda>node.
           bn_y (stackY vMargin first (Num 0) rest
                   (nodes[first := (nodes ! first)\<lparr>bn_y := Num 0\<rparr>]) ! node)
           + envelopeY (stackY vMargin first (Num 0) rest
                   (nodes[first := (nodes ! first)\<lparr>bn_y := Num 0\<rparr>]) ! node)) (first # rest)))
      (Num 2)"
  define upd :: "BackboneNode \<Rightarrow> BackboneNode" where
    "upd = (\<lambda>n. n\<lparr>bn_x := offset + xAt xByDepth d, bn_y := bn_y n - c\<rparr>)"
  have "placeLevel cmp levels xByDepth offset vMargin nodes d
      = foldl (\<lambda>ns node. ns[node := upd (ns ! node)])
          (stackY vMargin first (Num 0) rest (nodes[first := (nodes ! first)\<lparr>bn_y := Num 0\<rparr>]))
          (first # rest)"
    unfolding placeLevel_def Cons list.case Let_def c_def [symmetric]
    by (simp only: upd_def)
  then show ?thesis
    using j by (simp only: foldl_update_other [OF j(3)] stackY_other [OF j(2)]) simp
qed

lemma placeLevel_y:
  assumes dist: "distinct (levelNodesAt levels d)"
      and len: "\<forall>i \<in> set (levelNodesAt levels d). i < length nodes"
      and iy: "(i, y) \<in> set (stackedLevel vMargin nodes
                  (sortLevel cmp nodes (levelNodesAt levels d)))"
  shows "bn_y (placeLevel cmp levels xByDepth offset vMargin nodes d ! i)
         = y - levelCentre nodes (stackedLevel vMargin nodes
                 (sortLevel cmp nodes (levelNodesAt levels d)))"
proof -
  let ?sorted = "sortLevel cmp nodes (levelNodesAt levels d)"
  obtain first rest where fr: "?sorted = first # rest"
  proof (cases ?sorted)
    case Nil
    with iy show ?thesis by (simp add: stackedLevel_def)
  next
    case (Cons x xs)
    then show ?thesis by (rule that)
  qed
  have set_eq: "set (first # rest) = set (levelNodesAt levels d)"
    and dist': "distinct (first # rest)"
    using fr [symmetric] dist by (simp_all add: sortLevel_def set_sortBy distinct_sortBy)
  define nodes1 where "nodes1 = nodes[first := (nodes ! first)\<lparr>bn_y := Num 0\<rparr>]"
  define stacked where "stacked = stackY vMargin first (Num 0) rest nodes1"
  have first: "first < length nodes" "first \<notin> set rest" "distinct rest"
    and rest: "\<forall>i \<in> set rest. i < length nodes1"
    using set_eq len dist' by (auto simp add: nodes1_def)
  have env1: "envelopeY (nodes1 ! j) = envelopeY (nodes ! j)" for j
    unfolding nodes1_def by (rule envelopeY_update)
  have "map unplaced stacked = map unplaced nodes1"
    unfolding stacked_def by (rule unplaced_stackY)
  then have env: "envelopeY (stacked ! j) = envelopeY (nodes ! j)" for j
    using unplaced_fields(3) [of stacked nodes1 j] env1 by simp
  have "bn_y (stacked ! first) = Num 0"
    using first by (simp add: stacked_def stackY_other nodes1_def)
  moreover have "map (\<lambda>i. bn_y (stacked ! i)) rest = levelCursors vMargin nodes first (Num 0) rest"
    unfolding stacked_def
    using stackY_cursors [OF first(3) rest, of vMargin first "Num 0"]
      levelCursors_cong [of nodes1 nodes vMargin first "Num 0" rest] env1
    by simp
  ultimately have st: "stackedLevel vMargin nodes ?sorted
      = zip (first # rest) (map (\<lambda>i. bn_y (stacked ! i)) (first # rest))"
    by (simp add: stackedLevel_def fr)
  have centre: "levelCentre nodes (stackedLevel vMargin nodes ?sorted)
      = jdiv (Math_min_of (map (\<lambda>node. bn_y (stacked ! node) - envelopeY (stacked ! node))
                  (first # rest))
              + Math_max_of (map (\<lambda>node. bn_y (stacked ! node) + envelopeY (stacked ! node))
                  (first # rest))) (Num 2)"
    unfolding levelCentre_def st map_zip_self by (simp add: env)
  define c where "c = levelCentre nodes (stackedLevel vMargin nodes ?sorted)"
  define upd :: "BackboneNode \<Rightarrow> BackboneNode" where
    "upd = (\<lambda>n. n\<lparr>bn_x := offset + xAt xByDepth d, bn_y := bn_y n - c\<rparr>)"
  have place: "placeLevel cmp levels xByDepth offset vMargin nodes d
      = foldl (\<lambda>ns node. ns[node := upd (ns ! node)]) stacked (first # rest)"
    unfolding placeLevel_def fr list.case Let_def
    unfolding nodes1_def [symmetric] stacked_def [symmetric] centre [symmetric] c_def [symmetric]
    by (simp only: upd_def)
  from iy have i: "i \<in> set (first # rest)" and y: "y = bn_y (stacked ! i)"
    unfolding st by (auto dest: in_zip_self)
  have "\<forall>i \<in> set (first # rest). i < length stacked"
    using set_eq len by (simp add: stacked_def stackY_length nodes1_def)
  from foldl_update_each [OF dist' this i, of upd]
  show ?thesis unfolding place c_def [symmetric] by (simp add: upd_def y)
qed

subsection \<open>The levels of a component are placed one by one\<close>

lemma sortLevel_same:
  assumes "map unplaced a = map unplaced b"
  shows "sortLevel cmp a level = sortLevel cmp b level"
  by (simp add: sortLevel_def unplaced_fields(1) [OF assms])

lemma stackedLevel_same:
  assumes "map unplaced a = map unplaced b"
  shows "stackedLevel vMargin a level = stackedLevel vMargin b level"
  using levelCursors_cong [of a b vMargin] unplaced_fields(3) [OF assms]
  by (simp add: stackedLevel_def split: list.splits)

lemma levelCentre_same:
  assumes "map unplaced a = map unplaced b"
  shows "levelCentre a stacked = levelCentre b stacked"
  by (simp add: levelCentre_def unplaced_fields(3) [OF assms])

lemma componentLevels_same:
  assumes "map unplaced a = map unplaced b"
  shows "chooseRoot a component = chooseRoot b component"
    and "buildLevels a depth component = buildLevels b depth component"
    and "componentLevels adj a component = componentLevels adj b component"
proof -
  show root: "chooseRoot a component = chooseRoot b component"
    by (simp add: chooseRoot_def unplaced_fields(2) [OF assms])
  show levels: "buildLevels a depth component = buildLevels b depth component" for depth
    by (simp add: buildLevels_def unplaced_fields(1) [OF assms])
  show "componentLevels adj a component = componentLevels adj b component"
    by (simp add: componentLevels_def root levels unplaced_fields(1) [OF assms]
        split: option.splits)
qed

lemma stackedLevel_fst:
  assumes "(i, y) \<in> set (stackedLevel vMargin nodes level)"
  shows "i \<in> set level"
proof (cases level)
  case Nil
  with assms show ?thesis by (simp add: stackedLevel_def)
next
  case (Cons first rest)
  with assms have "(i, y) = (first, Num 0)
      \<or> (i, y) \<in> set (zip rest (levelCursors vMargin nodes first (Num 0) rest))"
    by (simp add: stackedLevel_def)
  then show ?thesis
    using Cons by (auto dest: set_zip_leftD)
qed

lemma foldl_placeLevel_other:
  assumes "\<forall>d \<in> set ds. j \<notin> set (levelNodesAt levels d)"
  shows "foldl (placeLevel cmp levels xByDepth offset vMargin) nodes ds ! j = nodes ! j"
  using assms by (induction ds arbitrary: nodes) (simp_all add: placeLevel_other)

lemma foldl_placeLevel_y:
  assumes same: "map unplaced nodes = map unplaced ref"
      and ds: "distinct ds" "d \<in> set ds"
      and lists: "\<forall>d. distinct (levelNodesAt levels d)
                     \<and> (\<forall>i \<in> set (levelNodesAt levels d). i < length ref)"
      and disjoint: "\<forall>d d'. d \<noteq> d'
                     \<longrightarrow> set (levelNodesAt levels d) \<inter> set (levelNodesAt levels d') = {}"
      and iy: "(i, y) \<in> set (stackedLevel vMargin ref (sortLevel cmp ref (levelNodesAt levels d)))"
  shows "bn_y (foldl (placeLevel cmp levels xByDepth offset vMargin) nodes ds ! i)
         = y - levelCentre ref (stackedLevel vMargin ref
                 (sortLevel cmp ref (levelNodesAt levels d)))"
  using same ds
proof (induction ds arbitrary: nodes)
  case Nil
  then show ?case by simp
next
  case (Cons d0 ds)
  let ?nodes1 = "placeLevel cmp levels xByDepth offset vMargin nodes d0"
  have same1: "map unplaced ?nodes1 = map unplaced ref"
    using Cons.prems(1) by (simp add: unplaced_placeLevel)
  have len: "length nodes = length ref"
    using Cons.prems(1) by (rule map_eq_imp_length_eq)
  show ?case
  proof (cases "d = d0")
    case True
    have i: "i \<in> set (levelNodesAt levels d)"
      using stackedLevel_fst [OF iy] by (simp add: sortLevel_def set_sortBy)
    have "\<forall>d' \<in> set ds. i \<notin> set (levelNodesAt levels d')"
    proof
      fix d'
      assume "d' \<in> set ds"
      with Cons.prems(2) True have "d \<noteq> d'" by auto
      with disjoint i show "i \<notin> set (levelNodesAt levels d')" by blast
    qed
    then have "foldl (placeLevel cmp levels xByDepth offset vMargin) ?nodes1 ds ! i = ?nodes1 ! i"
      by (rule foldl_placeLevel_other)
    moreover have "bn_y (?nodes1 ! i) = y - levelCentre nodes (stackedLevel vMargin nodes
                 (sortLevel cmp nodes (levelNodesAt levels d)))"
      unfolding True [symmetric]
    proof (rule placeLevel_y)
      show "distinct (levelNodesAt levels d)" using lists by blast
      show "\<forall>i \<in> set (levelNodesAt levels d). i < length nodes" using lists len by simp
      show "(i, y) \<in> set (stackedLevel vMargin nodes (sortLevel cmp nodes (levelNodesAt levels d)))"
        using iy by (simp only: sortLevel_same [OF Cons.prems(1)]
            stackedLevel_same [OF Cons.prems(1)])
    qed
    ultimately show ?thesis
      by (simp only: foldl_Cons sortLevel_same [OF Cons.prems(1)]
          stackedLevel_same [OF Cons.prems(1)] levelCentre_same [OF Cons.prems(1)])
  next
    case False
    with Cons.prems have "distinct ds" "d \<in> set ds" by auto
    from Cons.IH [OF same1 this] show ?thesis by simp
  qed
qed

subsection \<open>The components are placed one by one\<close>

lemma levelNodesAt_keys:
  assumes "levelNodesAt levels d \<noteq> []"
  shows "d \<in> set (orderedDepths levels)"
proof -
  from assms obtain l where "map_of levels d = Some l"
    by (auto simp add: levelNodesAt_def split: option.splits)
  then have "(d, l) \<in> set levels" by (rule map_of_SomeD)
  then have "d \<in> set (map fst levels)" by force
  then show ?thesis by (simp add: orderedDepths_def set_sortBy)
qed

lemma layoutComponent_other:
  assumes "j \<notin> set component"
  shows "fst (layoutComponent cmp adj style (nodes, offset) component) ! j = nodes ! j"
proof (cases "chooseRoot nodes component")
  case None
  then show ?thesis by (simp add: layoutComponent_def)
next
  case (Some rootNode)
  have "foldl (placeLevel cmp (buildLevels nodes depth component) xByDepth offset vMargin) nodes ds ! j
        = nodes ! j" for depth xByDepth vMargin ds
    using assms by (intro foldl_placeLevel_other) (simp add: levelNodesAt_buildLevels)
  then show ?thesis
    using Some by (simp add: layoutComponent_def Let_def)
qed

lemma layoutComponent_y:
  assumes same: "map unplaced nodes = map unplaced ref"
      and component: "distinct component" "\<forall>i \<in> set component. i < length ref"
      and iy: "(i, y) \<in> set (stackedLevel (V_MARGIN style) ref
                  (sortLevel cmp ref (levelNodesAt (componentLevels adj ref component) d)))"
  shows "bn_y (fst (layoutComponent cmp adj style (nodes, offset) component) ! i)
         = y - levelCentre ref (stackedLevel (V_MARGIN style) ref
                 (sortLevel cmp ref (levelNodesAt (componentLevels adj ref component) d)))"
proof (cases "chooseRoot nodes component")
  case None
  then have "componentLevels adj ref component = []"
    by (simp add: componentLevels_def componentLevels_same(1) [OF same, symmetric])
  with iy show ?thesis
    by (simp add: levelNodesAt_def sortLevel_def sortBy_def stackedLevel_def)
next
  case (Some rootNode)
  define depth where "depth = assignDepths adj (bn_id (nodes ! rootNode))"
  define levels where "levels = buildLevels nodes depth component"
  have levels: "componentLevels adj ref component = levels"
    unfolding componentLevels_same(3) [OF same, symmetric]
    using Some by (simp add: componentLevels_def levels_def depth_def)
  have at: "levelNodesAt levels d'
            = filter (\<lambda>node. depthOf depth (bn_id (nodes ! node)) = d') component" for d'
    by (simp add: levels_def levelNodesAt_buildLevels)
  have "i \<in> set (levelNodesAt levels d)"
    using stackedLevel_fst [OF iy] by (simp add: sortLevel_def set_sortBy levels)
  then have "levelNodesAt levels d \<noteq> []" by auto
  then have d: "d \<in> set (orderedDepths levels)" by (rule levelNodesAt_keys)
  have dist: "distinct (orderedDepths levels)"
    by (simp add: levels_def distinct_orderedDepths)
  have lists: "\<forall>d. distinct (levelNodesAt levels d)
                 \<and> (\<forall>i \<in> set (levelNodesAt levels d). i < length ref)"
    using component by (simp add: at)
  have disjoint: "\<forall>d d'. d \<noteq> d'
                 \<longrightarrow> set (levelNodesAt levels d) \<inter> set (levelNodesAt levels d') = {}"
    by (auto simp add: at)
  have "bn_y (foldl (placeLevel cmp levels xByDepth offset (V_MARGIN style)) nodes
                (orderedDepths levels) ! i)
        = y - levelCentre ref (stackedLevel (V_MARGIN style) ref
                 (sortLevel cmp ref (levelNodesAt levels d)))" for xByDepth
    using same dist d lists disjoint iy [unfolded levels] by (rule foldl_placeLevel_y)
  then show ?thesis
    using Some
    by (simp add: layoutComponent_def Let_def levels depth_def [symmetric] levels_def [symmetric])
qed

lemma componentLevels_subset:
  assumes "i \<in> set (levelNodesAt (componentLevels adj nodes component) d)"
  shows "i \<in> set component"
proof (cases "chooseRoot nodes component")
  case None
  with assms show ?thesis by (simp add: componentLevels_def levelNodesAt_def)
next
  case (Some rootNode)
  with assms show ?thesis by (simp add: componentLevels_def levelNodesAt_buildLevels)
qed

lemma foldl_layoutComponent_other:
  assumes "j \<notin> set (concat components)"
  shows "fst (foldl (layoutComponent cmp adj style) (nodes, offset) components) ! j = nodes ! j"
  using assms
proof (induction components arbitrary: nodes offset)
  case Nil
  show ?case by simp
next
  case (Cons c components)
  obtain nodes' offset' where
    step: "layoutComponent cmp adj style (nodes, offset) c = (nodes', offset')"
    by (cases "layoutComponent cmp adj style (nodes, offset) c")
  from Cons.prems have "j \<notin> set c" "j \<notin> set (concat components)" by auto
  from layoutComponent_other [OF this(1), of cmp adj style nodes offset]
    Cons.IH [OF this(2), of nodes' offset']
  show ?case by (simp add: step)
qed

lemma foldl_layoutComponent_y:
  assumes same: "map unplaced nodes = map unplaced ref"
      and components: "distinct (concat components)"
        "\<forall>i \<in> set (concat components). i < length ref"
      and component: "component \<in> set components"
      and iy: "(i, y) \<in> set (stackedLevel (V_MARGIN style) ref
                  (sortLevel cmp ref (levelNodesAt (componentLevels adj ref component) d)))"
  shows "bn_y (fst (foldl (layoutComponent cmp adj style) (nodes, offset) components) ! i)
         = y - levelCentre ref (stackedLevel (V_MARGIN style) ref
                 (sortLevel cmp ref (levelNodesAt (componentLevels adj ref component) d)))"
  using same components component
proof (induction components arbitrary: nodes offset)
  case Nil
  then show ?case by simp
next
  case (Cons c components)
  obtain nodes' offset' where
    step: "layoutComponent cmp adj style (nodes, offset) c = (nodes', offset')"
    by (cases "layoutComponent cmp adj style (nodes, offset) c")
  have nodes': "nodes' = fst (layoutComponent cmp adj style (nodes, offset) c)"
    by (simp add: step)
  have same': "map unplaced nodes' = map unplaced ref"
    using Cons.prems(1) by (simp add: nodes' unplaced_layoutComponent)
  have i: "i \<in> set component"
  proof -
    have "i \<in> set (levelNodesAt (componentLevels adj ref component) d)"
      using stackedLevel_fst [OF iy] by (simp add: sortLevel_def set_sortBy)
    then show ?thesis by (rule componentLevels_subset)
  qed
  show ?case
  proof (cases "component = c")
    case True
    from Cons.prems(2) i True have "i \<notin> set (concat components)" by auto
    then have "fst (foldl (layoutComponent cmp adj style) (nodes', offset') components) ! i
               = nodes' ! i"
      by (rule foldl_layoutComponent_other)
    moreover have "bn_y (nodes' ! i)
         = y - levelCentre ref (stackedLevel (V_MARGIN style) ref
                 (sortLevel cmp ref (levelNodesAt (componentLevels adj ref component) d)))"
      unfolding nodes' True [symmetric]
      using Cons.prems(1) _ _ iy
    proof (rule layoutComponent_y)
      show "distinct component" using Cons.prems(2) True by simp
      show "\<forall>i \<in> set component. i < length ref" using Cons.prems(3) True by simp
    qed
    ultimately show ?thesis by (simp add: step)
  next
    case False
    with Cons.prems have "distinct (concat components)"
      "\<forall>i \<in> set (concat components). i < length ref" "component \<in> set components"
      by auto
    from Cons.IH [OF same' this] show ?thesis by (simp add: step)
  qed
qed

subsection \<open>The vertical position of a node in the layout\<close>

lemma layout_y:
  fixes cmp model style overrides
  defines "nodes0 \<equiv> buildNodes model style overrides"
  defines "adj \<equiv> fst (buildEdges model nodes0)"
  assumes component: "component \<in> set (connectedComponents nodes0 adj)"
      and iy: "(i, y) \<in> set (stackedLevel (V_MARGIN style) nodes0
                  (sortLevel cmp nodes0 (levelNodesAt (componentLevels adj nodes0 component) d)))"
  shows "bn_y (fst (buildBackboneLayout cmp model style overrides) ! i)
         = y - levelCentre nodes0 (stackedLevel (V_MARGIN style) nodes0
                 (sortLevel cmp nodes0 (levelNodesAt (componentLevels adj nodes0 component) d)))
           + offsetY (nodeStyle (nodes0 ! i))"
    and "i < length (fst (buildBackboneLayout cmp model style overrides))"
proof -
  define placed where
    "placed = fst (foldl (layoutComponent cmp adj style) (nodes0, Num 0)
                (connectedComponents nodes0 adj))"
  have layout: "fst (buildBackboneLayout cmp model style overrides) = map applyOffset placed"
    by (simp add: buildBackboneLayout_def Let_def split_beta placed_def adj_def nodes0_def)
  have same: "map unplaced placed = map unplaced nodes0"
    by (simp add: placed_def unplaced_foldl_layoutComponent)
  then have len: "length placed = length nodes0" by (rule map_eq_imp_length_eq)
  have "i \<in> set (levelNodesAt (componentLevels adj nodes0 component) d)"
    using stackedLevel_fst [OF iy] by (simp add: sortLevel_def set_sortBy)
  then have "i \<in> set component" by (rule componentLevels_subset)
  with component have "i \<in> set (concat (connectedComponents nodes0 adj))" by auto
  with connectedComponents_distinct(2) [of nodes0 adj] have i: "i < length nodes0" by blast
  then show "i < length (fst (buildBackboneLayout cmp model style overrides))"
    by (simp add: layout len)
  have "bn_y (placed ! i)
        = y - levelCentre nodes0 (stackedLevel (V_MARGIN style) nodes0
                 (sortLevel cmp nodes0 (levelNodesAt (componentLevels adj nodes0 component) d)))"
    unfolding placed_def
    using refl connectedComponents_distinct [of nodes0 adj] component iy
    by (rule foldl_layoutComponent_y)
  moreover have "nodeStyle (placed ! i) = nodeStyle (nodes0 ! i)"
    by (rule unplaced_fields(4) [OF same])
  ultimately show "bn_y (fst (buildBackboneLayout cmp model style overrides) ! i)
         = y - levelCentre nodes0 (stackedLevel (V_MARGIN style) nodes0
                 (sortLevel cmp nodes0 (levelNodesAt (componentLevels adj nodes0 component) d)))
           + offsetY (nodeStyle (nodes0 ! i))"
    using i by (simp add: layout len applyOffset_def)
qed

subsection \<open>The cursors of a level\<close>








subsection \<open>\<open>sameLevelModel\<close> with a negative gap and with an offset\<close>



















subsection \<open>The order within a level\<close>









subsection \<open>The horizontal position of a node in the layout\<close>

lemma unplaced_envelopeX:
  assumes "map unplaced a = map unplaced b"
  shows "envelopeX (a ! i) = envelopeX (b ! i)"
  using arg_cong [OF unplaced_nth [OF assms, of i], of envelopeX] by (simp add: unplaced_def)

lemma assignX_same:
  assumes "map unplaced a = map unplaced b"
  shows "assignX a levels hMargin depths = assignX b levels hMargin depths"
proof -
  have "levelX a levels hMargin = levelX b levels hMargin"
    by (simp add: fun_eq_iff levelX_def unplaced_envelopeX [OF assms])
  then show ?thesis by (simp add: assignX_def)
qed

lemma placeLevel_x:
  assumes dist: "distinct (levelNodesAt levels d)"
      and len: "\<forall>i \<in> set (levelNodesAt levels d). i < length nodes"
      and i: "i \<in> set (levelNodesAt levels d)"
  shows "bn_x (placeLevel cmp levels xByDepth offset vMargin nodes d ! i)
         = offset + xAt xByDepth d"
proof (cases "sortLevel cmp nodes (levelNodesAt levels d)")
  case Nil
  then have "set (levelNodesAt levels d) = {}"
    using set_sortBy [of "\<lambda>a b. cmp (bn_id (nodes ! a)) (bn_id (nodes ! b)) < 0"
        "levelNodesAt levels d"]
    by (simp add: sortLevel_def)
  with i show ?thesis by simp
next
  case (Cons first rest)
  have set_eq: "set (first # rest) = set (levelNodesAt levels d)"
    and dist': "distinct (first # rest)"
    using Cons [symmetric] dist by (simp_all add: sortLevel_def set_sortBy distinct_sortBy)
  define stacked where "stacked = stackY vMargin first (Num 0) rest
      (nodes[first := (nodes ! first)\<lparr>bn_y := Num 0\<rparr>])"
  define c where "c = jdiv
      (Math_min_of (map (\<lambda>node. bn_y (stacked ! node) - envelopeY (stacked ! node))
          (first # rest))
       + Math_max_of (map (\<lambda>node. bn_y (stacked ! node) + envelopeY (stacked ! node))
          (first # rest)))
      (Num 2)"
  define upd :: "BackboneNode \<Rightarrow> BackboneNode" where
    "upd = (\<lambda>n. n\<lparr>bn_x := offset + xAt xByDepth d, bn_y := bn_y n - c\<rparr>)"
  have place: "placeLevel cmp levels xByDepth offset vMargin nodes d
      = foldl (\<lambda>ns node. ns[node := upd (ns ! node)]) stacked (first # rest)"
    unfolding placeLevel_def Cons list.case Let_def
    unfolding stacked_def [symmetric] c_def [symmetric]
    by (simp only: upd_def)
  have "\<forall>i \<in> set (first # rest). i < length stacked"
    using set_eq len by (simp add: stacked_def stackY_length)
  moreover have "i \<in> set (first # rest)" using i set_eq by simp
  ultimately have "foldl (\<lambda>ns node. ns[node := upd (ns ! node)]) stacked (first # rest) ! i
                   = upd (stacked ! i)"
    by (intro foldl_update_each [OF dist'])
  then show ?thesis unfolding place by (simp add: upd_def)
qed

lemma foldl_placeLevel_x:
  assumes same: "map unplaced nodes = map unplaced ref"
      and ds: "distinct ds" "d \<in> set ds"
      and lists: "\<forall>d. distinct (levelNodesAt levels d)
                     \<and> (\<forall>i \<in> set (levelNodesAt levels d). i < length ref)"
      and disjoint: "\<forall>d d'. d \<noteq> d'
                     \<longrightarrow> set (levelNodesAt levels d) \<inter> set (levelNodesAt levels d') = {}"
      and i: "i \<in> set (levelNodesAt levels d)"
  shows "bn_x (foldl (placeLevel cmp levels xByDepth offset vMargin) nodes ds ! i)
         = offset + xAt xByDepth d"
  using same ds
proof (induction ds arbitrary: nodes)
  case Nil
  then show ?case by simp
next
  case (Cons d0 ds)
  let ?nodes1 = "placeLevel cmp levels xByDepth offset vMargin nodes d0"
  have same1: "map unplaced ?nodes1 = map unplaced ref"
    using Cons.prems(1) by (simp add: unplaced_placeLevel)
  have len: "length nodes = length ref"
    using Cons.prems(1) by (rule map_eq_imp_length_eq)
  show ?case
  proof (cases "d = d0")
    case True
    have "\<forall>d' \<in> set ds. i \<notin> set (levelNodesAt levels d')"
    proof
      fix d'
      assume "d' \<in> set ds"
      with Cons.prems(2) True have "d \<noteq> d'" by auto
      with disjoint i show "i \<notin> set (levelNodesAt levels d')" by blast
    qed
    then have "foldl (placeLevel cmp levels xByDepth offset vMargin) ?nodes1 ds ! i = ?nodes1 ! i"
      by (rule foldl_placeLevel_other)
    moreover have "bn_x (?nodes1 ! i) = offset + xAt xByDepth d"
      unfolding True [symmetric]
    proof (rule placeLevel_x)
      show "distinct (levelNodesAt levels d)" using lists by blast
      show "\<forall>i \<in> set (levelNodesAt levels d). i < length nodes" using lists len by simp
      show "i \<in> set (levelNodesAt levels d)" by (rule i)
    qed
    ultimately show ?thesis by simp
  next
    case False
    with Cons.prems have "distinct ds" "d \<in> set ds" by auto
    from Cons.IH [OF same1 this] show ?thesis by simp
  qed
qed

lemma layoutComponent_x:
  assumes same: "map unplaced nodes = map unplaced ref"
      and component: "distinct component" "\<forall>i \<in> set component. i < length ref"
      and i: "i \<in> set (levelNodesAt (componentLevels adj ref component) d)"
  shows "bn_x (fst (layoutComponent cmp adj style (nodes, offset) component) ! i)
         = offset + xAt (assignX ref (componentLevels adj ref component) (H_MARGIN style)
                           (orderedDepths (componentLevels adj ref component))) d"
proof (cases "chooseRoot nodes component")
  case None
  then have "componentLevels adj ref component = []"
    by (simp add: componentLevels_def componentLevels_same(1) [OF same, symmetric])
  with i show ?thesis by (simp add: levelNodesAt_def)
next
  case (Some rootNode)
  define depth where "depth = assignDepths adj (bn_id (nodes ! rootNode))"
  define levels where "levels = buildLevels nodes depth component"
  have levels: "componentLevels adj ref component = levels"
    unfolding componentLevels_same(3) [OF same, symmetric]
    using Some by (simp add: componentLevels_def levels_def depth_def)
  have at: "levelNodesAt levels d'
            = filter (\<lambda>node. depthOf depth (bn_id (nodes ! node)) = d') component" for d'
    by (simp add: levels_def levelNodesAt_buildLevels)
  have i': "i \<in> set (levelNodesAt levels d)"
    using i by (simp add: levels)
  then have "levelNodesAt levels d \<noteq> []" by auto
  then have d: "d \<in> set (orderedDepths levels)" by (rule levelNodesAt_keys)
  have dist: "distinct (orderedDepths levels)"
    by (simp add: levels_def distinct_orderedDepths)
  have lists: "\<forall>d. distinct (levelNodesAt levels d)
                 \<and> (\<forall>i \<in> set (levelNodesAt levels d). i < length ref)"
    using component by (simp add: at)
  have disjoint: "\<forall>d d'. d \<noteq> d'
                 \<longrightarrow> set (levelNodesAt levels d) \<inter> set (levelNodesAt levels d') = {}"
    by (auto simp add: at)
  have "bn_x (foldl (placeLevel cmp levels xByDepth offset (V_MARGIN style)) nodes
                (orderedDepths levels) ! i)
        = offset + xAt xByDepth d" for xByDepth
    using same dist d lists disjoint i' by (rule foldl_placeLevel_x)
  then show ?thesis
    using Some
    by (simp add: layoutComponent_def Let_def levels depth_def [symmetric] levels_def [symmetric]
        assignX_same [OF same, symmetric])
qed

lemma foldl_layoutComponent_x:
  assumes same: "map unplaced nodes = map unplaced ref"
      and components: "distinct (concat components)"
        "\<forall>i \<in> set (concat components). i < length ref"
      and component: "component \<in> set components"
  shows "\<exists>left. \<forall>d i. i \<in> set (levelNodesAt (componentLevels adj ref component) d)
           \<longrightarrow> bn_x (fst (foldl (layoutComponent cmp adj style) (nodes, offset) components) ! i)
               = left + xAt (assignX ref (componentLevels adj ref component) (H_MARGIN style)
                               (orderedDepths (componentLevels adj ref component))) d"
  using same components component
proof (induction components arbitrary: nodes offset)
  case Nil
  then show ?case by simp
next
  case (Cons c components)
  obtain nodes' offset' where
    step: "layoutComponent cmp adj style (nodes, offset) c = (nodes', offset')"
    by (cases "layoutComponent cmp adj style (nodes, offset) c")
  have nodes': "nodes' = fst (layoutComponent cmp adj style (nodes, offset) c)"
    by (simp add: step)
  have same': "map unplaced nodes' = map unplaced ref"
    using Cons.prems(1) by (simp add: nodes' unplaced_layoutComponent)
  show ?case
  proof (cases "component = c")
    case True
    have "bn_x (fst (foldl (layoutComponent cmp adj style) (nodes, offset) (c # components)) ! i)
          = offset + xAt (assignX ref (componentLevels adj ref component) (H_MARGIN style)
                               (orderedDepths (componentLevels adj ref component))) d"
      if i: "i \<in> set (levelNodesAt (componentLevels adj ref component) d)" for d i
    proof -
      from i have "i \<in> set component" by (rule componentLevels_subset)
      with Cons.prems(2) True have "i \<notin> set (concat components)" by auto
      then have "fst (foldl (layoutComponent cmp adj style) (nodes', offset') components) ! i
                 = nodes' ! i"
        by (rule foldl_layoutComponent_other)
      moreover have "bn_x (nodes' ! i)
          = offset + xAt (assignX ref (componentLevels adj ref component) (H_MARGIN style)
                               (orderedDepths (componentLevels adj ref component))) d"
        unfolding nodes' True [symmetric]
        using Cons.prems(1) _ _ i
      proof (rule layoutComponent_x)
        show "distinct component" using Cons.prems(2) True by simp
        show "\<forall>i \<in> set component. i < length ref" using Cons.prems(3) True by simp
      qed
      ultimately show ?thesis by (simp add: step)
    qed
    then show ?thesis by blast
  next
    case False
    with Cons.prems have "distinct (concat components)"
      "\<forall>i \<in> set (concat components). i < length ref" "component \<in> set components"
      by auto
    from Cons.IH [OF same' this, of offset'] show ?thesis by (simp add: step)
  qed
qed

lemma layout_x:
  fixes cmp model style overrides
  defines "nodes0 \<equiv> buildNodes model style overrides"
  defines "adj \<equiv> fst (buildEdges model nodes0)"
  assumes component: "component \<in> set (connectedComponents nodes0 adj)"
  shows "\<exists>left. \<forall>d i. i \<in> set (levelNodesAt (componentLevels adj nodes0 component) d)
           \<longrightarrow> bn_x (fst (buildBackboneLayout cmp model style overrides) ! i)
               = left + xAt (assignX nodes0 (componentLevels adj nodes0 component)
                               (H_MARGIN style)
                               (orderedDepths (componentLevels adj nodes0 component))) d
                 + offsetX (nodeStyle (nodes0 ! i))"
proof -
  define placed where
    "placed = fst (foldl (layoutComponent cmp adj style) (nodes0, Num 0)
                (connectedComponents nodes0 adj))"
  have layout: "fst (buildBackboneLayout cmp model style overrides) = map applyOffset placed"
    by (simp add: buildBackboneLayout_def Let_def split_beta placed_def adj_def nodes0_def)
  have same: "map unplaced placed = map unplaced nodes0"
    by (simp add: placed_def unplaced_foldl_layoutComponent)
  then have len: "length placed = length nodes0" by (rule map_eq_imp_length_eq)
  obtain left where left:
    "\<And>d i. i \<in> set (levelNodesAt (componentLevels adj nodes0 component) d)
       \<Longrightarrow> bn_x (placed ! i)
           = left + xAt (assignX nodes0 (componentLevels adj nodes0 component) (H_MARGIN style)
                           (orderedDepths (componentLevels adj nodes0 component))) d"
    unfolding placed_def
    using foldl_layoutComponent_x [OF refl connectedComponents_distinct component,
        where cmp = cmp and style = style and offset = "Num 0"]
    by blast
  have "bn_x (fst (buildBackboneLayout cmp model style overrides) ! i)
        = left + xAt (assignX nodes0 (componentLevels adj nodes0 component) (H_MARGIN style)
                        (orderedDepths (componentLevels adj nodes0 component))) d
          + offsetX (nodeStyle (nodes0 ! i))"
    if i: "i \<in> set (levelNodesAt (componentLevels adj nodes0 component) d)" for d i
  proof -
    from i have "i \<in> set component" by (rule componentLevels_subset)
    with component have "i \<in> set (concat (connectedComponents nodes0 adj))" by auto
    with connectedComponents_distinct(2) [of nodes0 adj] have "i < length nodes0" by blast
    moreover have "nodeStyle (placed ! i) = nodeStyle (nodes0 ! i)"
      by (rule unplaced_fields(4) [OF same])
    ultimately show ?thesis
      by (simp add: layout len applyOffset_def left [OF i])
  qed
  then show ?thesis by blast
qed

subsection \<open>The gaps of 0 and NaN\<close>

text \<open>
  C10. A horizontal gap of 0 or NaN gives the horizontal margin 260, a vertical gap of 0 or
  NaN the vertical margin 170; the defaults of the style are 200 and 125. With such a
  horizontal gap, the x of a depth is the x of the depth before it, plus the two largest
  \<open>envelopeX\<close> of these depths, plus 260; and the x of a node in the layout is the horizontal
  offset of its component, plus the x of its depth computed with the margin 260, plus the
  node's own \<open>offsetX\<close>. With such a vertical gap, the stacking loop advances its cursor by
  the two envelope half-heights plus 170; and the y of a node in the layout is its cursor in
  the level stacked with the margin 170, minus the centre of that level, plus the node's own
  \<open>offsetY\<close>.
\<close>

theorem gap_fallback:
  fixes cmp model style overrides
  defines "built \<equiv> buildNodes model style overrides"
  defines "adj \<equiv> fst (buildEdges model built)"
  defines "layout \<equiv> fst (buildBackboneLayout cmp model style overrides)"
  shows
  "(hGap style = Num 0 \<or> hGap style = NaN \<longrightarrow> H_MARGIN style = Num 260)
   \<and> (vGap style = Num 0 \<or> vGap style = NaN \<longrightarrow> V_MARGIN style = Num 170)
   \<and> hGap DEFAULT_CHEN_STYLE = Num 200 \<and> vGap DEFAULT_CHEN_STYLE = Num 125
   \<and> ((hGap style = Num 0 \<or> hGap style = NaN)
        \<and> orderedDepths (buildLevels nodes depth component) = ds @ p # d # rest
      \<longrightarrow> assignX nodes (buildLevels nodes depth component) (H_MARGIN style)
            (orderedDepths (buildLevels nodes depth component)) d
          = Some (xAt (assignX nodes (buildLevels nodes depth component) (H_MARGIN style)
                         (orderedDepths (buildLevels nodes depth component))) p
                  + Math_max_of (map (\<lambda>node. envelopeX (nodes ! node))
                      (levelNodesAt (buildLevels nodes depth component) p))
                  + Math_max_of (map (\<lambda>node. envelopeX (nodes ! node))
                      (levelNodesAt (buildLevels nodes depth component) d))
                  + Num 260))
   \<and> ((hGap style = Num 0 \<or> hGap style = NaN) \<and> part \<in> set (connectedComponents built adj)
      \<longrightarrow> (\<exists>left. \<forall>lvl i. i \<in> set (levelNodesAt (componentLevels adj built part) lvl)
             \<longrightarrow> bn_x (layout ! i)
                 = left + xAt (assignX built (componentLevels adj built part) (Num 260)
                                 (orderedDepths (componentLevels adj built part))) lvl
                   + offsetX (nodeStyle (built ! i))))
   \<and> (vGap style = Num 0 \<or> vGap style = NaN
      \<longrightarrow> stackY (V_MARGIN style) prev yCursor (nxt # others) nodes
          = stackY (Num 170) nxt
              (yCursor + (envelopeY (nodes ! prev) + envelopeY (nodes ! nxt) + Num 170)) others
              (nodes[nxt := (nodes ! nxt)
                 \<lparr>bn_y := yCursor + (envelopeY (nodes ! prev) + envelopeY (nodes ! nxt)
                                     + Num 170)\<rparr>]))
   \<and> ((vGap style = Num 0 \<or> vGap style = NaN) \<and> part \<in> set (connectedComponents built adj)
        \<and> (i, y) \<in> set (stackedLevel (Num 170) built
              (sortLevel cmp built (levelNodesAt (componentLevels adj built part) lvl)))
      \<longrightarrow> bn_y (layout ! i)
          = y - levelCentre built (stackedLevel (Num 170) built
                  (sortLevel cmp built (levelNodesAt (componentLevels adj built part) lvl)))
            + offsetY (nodeStyle (built ! i)))"
proof (intro conjI impI)
  show "H_MARGIN style = Num 260" if "hGap style = Num 0 \<or> hGap style = NaN"
    using that by (simp add: H_MARGIN_def orElse_fallback)
  show "V_MARGIN style = Num 170" if "vGap style = Num 0 \<or> vGap style = NaN"
    using that by (simp add: V_MARGIN_def orElse_fallback)
  show "hGap DEFAULT_CHEN_STYLE = Num 200" "vGap DEFAULT_CHEN_STYLE = Num 125"
    by (simp_all add: DEFAULT_CHEN_STYLE_def)
next
  let ?levels = "buildLevels nodes depth component"
  assume a: "(hGap style = Num 0 \<or> hGap style = NaN)
             \<and> orderedDepths ?levels = ds @ p # d # rest"
  then have hm: "H_MARGIN style = Num 260" by (simp add: H_MARGIN_def orElse_fallback)
  have "distinct (ds @ p # d # rest)"
    using distinct_orderedDepths [of nodes depth component] a by simp
  from assignX_step [OF this, of nodes ?levels "Num 260"] a hm
  show "assignX nodes ?levels (H_MARGIN style) (orderedDepths ?levels) d
        = Some (xAt (assignX nodes ?levels (H_MARGIN style) (orderedDepths ?levels)) p
                + Math_max_of (map (\<lambda>node. envelopeX (nodes ! node)) (levelNodesAt ?levels p))
                + Math_max_of (map (\<lambda>node. envelopeX (nodes ! node)) (levelNodesAt ?levels d))
                + Num 260)"
    by simp
next
  assume a: "(hGap style = Num 0 \<or> hGap style = NaN)
             \<and> part \<in> set (connectedComponents built adj)"
  then have hm: "H_MARGIN style = Num 260" by (simp add: H_MARGIN_def orElse_fallback)
  from a have "part \<in> set (connectedComponents built adj)" by simp
  then show "\<exists>left. \<forall>lvl i. i \<in> set (levelNodesAt (componentLevels adj built part) lvl)
             \<longrightarrow> bn_x (layout ! i)
                 = left + xAt (assignX built (componentLevels adj built part) (Num 260)
                                 (orderedDepths (componentLevels adj built part))) lvl
                   + offsetX (nodeStyle (built ! i))"
    unfolding layout_def adj_def built_def hm [symmetric] by (rule layout_x)
next
  assume "vGap style = Num 0 \<or> vGap style = NaN"
  then have vm: "V_MARGIN style = Num 170" by (simp add: V_MARGIN_def orElse_fallback)
  show "stackY (V_MARGIN style) prev yCursor (nxt # others) nodes
          = stackY (Num 170) nxt
              (yCursor + (envelopeY (nodes ! prev) + envelopeY (nodes ! nxt) + Num 170)) others
              (nodes[nxt := (nodes ! nxt)
                 \<lparr>bn_y := yCursor + (envelopeY (nodes ! prev) + envelopeY (nodes ! nxt)
                                     + Num 170)\<rparr>])"
    by (simp add: vm Let_def)
next
  assume a: "(vGap style = Num 0 \<or> vGap style = NaN)
        \<and> part \<in> set (connectedComponents built adj)
        \<and> (i, y) \<in> set (stackedLevel (Num 170) built
              (sortLevel cmp built (levelNodesAt (componentLevels adj built part) lvl)))"
  then have vm: "V_MARGIN style = Num 170" by (simp add: V_MARGIN_def orElse_fallback)
  from a have "part \<in> set (connectedComponents built adj)"
    and "(i, y) \<in> set (stackedLevel (Num 170) built
              (sortLevel cmp built (levelNodesAt (componentLevels adj built part) lvl)))"
    by simp_all
  then show "bn_y (layout ! i)
          = y - levelCentre built (stackedLevel (Num 170) built
                  (sortLevel cmp built (levelNodesAt (componentLevels adj built part) lvl)))
            + offsetY (nodeStyle (built ! i))"
    unfolding layout_def adj_def built_def vm [symmetric] by (rule layout_y(1))
qed

lemma usersOrders_componentLevels:
  "componentLevels usersOrdersAdjacency usersOrdersNodes [0, 2, 1] = [(1, [0, 1]), (0, [2])]"
  by (simp only: componentLevels_def usersOrders_root option.case usersOrders_depths
      usersOrders_levels)

lemma usersOrders_level:
  "levelNodesAt (componentLevels usersOrdersAdjacency usersOrdersNodes [0, 2, 1]) 1 = [0, 1]"
  unfolding usersOrders_componentLevels by (simp add: levelNodesAt_def)

lemma usersOrders_sorted: "sortLevel codeUnitCompare usersOrdersNodes [0, 1] = [1, 0]"
  by (simp add: usersOrdersNodes_def plain_eval sortLevel_def sortBy_def)

lemma usersOrders_stacked:
  "stackedLevel (Num 170) usersOrdersNodes [1, 0] = [(1, Num 0), (0, Num 374)]"
  by (simp add: stackedLevel_def usersOrdersNodes_def plain_eval)

lemma usersOrders_centre: "levelCentre usersOrdersNodes [(1, Num 0), (0, Num 374)] = Num 187"
  by (simp add: levelCentre_def usersOrdersNodes_def plain_eval Math_min_of_def Math_max_of_def
      minus_jsnum_def)

theorem gap_fallback_witness:
  "(hGap zeroGapStyle = Num 0 \<or> hGap zeroGapStyle = NaN)
   \<and> (vGap zeroGapStyle = Num 0 \<or> vGap zeroGapStyle = NaN)
   \<and> H_MARGIN zeroGapStyle = Num 260 \<and> V_MARGIN zeroGapStyle = Num 170
   \<and> orderedDepths (buildLevels usersOrdersNodes
         [str ''places'' \<mapsto> 0, str ''users'' \<mapsto> 1, str ''orders'' \<mapsto> 1] [0, 2, 1])
       = [] @ 0 # 1 # []
   \<and> assignX usersOrdersNodes (buildLevels usersOrdersNodes
         [str ''places'' \<mapsto> 0, str ''users'' \<mapsto> 1, str ''orders'' \<mapsto> 1] [0, 2, 1])
         (H_MARGIN zeroGapStyle) (orderedDepths (buildLevels usersOrdersNodes
         [str ''places'' \<mapsto> 0, str ''users'' \<mapsto> 1, str ''orders'' \<mapsto> 1] [0, 2, 1])) 1
       = Some (Num 466.5)
   \<and> map bn_x (fst (buildBackboneLayout codeUnitCompare usersOrdersModel zeroGapStyle Map.empty))
       = [Num 466.5, Num 466.5, Num 0]
   \<and> buildNodes usersOrdersModel zeroGapStyle Map.empty = usersOrdersNodes
   \<and> fst (buildEdges usersOrdersModel usersOrdersNodes) = usersOrdersAdjacency
   \<and> [0, 2, 1] \<in> set (connectedComponents usersOrdersNodes usersOrdersAdjacency)
   \<and> sortLevel codeUnitCompare usersOrdersNodes
         (levelNodesAt (componentLevels usersOrdersAdjacency usersOrdersNodes [0, 2, 1]) 1)
       = [1, 0]
   \<and> stackedLevel (Num 170) usersOrdersNodes [1, 0] = [(1, Num 0), (0, Num 374)]
   \<and> levelCentre usersOrdersNodes [(1, Num 0), (0, Num 374)] = Num 187
   \<and> bn_y ((fst (buildBackboneLayout codeUnitCompare usersOrdersModel zeroGapStyle
         Map.empty)) ! 1)
       = Num 0 - Num 187 + Num 0
   \<and> bn_y ((fst (buildBackboneLayout codeUnitCompare usersOrdersModel zeroGapStyle
         Map.empty)) ! 0)
       = Num 374 - Num 187 + Num 0
   \<and> map bn_y (fst (buildBackboneLayout codeUnitCompare usersOrdersModel zeroGapStyle
         Map.empty))
       = [Num 187, Num (- 187), Num 0]
   \<and> map bn_y (stackY (V_MARGIN zeroGapStyle) 1 (Num 0) [0] usersOrdersNodes)
       = [Num 374, Num 0, Num 0]
   \<and> (\<exists>left.
         bn_x ((fst (buildBackboneLayout codeUnitCompare usersOrdersModel zeroGapStyle
         Map.empty)) ! 2)
           = left + xAt (assignX usersOrdersNodes (componentLevels usersOrdersAdjacency usersOrdersNodes [0, 2, 1]) (Num 260) (orderedDepths (componentLevels usersOrdersAdjacency usersOrdersNodes [0, 2, 1]))) 0
             + offsetX (nodeStyle (usersOrdersNodes ! 2))
         \<and> bn_x ((fst (buildBackboneLayout codeUnitCompare usersOrdersModel zeroGapStyle
         Map.empty)) ! 0)
           = left + xAt (assignX usersOrdersNodes (componentLevels usersOrdersAdjacency usersOrdersNodes [0, 2, 1]) (Num 260) (orderedDepths (componentLevels usersOrdersAdjacency usersOrdersNodes [0, 2, 1]))) 1
             + offsetX (nodeStyle (usersOrdersNodes ! 0))
         \<and> bn_x ((fst (buildBackboneLayout codeUnitCompare usersOrdersModel zeroGapStyle
         Map.empty)) ! 1)
           = left + xAt (assignX usersOrdersNodes (componentLevels usersOrdersAdjacency usersOrdersNodes [0, 2, 1]) (Num 260) (orderedDepths (componentLevels usersOrdersAdjacency usersOrdersNodes [0, 2, 1]))) 1
             + offsetX (nodeStyle (usersOrdersNodes ! 1)))"
proof -
  have edges: "fst (buildEdges usersOrdersModel usersOrdersNodes) = usersOrdersAdjacency"
    by (simp add: usersOrders_edges)
  have component: "[0, 2, 1] \<in> set (connectedComponents usersOrdersNodes usersOrdersAdjacency)"
    by (simp add: usersOrders_components)
  have sorted: "sortLevel codeUnitCompare usersOrdersNodes
         (levelNodesAt (componentLevels usersOrdersAdjacency usersOrdersNodes [0, 2, 1]) 1)
       = [1, 0]"
    unfolding usersOrders_level by (rule usersOrders_sorted)
  have off: "offsetY (nodeStyle (usersOrdersNodes ! 0)) = Num 0"
    "offsetY (nodeStyle (usersOrdersNodes ! 1)) = Num 0"
    by (simp_all add: usersOrdersNodes_def plain_eval)
  note g = gap_fallback [where style = zeroGapStyle and nodes = usersOrdersNodes
      and depth = "[str ''places'' \<mapsto> 0, str ''users'' \<mapsto> 1, str ''orders'' \<mapsto> 1]"
      and component = "[0, 2, 1]" and ds = "[]" and p = 0 and d = 1 and rest = "[]"
      and cmp = codeUnitCompare and model = usersOrdersModel and overrides = Map.empty
      and part = "[0, 2, 1]" and lvl = 1 and prev = 1 and yCursor = "Num 0" and nxt = 0
      and others = "[]",
      unfolded usersOrders_nodesZeroGap edges]
  have h: "hGap zeroGapStyle = Num 0 \<or> hGap zeroGapStyle = NaN"
    and v: "vGap zeroGapStyle = Num 0 \<or> vGap zeroGapStyle = NaN"
    by (simp_all add: zeroGapStyle_def)
  from g h have hm: "H_MARGIN zeroGapStyle = Num 260" by blast
  from g v have vm: "V_MARGIN zeroGapStyle = Num 170" by blast
  have od: "orderedDepths (buildLevels usersOrdersNodes
         [str ''places'' \<mapsto> 0, str ''users'' \<mapsto> 1, str ''orders'' \<mapsto> 1] [0, 2, 1])
       = [] @ 0 # 1 # []"
    unfolding usersOrders_levels usersOrders_orderedDepths by simp
  note step = g [THEN conjunct2, THEN conjunct2, THEN conjunct2, THEN conjunct2,
      THEN conjunct1, rule_format, OF conjI [OF h od]]
  have ax: "assignX usersOrdersNodes (buildLevels usersOrdersNodes
         [str ''places'' \<mapsto> 0, str ''users'' \<mapsto> 1, str ''orders'' \<mapsto> 1] [0, 2, 1])
         (H_MARGIN zeroGapStyle) (orderedDepths (buildLevels usersOrdersNodes
         [str ''places'' \<mapsto> 0, str ''users'' \<mapsto> 1, str ''orders'' \<mapsto> 1] [0, 2, 1])) 1
       = Some (Num 466.5)"
    using step unfolding usersOrders_levels usersOrders_orderedDepths usersOrders_xZeroGap
    by (simp add: usersOrdersNodes_def plainNode_sel levelNodesAt_def Math_max_of_def xAt_def
        orElse_def)
  have lx: "map bn_x (fst (buildBackboneLayout codeUnitCompare usersOrdersModel zeroGapStyle
              Map.empty)) = [Num 466.5, Num 466.5, Num 0]"
    by (simp add: usersOrders_layoutZeroGap usersOrdersPlacedZeroGap_def plainNode_sel)
  note xs = g [THEN conjunct2, THEN conjunct2, THEN conjunct2, THEN conjunct2,
      THEN conjunct2, THEN conjunct1, THEN mp, OF conjI [OF h component]]
  note stack = g [THEN conjunct2, THEN conjunct2, THEN conjunct2, THEN conjunct2,
      THEN conjunct2, THEN conjunct2, THEN conjunct1, THEN mp, OF v]
  note ys = g [THEN conjunct2, THEN conjunct2, THEN conjunct2, THEN conjunct2,
      THEN conjunct2, THEN conjunct2, THEN conjunct2, unfolded sorted usersOrders_stacked
        usersOrders_centre, THEN mp]
  have y1: "bn_y ((fst (buildBackboneLayout codeUnitCompare usersOrdersModel zeroGapStyle
         Map.empty)) ! 1)
       = Num 0 - Num 187 + Num 0"
    using ys [of 1 "Num 0", unfolded off] v component by simp
  have y0: "bn_y ((fst (buildBackboneLayout codeUnitCompare usersOrdersModel zeroGapStyle
         Map.empty)) ! 0)
       = Num 374 - Num 187 + Num 0"
    using ys [of 0 "Num 374", unfolded off] v component by simp
  have ly: "map bn_y (fst (buildBackboneLayout codeUnitCompare usersOrdersModel zeroGapStyle
         Map.empty))
       = [Num 187, Num (- 187), Num 0]"
    by (simp add: usersOrders_layoutZeroGap usersOrdersPlacedZeroGap_def plainNode_sel)
  have st: "map bn_y (stackY (V_MARGIN zeroGapStyle) 1 (Num 0) [0] usersOrdersNodes)
       = [Num 374, Num 0, Num 0]"
    unfolding stack by (simp add: usersOrdersNodes_def plainNode_sel)
  have lv0: "2 \<in> set (levelNodesAt (componentLevels usersOrdersAdjacency usersOrdersNodes [0, 2, 1]) 0)"
    and lv1: "0 \<in> set (levelNodesAt (componentLevels usersOrdersAdjacency usersOrdersNodes [0, 2, 1]) 1)" "1 \<in> set (levelNodesAt (componentLevels usersOrdersAdjacency usersOrdersNodes [0, 2, 1]) 1)"
    unfolding usersOrders_componentLevels by (simp_all add: levelNodesAt_def)
  from xs obtain left where left: "\<And>lvl i. i \<in> set (levelNodesAt (componentLevels usersOrdersAdjacency usersOrdersNodes [0, 2, 1]) lvl)
      \<Longrightarrow> bn_x ((fst (buildBackboneLayout codeUnitCompare usersOrdersModel zeroGapStyle
         Map.empty)) ! i)
          = left + xAt (assignX usersOrdersNodes (componentLevels usersOrdersAdjacency usersOrdersNodes [0, 2, 1]) (Num 260) (orderedDepths (componentLevels usersOrdersAdjacency usersOrdersNodes [0, 2, 1]))) lvl
            + offsetX (nodeStyle (usersOrdersNodes ! i))"
    by blast
  from left [OF lv0] left [OF lv1(1)] left [OF lv1(2)]
  have xs': "\<exists>left.
         bn_x ((fst (buildBackboneLayout codeUnitCompare usersOrdersModel zeroGapStyle
         Map.empty)) ! 2)
           = left + xAt (assignX usersOrdersNodes (componentLevels usersOrdersAdjacency usersOrdersNodes [0, 2, 1]) (Num 260) (orderedDepths (componentLevels usersOrdersAdjacency usersOrdersNodes [0, 2, 1]))) 0
             + offsetX (nodeStyle (usersOrdersNodes ! 2))
         \<and> bn_x ((fst (buildBackboneLayout codeUnitCompare usersOrdersModel zeroGapStyle
         Map.empty)) ! 0)
           = left + xAt (assignX usersOrdersNodes (componentLevels usersOrdersAdjacency usersOrdersNodes [0, 2, 1]) (Num 260) (orderedDepths (componentLevels usersOrdersAdjacency usersOrdersNodes [0, 2, 1]))) 1
             + offsetX (nodeStyle (usersOrdersNodes ! 0))
         \<and> bn_x ((fst (buildBackboneLayout codeUnitCompare usersOrdersModel zeroGapStyle
         Map.empty)) ! 1)
           = left + xAt (assignX usersOrdersNodes (componentLevels usersOrdersAdjacency usersOrdersNodes [0, 2, 1]) (Num 260) (orderedDepths (componentLevels usersOrdersAdjacency usersOrdersNodes [0, 2, 1]))) 1
             + offsetX (nodeStyle (usersOrdersNodes ! 1))"
    by blast
  from h v hm vm od ax lx usersOrders_nodesZeroGap edges component sorted usersOrders_stacked
    usersOrders_centre y1 y0 ly st xs'
  show ?thesis by (intro conjI)
qed

subsection \<open>The attribute nodes of a layout\<close>

lemma placeAttribute_info:
  "map attributeInfo (fst (placeAttribute nodes style node planned (as, es) (attr, idx)))
   = map attributeInfo as @ [expectedInfo node attr]"
  "snd (placeAttribute nodes style node planned (as, es) (attr, idx))
   = es @ [AttributeLink (bn_id node) (attr_id attr)]"
  by (simp_all add: placeAttribute_def nodeSizeForAttribute_def Let_def attributeInfo_def
      expectedInfo_def attributeLabel_def split: prod.splits)

lemma foldl_placeAttribute_info:
  "map attributeInfo (fst (foldl (placeAttribute nodes style node planned) (as, es) entries))
   = map attributeInfo as @ map (\<lambda>entry. expectedInfo node (fst entry)) entries
   \<and> snd (foldl (placeAttribute nodes style node planned) (as, es) entries)
   = es @ map (\<lambda>entry. AttributeLink (bn_id node) (attr_id (fst entry))) entries"
proof (induction entries arbitrary: as es)
  case Nil
  show ?case by simp
next
  case (Cons entry entries)
  obtain attr idx where entry: "entry = (attr, idx)" by (cases entry)
  obtain as' es' where step:
    "placeAttribute nodes style node planned (as, es) (attr, idx) = (as', es')"
    by (cases "placeAttribute nodes style node planned (as, es) (attr, idx)")
  from placeAttribute_info [of nodes style node planned as es attr idx] step
  have "map attributeInfo as' = map attributeInfo as @ [expectedInfo node attr]"
    and "es' = es @ [AttributeLink (bn_id node) (attr_id attr)]" by simp_all
  with Cons [of as' es'] step entry show ?case by simp
qed

lemma map_fst_zip_upt: "map (\<lambda>entry. f (fst entry)) (zip xs [0..<length xs]) = map f xs"
  by (rule nth_equalityI) simp_all

lemma placeNodeAttributes_info:
  "map attributeInfo (fst (placeNodeAttributes nodes style angles (as, es) node))
   = map attributeInfo as @ map (expectedInfo node) (bn_attributes node)
   \<and> snd (placeNodeAttributes nodes style angles (as, es) node)
   = es @ map (\<lambda>attr. AttributeLink (bn_id node) (attr_id attr)) (bn_attributes node)"
proof (cases "bn_attributes node = []")
  case True
  then show ?thesis by (simp add: placeNodeAttributes_def)
next
  case False
  then show ?thesis
    by (simp only: placeNodeAttributes_def Let_def length_0_conv if_False
        foldl_placeAttribute_info map_fst_zip_upt simp_thms
        map_fst_zip_upt [of "\<lambda>attr. AttributeLink (bn_id node) (attr_id attr)"])
qed

lemma foldl_placeNodeAttributes_info:
  "map attributeInfo (fst (foldl (placeNodeAttributes nodes style angles) (as, es) ns))
   = map attributeInfo as @ concat (map (\<lambda>node. map (expectedInfo node) (bn_attributes node)) ns)
   \<and> snd (foldl (placeNodeAttributes nodes style angles) (as, es) ns)
   = es @ concat (map (\<lambda>node. map (\<lambda>attr. AttributeLink (bn_id node) (attr_id attr))
                     (bn_attributes node)) ns)"
proof (induction ns arbitrary: as es)
  case Nil
  show ?case by simp
next
  case (Cons node ns)
  obtain as' es' where step: "placeNodeAttributes nodes style angles (as, es) node = (as', es')"
    by (cases "placeNodeAttributes nodes style angles (as, es) node")
  from placeNodeAttributes_info [of nodes style angles as es node] step
  have "map attributeInfo as' = map attributeInfo as @ map (expectedInfo node) (bn_attributes node)"
    and "es' = es @ map (\<lambda>attr. AttributeLink (bn_id node) (attr_id attr)) (bn_attributes node)"
    by simp_all
  with Cons [of as' es'] step show ?case by simp
qed

lemma placeAttributeNodes_info:
  "map attributeInfo (fst (placeAttributeNodes (nodes, nodeById, edges) style))
   = concat (map (\<lambda>node. map (expectedInfo node) (bn_attributes node)) nodes)"
  "snd (placeAttributeNodes (nodes, nodeById, edges) style)
   = concat (map (\<lambda>node. map (\<lambda>attr. AttributeLink (bn_id node) (attr_id attr))
               (bn_attributes node)) nodes)"
  using foldl_placeNodeAttributes_info
    [of nodes style "neighborAnglesByNode nodes nodeById edges" "[]" "[]" nodes]
  by (simp_all add: placeAttributeNodes_def)

subsection \<open>The nodes, edges and labels of a scene\<close>

lemma scene_nodes:
  "\<exists>sx sy. sc_nodes (computeScene cmp model style overrides) =
     map (shiftNode sx sy)
       (map Backbone (fst (buildBackboneLayout cmp model style overrides))
        @ map Attribute
            (fst (placeAttributeNodes (buildBackboneLayout cmp model style overrides) style)))"
  by (simp add: computeScene_def Let_def split: prod.splits) blast

lemma scene_edges:
  "sc_edges (computeScene cmp model style overrides) =
     snd (snd (buildBackboneLayout cmp model style overrides))
     @ snd (placeAttributeNodes (buildBackboneLayout cmp model style overrides) style)"
  by (simp add: computeScene_def Let_def split: prod.splits)

lemma scene_labels:
  "cardinalityLabels (computeScene cmp model style overrides) =
     concat (map (cardinalityLabel (sc_nodeById (computeScene cmp model style overrides)))
               (sc_edges (computeScene cmp model style overrides)))"
  by (simp add: computeScene_def Let_def split: prod.splits)

lemma attributeInfo_shiftNode:
  "\<exists>a'. shiftNode sx sy (Attribute a) = Attribute a' \<and> attributeInfo a' = attributeInfo a"
  by (simp add: attributeInfo_def)

lemma layout_node_of_entity:
  assumes "e \<in> set (entities model)"
  shows "\<exists>node \<in> set (fst (buildBackboneLayout cmp model style overrides)).
           bn_id node = ent_id e \<and> bn_attributes node = ent_attributes e"
proof -
  let ?nodes = "fst (buildBackboneLayout cmp model style overrides)"
  from assms have "makeEntityNode style overrides e \<in> set (buildNodes model style overrides)"
    by (simp add: buildNodes_def)
  then have "makeEntityNode style overrides e \<in> set (map unplaced ?nodes)"
    by (simp only: layout_moves_only)
  then obtain node where node: "node \<in> set ?nodes" "unplaced node = makeEntityNode style overrides e"
    by auto
  have "bn_id (unplaced node) = bn_id node" "bn_attributes (unplaced node) = bn_attributes node"
    by (simp_all add: unplaced_def)
  moreover have "bn_id (makeEntityNode style overrides e) = ent_id e"
    "bn_attributes (makeEntityNode style overrides e) = ent_attributes e"
    by (simp_all add: makeEntityNode_def assignEnvelope_def Let_def split: prod.splits)
  ultimately show ?thesis using node by (intro bexI [of _ node]) simp_all
qed

lemma scene_attribute_of_entity:
  assumes e: "e \<in> set (entities model)" and attr: "attr \<in> set (ent_attributes e)"
  shows "\<exists>a. Attribute a \<in> set (sc_nodes (computeScene cmp model style overrides))
             \<and> attributeInfo a = (attr_id attr, ent_id e, attributeLabel attr, attr_isPrimary attr)"
proof -
  let ?layout = "buildBackboneLayout cmp model style overrides"
  obtain nodes nodeById edges where layout: "?layout = (nodes, nodeById, edges)"
    by (cases ?layout)
  from layout_node_of_entity [OF e, of cmp style overrides] layout obtain node where
    node: "node \<in> set nodes" "bn_id node = ent_id e" "bn_attributes node = ent_attributes e"
    by auto
  from attr node(3) have "expectedInfo node attr \<in> expectedInfo node ` set (bn_attributes node)"
    by simp
  with node(1) have "expectedInfo node attr
      \<in> (\<Union>n \<in> set nodes. expectedInfo n ` set (bn_attributes n))"
    by (rule UN_I)
  then have "expectedInfo node attr
      \<in> set (concat (map (\<lambda>node. map (expectedInfo node) (bn_attributes node)) nodes))"
    by simp
  then have "expectedInfo node attr
      \<in> set (map attributeInfo (fst (placeAttributeNodes (nodes, nodeById, edges) style)))"
    by (simp only: placeAttributeNodes_info)
  then obtain a where a: "a \<in> set (fst (placeAttributeNodes (nodes, nodeById, edges) style))"
    "attributeInfo a = expectedInfo node attr" by auto
  obtain sx sy where nodes: "sc_nodes (computeScene cmp model style overrides) =
     map (shiftNode sx sy) (map Backbone (fst ?layout)
        @ map Attribute (fst (placeAttributeNodes ?layout style)))"
    using scene_nodes by blast
  obtain a' where a': "shiftNode sx sy (Attribute a) = Attribute a'"
    "attributeInfo a' = attributeInfo a"
    using attributeInfo_shiftNode by blast
  from a(1) have "shiftNode sx sy (Attribute a) \<in> set (sc_nodes (computeScene cmp model style overrides))"
    unfolding nodes layout by simp
  with a' a(2) node(2) show ?thesis
    by (intro exI [of _ a']) (simp add: expectedInfo_def)
qed

subsection \<open>Escaping\<close>

lemma replaceAll_Nil: "replaceAll c r [] = []"
  by (simp add: replaceAll_def)

lemma replaceAll_Cons: "replaceAll c r (u # s) = (if u = c then r else [u]) @ replaceAll c r s"
  by (simp add: replaceAll_def)

lemma replaceAll_append: "replaceAll c r (a @ b) = replaceAll c r a @ replaceAll c r b"
  by (simp add: replaceAll_def)

lemma escapeXml_Cons: "escapeXml (u # s) = escapeChar u @ escapeXml s"
  by (simp add: escapeXml_def escapeChar_def replaceAll_Cons replaceAll_append str_def
      replaceAll_Nil)

lemma escapeXml_chars: "escapeXml s = concat (map escapeChar s)"
proof (induction s)
  case Nil
  show ?case by (simp add: escapeXml_def replaceAll_Nil)
next
  case (Cons u s)
  then show ?case by (simp add: escapeXml_Cons)
qed

lemma entity_label_line:
  \<open>str ''<text class="label" x="'' @ numToString pf (bn_x n)
         @ str ''" y="'' @ numToString pf (bn_y n)
         @ str ''" fill="'' @ escapeXml (textColor (nodeStyle n)) @ str ''">''
         @ escapeXml (bn_name n) @ str ''</text>'' \<in> set (entityLines pf selected es n)\<close>
  unfolding entityLines_def Let_def by (simp only: list.set insert_iff simp_thms)

lemma relationship_label_line:
  \<open>str ''<text class="label" x="'' @ numToString pf (bn_x n)
         @ str ''" y="'' @ numToString pf (bn_y n)
         @ str ''" fill="'' @ escapeXml (textColor (nodeStyle n)) @ str ''">''
         @ escapeXml (bn_name n) @ str ''</text>'' \<in> set (relationshipLines pf selected es n)\<close>
  unfolding relationshipLines_def Let_def by (simp only: list.set insert_iff simp_thms)

lemma attribute_label_line:
  \<open>str ''<text class="''
         @ (if an_isPrimary a then str ''attrLabel pk'' else str ''attrLabel'')
         @ str ''" x="'' @ numToString pf (an_x a) @ str ''" y="'' @ numToString pf (an_y a)
         @ str ''">'' @ escapeXml (an_label a) @ str ''</text>''
    \<in> set (attributeLines pf a)\<close>
  unfolding attributeLines_def Let_def by (simp only: list.set insert_iff simp_thms)

lemma cardinality_label_line:
  \<open>str ''<text class="card" x="'' @ numToString pf (cl_x l)
         @ str ''" y="'' @ numToString pf (cl_y l) @ str ''">''
         @ escapeXml (cl_text l) @ str ''</text>'' \<in> set (cardinalityLines pf cardFont l)\<close>
  unfolding cardinalityLines_def Let_def by (simp only: list.set insert_iff simp_thms)

lemma typeName_split:
  \<open>str ''" data-node-type="entity" data-node-name="''
     = str ''" data-node-type="'' @ str ''entity'' @ str ''" data-node-name="''\<close>
  \<open>str ''" data-node-type="relationship" data-node-name="''
     = str ''" data-node-type="'' @ str ''relationship'' @ str ''" data-node-name="''\<close>
  by (simp_all add: str_def)

lemma entity_name_line:
  \<open>\<exists>groupClass. str ''<g class="'' @ groupClass @ str ''" data-node-id="''
       @ escapeXml (bn_id n) @ str ''" data-node-type="'' @ str ''entity''
       @ str ''" data-node-name="''
       @ escapeXml (bn_name n) @ str ''">'' \<in> set (entityLines pf selected es n)\<close>
  unfolding entityLines_def Let_def typeName_split
  by (rule exI [of _ "if selected = Some (bn_id n) then str ''selected-node''
        else str ''normal-node''"])
     (simp only: list.set insert_iff append_assoc simp_thms)

lemma relationship_name_line:
  \<open>\<exists>groupClass. str ''<g class="'' @ groupClass @ str ''" data-node-id="''
       @ escapeXml (bn_id n) @ str ''" data-node-type="'' @ str ''relationship''
       @ str ''" data-node-name="''
       @ escapeXml (bn_name n) @ str ''">'' \<in> set (relationshipLines pf selected es n)\<close>
  unfolding relationshipLines_def Let_def typeName_split
  by (rule exI [of _ "if selected = Some (bn_id n) then str ''selected-node''
        else str ''normal-node''"])
     (simp only: list.set insert_iff append_assoc simp_thms)

lemma normalizeStyle_emptyStyle: "normalizeStyle emptyStyle = DEFAULT_CHEN_STYLE"
  by (simp add: normalizeStyle_def emptyStyle_def nullish_def DEFAULT_CHEN_STYLE_def)

lemma nodeLines_in_doc:
  assumes "node \<in> set (sc_nodes (computeScene (collate pf) model (normalizeStyle styleInput)
             (case nodeOverrides options of None \<Rightarrow> Map.empty | Some m \<Rightarrow> m)))"
  shows "\<exists>selected entityStroke relationStroke.
           set (nodeLines pf selected entityStroke relationStroke node)
           \<subseteq> set (renderLines pf model styleInput options)"
  using assms unfolding renderLines_def Let_def
  by (intro exI) (simp only: set_append set_concat set_map, blast)

lemma cardinalityLines_in_doc:
  assumes "l \<in> set (cardinalityLabels (computeScene (collate pf) model (normalizeStyle styleInput)
             (case nodeOverrides options of None \<Rightarrow> Map.empty | Some m \<Rightarrow> m)))"
  shows "\<exists>cardFont. set (cardinalityLines pf cardFont l)
           \<subseteq> set (renderLines pf model styleInput options)"
  using assms unfolding renderLines_def Let_def
  by (intro exI) (simp only: set_append set_concat set_map, blast)

lemma backbone_lines_in_doc:
  assumes "Backbone n \<in> set (sc_nodes (computeScene (collate pf) model
             (normalizeStyle styleInput)
             (case nodeOverrides options of None \<Rightarrow> Map.empty | Some m \<Rightarrow> m)))"
  shows \<open>str ''<text class="label" x="'' @ numToString pf (bn_x n)
         @ str ''" y="'' @ numToString pf (bn_y n)
         @ str ''" fill="'' @ escapeXml (textColor (nodeStyle n)) @ str ''">''
         @ escapeXml (bn_name n) @ str ''</text>''
         \<in> set (renderLines pf model styleInput options)\<close>
    and \<open>\<exists>groupClass. str ''<g class="'' @ groupClass @ str ''" data-node-id="''
       @ escapeXml (bn_id n) @ str ''" data-node-type="''
       @ (case bn_type n of entity \<Rightarrow> str ''entity'' | relationship \<Rightarrow> str ''relationship'')
       @ str ''" data-node-name="'' @ escapeXml (bn_name n) @ str ''">''
       \<in> set (renderLines pf model styleInput options)\<close>
proof -
  from assms obtain selected entityStroke relationStroke where
    sub: "set (nodeLines pf selected entityStroke relationStroke (Backbone n))
          \<subseteq> set (renderLines pf model styleInput options)"
    using nodeLines_in_doc by blast
  show \<open>str ''<text class="label" x="'' @ numToString pf (bn_x n)
         @ str ''" y="'' @ numToString pf (bn_y n)
         @ str ''" fill="'' @ escapeXml (textColor (nodeStyle n)) @ str ''">''
         @ escapeXml (bn_name n) @ str ''</text>''
         \<in> set (renderLines pf model styleInput options)\<close>
  proof (cases "bn_type n")
    case entity
    with sub entity_label_line [of pf n selected entityStroke] show ?thesis
      by (auto simp only: nodeLines_def SceneNode.case BackboneType.case)
  next
    case relationship
    with sub relationship_label_line [of pf n selected relationStroke] show ?thesis
      by (auto simp only: nodeLines_def SceneNode.case BackboneType.case)
  qed
  show \<open>\<exists>groupClass. str ''<g class="'' @ groupClass @ str ''" data-node-id="''
       @ escapeXml (bn_id n) @ str ''" data-node-type="''
       @ (case bn_type n of entity \<Rightarrow> str ''entity'' | relationship \<Rightarrow> str ''relationship'')
       @ str ''" data-node-name="'' @ escapeXml (bn_name n) @ str ''">''
       \<in> set (renderLines pf model styleInput options)\<close>
  proof (cases "bn_type n")
    case entity
    with sub entity_name_line [of n pf selected entityStroke] show ?thesis
      by (auto simp only: nodeLines_def SceneNode.case BackboneType.case)
  next
    case relationship
    with sub relationship_name_line [of n pf selected relationStroke] show ?thesis
      by (auto simp only: nodeLines_def SceneNode.case BackboneType.case)
  qed
qed

lemma attribute_line_in_doc:
  assumes "Attribute a \<in> set (sc_nodes (computeScene (collate pf) model
             (normalizeStyle styleInput)
             (case nodeOverrides options of None \<Rightarrow> Map.empty | Some m \<Rightarrow> m)))"
  shows \<open>str ''<text class="''
         @ (if an_isPrimary a then str ''attrLabel pk'' else str ''attrLabel'')
         @ str ''" x="'' @ numToString pf (an_x a) @ str ''" y="'' @ numToString pf (an_y a)
         @ str ''">'' @ escapeXml (an_label a) @ str ''</text>''
         \<in> set (renderLines pf model styleInput options)\<close>
proof -
  from assms obtain selected entityStroke relationStroke where
    "set (nodeLines pf selected entityStroke relationStroke (Attribute a))
          \<subseteq> set (renderLines pf model styleInput options)"
    using nodeLines_in_doc by blast
  with attribute_label_line [of a pf] show ?thesis
    by (auto simp only: nodeLines_def SceneNode.case)
qed

lemma cardinality_line_in_doc:
  assumes "l \<in> set (cardinalityLabels (computeScene (collate pf) model
             (normalizeStyle styleInput)
             (case nodeOverrides options of None \<Rightarrow> Map.empty | Some m \<Rightarrow> m)))"
  shows \<open>str ''<text class="card" x="'' @ numToString pf (cl_x l)
         @ str ''" y="'' @ numToString pf (cl_y l) @ str ''">''
         @ escapeXml (cl_text l) @ str ''</text>''
         \<in> set (renderLines pf model styleInput options)\<close>
proof -
  from assms obtain cardFont where
    "set (cardinalityLines pf cardFont l) \<subseteq> set (renderLines pf model styleInput options)"
    using cardinalityLines_in_doc by blast
  with cardinality_label_line [of pf l cardFont] show ?thesis by auto
qed

lemma escapeXml_escaped: "escapeXml s = escaped s"
  by (simp add: escaped_def escapeXml_chars)

lemma escapeChar_reserved: "set (escapeChar u) \<inter> {60, 62, 34, 39} = {}"
  by (simp add: escapeChar_def str_def)

lemma escaped_reserved: "set (escaped s) \<inter> {60, 62, 34, 39} = {}"
proof (induction s)
  case Nil
  show ?case by (simp add: escaped_def)
next
  case (Cons u s)
  have "set (escaped (u # s)) = set (escapeChar u) \<union> set (escaped s)"
    by (simp add: escaped_def)
  with Cons escapeChar_reserved [of u] show ?case by (simp only: Int_Un_distrib2) simp
qed

lemma headerLines_cong:
  assumes "sc_width a = sc_width b" and "sc_height a = sc_height b"
  shows "headerLines pf a lw style = headerLines pf b lw style"
  unfolding headerLines_def assms by (rule refl)

lemma headerLines_scene:
  "headerLines pf scene lw style
   = headerLines pf \<lparr>sc_nodes = [], sc_nodeById = Map.empty, sc_edges = [],
       cardinalityLabels = [], sc_width = sc_width scene, sc_height = sc_height scene\<rparr> lw style"
  by (rule headerLines_cong) simp_all

text \<open>
  C7. \<open>escapeXml\<close> replaces each code unit of a text by its reference, \<open>&\<close> by \<open>&amp;\<close>,
  \<open><\<close> by \<open>&lt;\<close>, \<open>>\<close> by \<open>&gt;\<close>, the double quote by \<open>&quot;\<close> and the single quote by
  \<open>&apos;\<close>, so that none of \<open><\<close>, \<open>>\<close> and the two quotes is left in its result. The document
  is the header, which has no text of the model, then the lines of the edges, of the
  cardinality labels and of the nodes, and the closing tag. Each of these lines is given in
  full: wherever it has a text of the model or of a node style (the ids of an edge, the
  text of a cardinality label, the id, name, fill and text colour of a backbone node, the
  id, parent id and label of an attribute node) it has the escaped text. Every attribute of
  an entity has its node in the scene, and the line of its label, escaped, is in the
  document.
\<close>

theorem label_text_escaped:
  fixes pf :: platform and model :: ChenModel and styleInput :: PartialChenStyle
    and options :: ChenRenderOptions
  defines "style \<equiv> normalizeStyle styleInput"
  defines "selectedId \<equiv> (case selectedNodeId options of
                          None \<Rightarrow> None
                        | Some ident \<Rightarrow> if ident = [] then None else Some ident)"
  defines "scene \<equiv> computeScene (collate pf) model style
             (case nodeOverrides options of None \<Rightarrow> Map.empty | Some m \<Rightarrow> m)"
  defines "lw \<equiv> orElse (lineWidth style) (Num 2.8)"
  defines "stroke \<equiv> Math_max (Num 1.8) (lw * Num 1.35)"
  defines "cardFont \<equiv> Math_max (Num 11) (Math_round (Num 22 * fontScale style))"
  shows \<open>escapeXml s = concat (map escapeChar s)
    \<and> escapeXml s = escaped s
    \<and> set (escaped s) \<inter> {60, 62, 34, 39} = {}
    \<and> renderLines pf model styleInput options =
        headerLines pf \<lparr>sc_nodes = [], sc_nodeById = Map.empty, sc_edges = [],
          cardinalityLabels = [], sc_width = sc_width scene, sc_height = sc_height scene\<rparr>
          lw style
        @ concat (map (edgeLines pf (sc_nodeById scene)) (sc_edges scene))
        @ concat (map (cardinalityLines pf cardFont) (cardinalityLabels scene))
        @ concat (map (nodeLines pf selectedId stroke stroke) (sc_nodes scene))
        @ [str ''</svg>'']
    \<and> edgeLines pf byId (EntityRelationship eid rid txt) =
        (case (byId eid, byId rid) of
           (Some e', Some r') \<Rightarrow>
             [str ''<line class="line edge-er" data-edge-type="entityRelationship" data-entity-id="''
              @ escaped eid @ str ''" data-relationship-id="'' @ escaped rid
              @ str ''" x1="'' @ numToString pf (nodeX e')
              @ str ''" y1="'' @ numToString pf (nodeY e')
              @ str ''" x2="'' @ numToString pf (nodeX r')
              @ str ''" y2="'' @ numToString pf (nodeY r') @ str ''" />'']
         | _ \<Rightarrow> [])
    \<and> edgeLines pf byId (AttributeLink fromId toId) =
        (case (byId fromId, byId toId) of
           (Some f, Some t) \<Rightarrow>
             [str ''<line class="line edge-attr" data-edge-type="attributeLink" data-from-id="''
              @ escaped fromId @ str ''" data-to-id="'' @ escaped toId
              @ str ''" x1="'' @ numToString pf (nodeX f)
              @ str ''" y1="'' @ numToString pf (nodeY f)
              @ str ''" x2="'' @ numToString pf (nodeX t)
              @ str ''" y2="'' @ numToString pf (nodeY t) @ str ''" />'']
         | _ \<Rightarrow> [])
    \<and> cardinalityLines pf font l =
        [str ''<rect x="''
         @ numToString pf (cl_x l
             - jdiv (Math_ceil (estimateTextWidth (cl_text l) font + Num 16)) (Num 2))
         @ str ''" y="'' @ numToString pf (cl_y l - Num 14)
         @ str ''" width="''
         @ numToString pf (Math_ceil (estimateTextWidth (cl_text l) font + Num 16))
         @ str ''" height="28" fill="#fff" />'',
         str ''<text class="card" x="'' @ numToString pf (cl_x l)
         @ str ''" y="'' @ numToString pf (cl_y l) @ str ''">''
         @ escaped (cl_text l) @ str ''</text>'']
    \<and> nodeLines pf sel es rs (Attribute a) =
        [str ''<g data-node-id="'' @ escaped (an_id a)
         @ str ''" data-node-type="attribute" data-parent-id="'' @ escaped (an_parentId a)
         @ str ''">'',
         str ''<ellipse class="attr" cx="'' @ numToString pf (an_x a)
         @ str ''" cy="'' @ numToString pf (an_y a)
         @ str ''" rx="'' @ numToString pf (an_rx a)
         @ str ''" ry="'' @ numToString pf (an_ry a) @ str ''" />'',
         str ''<text class="''
         @ (if an_isPrimary a then str ''attrLabel pk'' else str ''attrLabel'')
         @ str ''" x="'' @ numToString pf (an_x a)
         @ str ''" y="'' @ numToString pf (an_y a) @ str ''">''
         @ escaped (an_label a) @ str ''</text>'',
         str ''</g>'']
    \<and> nodeLines pf sel es rs (Backbone n) =
        (case bn_type n of
           entity \<Rightarrow>
             [str ''<g class="''
              @ (if sel = Some (bn_id n) then str ''selected-node'' else str ''normal-node'')
              @ str ''" data-node-id="'' @ escaped (bn_id n)
              @ str ''" data-node-type="entity" data-node-name="'' @ escaped (bn_name n)
              @ str ''">'',
              str ''<rect class="node-hit" x="''
              @ numToString pf (bn_x n - jdiv (width n) (Num 2) - Num 12)
              @ str ''" y="'' @ numToString pf (bn_y n - jdiv (height n) (Num 2) - Num 12)
              @ str ''" width="'' @ numToString pf (width n + Num 12 * Num 2)
              @ str ''" height="'' @ numToString pf (height n + Num 12 * Num 2)
              @ str ''" />'',
              str ''<rect class="''
              @ (if sel = Some (bn_id n) then str ''entity node-shape selected-shape''
                 else str ''entity node-shape'')
              @ str ''" x="'' @ numToString pf (bn_x n - jdiv (width n) (Num 2))
              @ str ''" y="'' @ numToString pf (bn_y n - jdiv (height n) (Num 2))
              @ str ''" width="'' @ numToString pf (width n)
              @ str ''" height="'' @ numToString pf (height n)
              @ str ''" fill="'' @ escaped (fill (nodeStyle n)) @ str ''" stroke="''
              @ (if sel = Some (bn_id n) then str ''#0f766e'' else str ''#111111'')
              @ str ''" stroke-width="''
              @ toFixed2 pf (if jgt (strokeWidth (nodeStyle n)) (Num 0)
                             then strokeWidth (nodeStyle n) else es)
              @ str ''" />'',
              str ''<text class="label" x="'' @ numToString pf (bn_x n)
              @ str ''" y="'' @ numToString pf (bn_y n)
              @ str ''" fill="'' @ escaped (textColor (nodeStyle n)) @ str ''">''
              @ escaped (bn_name n) @ str ''</text>'',
              str ''</g>'']
         | relationship \<Rightarrow>
             [str ''<g class="''
              @ (if sel = Some (bn_id n) then str ''selected-node'' else str ''normal-node'')
              @ str ''" data-node-id="'' @ escaped (bn_id n)
              @ str ''" data-node-type="relationship" data-node-name="''
              @ escaped (bn_name n) @ str ''">'',
              str ''<polygon class="node-hit" points="''
              @ join (str '' '')
                  [numToString pf (bn_x n) @ str '',''
                     @ numToString pf (bn_y n - jdiv (height n) (Num 2) - Num 12),
                   numToString pf (bn_x n + jdiv (width n) (Num 2) + Num 12) @ str '',''
                     @ numToString pf (bn_y n),
                   numToString pf (bn_x n) @ str '',''
                     @ numToString pf (bn_y n + jdiv (height n) (Num 2) + Num 12),
                   numToString pf (bn_x n - jdiv (width n) (Num 2) - Num 12) @ str '',''
                     @ numToString pf (bn_y n)]
              @ str ''" />'',
              str ''<polygon class="''
              @ (if sel = Some (bn_id n) then str ''relation node-shape selected-shape''
                 else str ''relation node-shape'')
              @ str ''" points="''
              @ join (str '' '')
                  [numToString pf (bn_x n) @ str '',''
                     @ numToString pf (bn_y n - jdiv (height n) (Num 2)),
                   numToString pf (bn_x n + jdiv (width n) (Num 2)) @ str '',''
                     @ numToString pf (bn_y n),
                   numToString pf (bn_x n) @ str '',''
                     @ numToString pf (bn_y n + jdiv (height n) (Num 2)),
                   numToString pf (bn_x n - jdiv (width n) (Num 2)) @ str '',''
                     @ numToString pf (bn_y n)]
              @ str ''" fill="'' @ escaped (fill (nodeStyle n)) @ str ''" stroke="''
              @ (if sel = Some (bn_id n) then str ''#0f766e'' else str ''#111111'')
              @ str ''" stroke-width="''
              @ toFixed2 pf (if jgt (strokeWidth (nodeStyle n)) (Num 0)
                             then strokeWidth (nodeStyle n) else rs)
              @ str ''" />'',
              str ''<text class="label" x="'' @ numToString pf (bn_x n)
              @ str ''" y="'' @ numToString pf (bn_y n)
              @ str ''" fill="'' @ escaped (textColor (nodeStyle n)) @ str ''">''
              @ escaped (bn_name n) @ str ''</text>'',
              str ''</g>''])
    \<and> (e \<in> set (entities model) \<and> attr \<in> set (ent_attributes e) \<longrightarrow>
         (\<exists>a. Attribute a \<in> set (sc_nodes scene)
              \<and> an_id a = attr_id attr \<and> an_parentId a = ent_id e
              \<and> an_isPrimary a = attr_isPrimary attr
              \<and> an_label a = (if attr_isPrimary attr then attr_name attr @ str '' (PK)''
                               else attr_name attr)
              \<and> str ''<text class="''
                  @ (if attr_isPrimary attr then str ''attrLabel pk'' else str ''attrLabel'')
                  @ str ''" x="'' @ numToString pf (an_x a)
                  @ str ''" y="'' @ numToString pf (an_y a) @ str ''">''
                  @ escaped (if attr_isPrimary attr then attr_name attr @ str '' (PK)''
                             else attr_name attr)
                  @ str ''</text>'' \<in> set (renderLines pf model styleInput options)))\<close>
proof (intro conjI impI)
  show "escapeXml s = concat (map escapeChar s)" by (rule escapeXml_chars)
  show "escapeXml s = escaped s" by (rule escapeXml_escaped)
  show "set (escaped s) \<inter> {60, 62, 34, 39} = {}" by (rule escaped_reserved)
  show \<open>renderLines pf model styleInput options =
        headerLines pf \<lparr>sc_nodes = [], sc_nodeById = Map.empty, sc_edges = [],
          cardinalityLabels = [], sc_width = sc_width scene, sc_height = sc_height scene\<rparr>
          lw style
        @ concat (map (edgeLines pf (sc_nodeById scene)) (sc_edges scene))
        @ concat (map (cardinalityLines pf cardFont) (cardinalityLabels scene))
        @ concat (map (nodeLines pf selectedId stroke stroke) (sc_nodes scene))
        @ [str ''</svg>'']\<close>
    unfolding headerLines_scene [symmetric]
    unfolding renderLines_def Let_def scene_def style_def selectedId_def lw_def stroke_def
      cardFont_def
    by (rule refl)
next
  show \<open>edgeLines pf byId (EntityRelationship eid rid txt) =
        (case (byId eid, byId rid) of
           (Some e', Some r') \<Rightarrow>
             [str ''<line class="line edge-er" data-edge-type="entityRelationship" data-entity-id="''
              @ escaped eid @ str ''" data-relationship-id="'' @ escaped rid
              @ str ''" x1="'' @ numToString pf (nodeX e')
              @ str ''" y1="'' @ numToString pf (nodeY e')
              @ str ''" x2="'' @ numToString pf (nodeX r')
              @ str ''" y2="'' @ numToString pf (nodeY r') @ str ''" />'']
         | _ \<Rightarrow> [])\<close>
    unfolding edgeLines_def Edge.case escapeXml_escaped by (rule refl)
  show \<open>edgeLines pf byId (AttributeLink fromId toId) =
        (case (byId fromId, byId toId) of
           (Some f, Some t) \<Rightarrow>
             [str ''<line class="line edge-attr" data-edge-type="attributeLink" data-from-id="''
              @ escaped fromId @ str ''" data-to-id="'' @ escaped toId
              @ str ''" x1="'' @ numToString pf (nodeX f)
              @ str ''" y1="'' @ numToString pf (nodeY f)
              @ str ''" x2="'' @ numToString pf (nodeX t)
              @ str ''" y2="'' @ numToString pf (nodeY t) @ str ''" />'']
         | _ \<Rightarrow> [])\<close>
    unfolding edgeLines_def Edge.case escapeXml_escaped by (rule refl)
  show \<open>cardinalityLines pf font l =
        [str ''<rect x="''
         @ numToString pf (cl_x l
             - jdiv (Math_ceil (estimateTextWidth (cl_text l) font + Num 16)) (Num 2))
         @ str ''" y="'' @ numToString pf (cl_y l - Num 14)
         @ str ''" width="''
         @ numToString pf (Math_ceil (estimateTextWidth (cl_text l) font + Num 16))
         @ str ''" height="28" fill="#fff" />'',
         str ''<text class="card" x="'' @ numToString pf (cl_x l)
         @ str ''" y="'' @ numToString pf (cl_y l) @ str ''">''
         @ escaped (cl_text l) @ str ''</text>'']\<close>
    unfolding cardinalityLines_def Let_def escapeXml_escaped by (rule refl)
  show \<open>nodeLines pf sel es rs (Attribute a) =
        [str ''<g data-node-id="'' @ escaped (an_id a)
         @ str ''" data-node-type="attribute" data-parent-id="'' @ escaped (an_parentId a)
         @ str ''">'',
         str ''<ellipse class="attr" cx="'' @ numToString pf (an_x a)
         @ str ''" cy="'' @ numToString pf (an_y a)
         @ str ''" rx="'' @ numToString pf (an_rx a)
         @ str ''" ry="'' @ numToString pf (an_ry a) @ str ''" />'',
         str ''<text class="''
         @ (if an_isPrimary a then str ''attrLabel pk'' else str ''attrLabel'')
         @ str ''" x="'' @ numToString pf (an_x a)
         @ str ''" y="'' @ numToString pf (an_y a) @ str ''">''
         @ escaped (an_label a) @ str ''</text>'',
         str ''</g>'']\<close>
    unfolding nodeLines_def SceneNode.case attributeLines_def Let_def escapeXml_escaped
    by (rule refl)
  show \<open>nodeLines pf sel es rs (Backbone n) =
        (case bn_type n of
           entity \<Rightarrow>
             [str ''<g class="''
              @ (if sel = Some (bn_id n) then str ''selected-node'' else str ''normal-node'')
              @ str ''" data-node-id="'' @ escaped (bn_id n)
              @ str ''" data-node-type="entity" data-node-name="'' @ escaped (bn_name n)
              @ str ''">'',
              str ''<rect class="node-hit" x="''
              @ numToString pf (bn_x n - jdiv (width n) (Num 2) - Num 12)
              @ str ''" y="'' @ numToString pf (bn_y n - jdiv (height n) (Num 2) - Num 12)
              @ str ''" width="'' @ numToString pf (width n + Num 12 * Num 2)
              @ str ''" height="'' @ numToString pf (height n + Num 12 * Num 2)
              @ str ''" />'',
              str ''<rect class="''
              @ (if sel = Some (bn_id n) then str ''entity node-shape selected-shape''
                 else str ''entity node-shape'')
              @ str ''" x="'' @ numToString pf (bn_x n - jdiv (width n) (Num 2))
              @ str ''" y="'' @ numToString pf (bn_y n - jdiv (height n) (Num 2))
              @ str ''" width="'' @ numToString pf (width n)
              @ str ''" height="'' @ numToString pf (height n)
              @ str ''" fill="'' @ escaped (fill (nodeStyle n)) @ str ''" stroke="''
              @ (if sel = Some (bn_id n) then str ''#0f766e'' else str ''#111111'')
              @ str ''" stroke-width="''
              @ toFixed2 pf (if jgt (strokeWidth (nodeStyle n)) (Num 0)
                             then strokeWidth (nodeStyle n) else es)
              @ str ''" />'',
              str ''<text class="label" x="'' @ numToString pf (bn_x n)
              @ str ''" y="'' @ numToString pf (bn_y n)
              @ str ''" fill="'' @ escaped (textColor (nodeStyle n)) @ str ''">''
              @ escaped (bn_name n) @ str ''</text>'',
              str ''</g>'']
         | relationship \<Rightarrow>
             [str ''<g class="''
              @ (if sel = Some (bn_id n) then str ''selected-node'' else str ''normal-node'')
              @ str ''" data-node-id="'' @ escaped (bn_id n)
              @ str ''" data-node-type="relationship" data-node-name="''
              @ escaped (bn_name n) @ str ''">'',
              str ''<polygon class="node-hit" points="''
              @ join (str '' '')
                  [numToString pf (bn_x n) @ str '',''
                     @ numToString pf (bn_y n - jdiv (height n) (Num 2) - Num 12),
                   numToString pf (bn_x n + jdiv (width n) (Num 2) + Num 12) @ str '',''
                     @ numToString pf (bn_y n),
                   numToString pf (bn_x n) @ str '',''
                     @ numToString pf (bn_y n + jdiv (height n) (Num 2) + Num 12),
                   numToString pf (bn_x n - jdiv (width n) (Num 2) - Num 12) @ str '',''
                     @ numToString pf (bn_y n)]
              @ str ''" />'',
              str ''<polygon class="''
              @ (if sel = Some (bn_id n) then str ''relation node-shape selected-shape''
                 else str ''relation node-shape'')
              @ str ''" points="''
              @ join (str '' '')
                  [numToString pf (bn_x n) @ str '',''
                     @ numToString pf (bn_y n - jdiv (height n) (Num 2)),
                   numToString pf (bn_x n + jdiv (width n) (Num 2)) @ str '',''
                     @ numToString pf (bn_y n),
                   numToString pf (bn_x n) @ str '',''
                     @ numToString pf (bn_y n + jdiv (height n) (Num 2)),
                   numToString pf (bn_x n - jdiv (width n) (Num 2)) @ str '',''
                     @ numToString pf (bn_y n)]
              @ str ''" fill="'' @ escaped (fill (nodeStyle n)) @ str ''" stroke="''
              @ (if sel = Some (bn_id n) then str ''#0f766e'' else str ''#111111'')
              @ str ''" stroke-width="''
              @ toFixed2 pf (if jgt (strokeWidth (nodeStyle n)) (Num 0)
                             then strokeWidth (nodeStyle n) else rs)
              @ str ''" />'',
              str ''<text class="label" x="'' @ numToString pf (bn_x n)
              @ str ''" y="'' @ numToString pf (bn_y n)
              @ str ''" fill="'' @ escaped (textColor (nodeStyle n)) @ str ''">''
              @ escaped (bn_name n) @ str ''</text>'',
              str ''</g>''])\<close>
    unfolding nodeLines_def SceneNode.case entityLines_def relationshipLines_def Let_def
      escapeXml_escaped
    by (rule refl)
next
  assume "e \<in> set (entities model) \<and> attr \<in> set (ent_attributes e)"
  then obtain a where a: "Attribute a \<in> set (sc_nodes scene)"
    and info: "attributeInfo a
      = (attr_id attr, ent_id e, attributeLabel attr, attr_isPrimary attr)"
    unfolding scene_def using scene_attribute_of_entity by blast
  from info have fields: "an_id a = attr_id attr" "an_parentId a = ent_id e"
    "an_isPrimary a = attr_isPrimary attr"
    "an_label a = (if attr_isPrimary attr then attr_name attr @ str '' (PK)''
                   else attr_name attr)"
    by (simp_all add: attributeInfo_def attributeLabel_def)
  from a have \<open>str ''<text class="''
         @ (if an_isPrimary a then str ''attrLabel pk'' else str ''attrLabel'')
         @ str ''" x="'' @ numToString pf (an_x a) @ str ''" y="'' @ numToString pf (an_y a)
         @ str ''">'' @ escapeXml (an_label a) @ str ''</text>''
         \<in> set (renderLines pf model styleInput options)\<close>
    unfolding scene_def style_def by (rule attribute_line_in_doc)
  then have \<open>str ''<text class="''
         @ (if attr_isPrimary attr then str ''attrLabel pk'' else str ''attrLabel'')
         @ str ''" x="'' @ numToString pf (an_x a) @ str ''" y="'' @ numToString pf (an_y a)
         @ str ''">''
         @ escaped (if attr_isPrimary attr then attr_name attr @ str '' (PK)''
                    else attr_name attr)
         @ str ''</text>'' \<in> set (renderLines pf model styleInput options)\<close>
    by (simp only: fields escapeXml_escaped)
  with a fields show \<open>\<exists>a. Attribute a \<in> set (sc_nodes scene)
              \<and> an_id a = attr_id attr \<and> an_parentId a = ent_id e
              \<and> an_isPrimary a = attr_isPrimary attr
              \<and> an_label a = (if attr_isPrimary attr then attr_name attr @ str '' (PK)''
                               else attr_name attr)
              \<and> str ''<text class="''
                  @ (if attr_isPrimary attr then str ''attrLabel pk'' else str ''attrLabel'')
                  @ str ''" x="'' @ numToString pf (an_x a)
                  @ str ''" y="'' @ numToString pf (an_y a) @ str ''">''
                  @ escaped (if attr_isPrimary attr then attr_name attr @ str '' (PK)''
                             else attr_name attr)
                  @ str ''</text>'' \<in> set (renderLines pf model styleInput options)\<close>
    by (intro exI [of _ a] conjI)
qed

theorem label_text_escaped_witness:
  \<open>\<forall>print fixed.
     scriptModel =
       \<lparr>entities =
          [\<lparr>ent_id = str ''e'', ent_name = str ''e'',
            ent_attributes =
              [\<lparr>attr_id = str ''a'', attr_name = str ''<script>&"'' @ [39],
                attr_isPrimary = False\<rparr>]\<rparr>],
        relationships = []\<rparr>
     \<and> escapeXml (str ''<script>&"'' @ [39]) = str ''&lt;script&gt;&amp;&quot;&apos;''
     \<and> (\<exists>a. Attribute a \<in> set (sc_nodes (computeScene codeUnitCompare scriptModel
                   DEFAULT_CHEN_STYLE Map.empty))
            \<and> an_label a = str ''<script>&"'' @ [39]
            \<and> str ''<text class="attrLabel" x="'' @ print (an_x a) @ str ''" y="''
                @ print (an_y a) @ str ''">&lt;script&gt;&amp;&quot;&apos;</text>''
                \<in> set (renderLines (examplePlatform print fixed) scriptModel emptyStyle
                         noOptions))\<close>
  (is "\<forall>print fixed. ?P print fixed")
proof (intro allI)
  fix print fixed :: "jsnum \<Rightarrow> jsstring"
  define pf where "pf = examplePlatform print fixed"
  define scriptAttr where \<open>scriptAttr =
     \<lparr>attr_id = str ''a'', attr_name = str ''<script>&"'' @ [39], attr_isPrimary = False\<rparr>\<close>
  define scriptEntity where "scriptEntity =
     \<lparr>ent_id = str ''e'', ent_name = str ''e'', ent_attributes = [scriptAttr]\<rparr>"
  have pf: "collate pf = codeUnitCompare" "numToString pf = print"
    by (simp_all add: pf_def examplePlatform_def)
  have opts: "(case nodeOverrides noOptions of None \<Rightarrow> Map.empty | Some m \<Rightarrow> m) = Map.empty"
    by (simp add: noOptions_def)
  have e: "scriptEntity \<in> set (entities scriptModel)
           \<and> scriptAttr \<in> set (ent_attributes scriptEntity)"
    by (simp add: scriptModel_def scriptEntity_def scriptAttr_def)
  note script = label_text_escaped [where pf = pf and model = scriptModel
      and styleInput = emptyStyle and options = noOptions and e = scriptEntity
      and attr = scriptAttr and s = \<open>str ''<script>&"'' @ [39]\<close>]
  have c0: \<open>scriptModel =
       \<lparr>entities =
          [\<lparr>ent_id = str ''e'', ent_name = str ''e'',
            ent_attributes =
              [\<lparr>attr_id = str ''a'', attr_name = str ''<script>&"'' @ [39],
                attr_isPrimary = False\<rparr>]\<rparr>],
        relationships = []\<rparr>\<close>
    by (rule scriptModel_def)
  have c1: \<open>escapeXml (str ''<script>&"'' @ [39]) = str ''&lt;script&gt;&amp;&quot;&apos;''\<close>
    using script [THEN conjunct1] by (simp add: escapeChar_def str_def)
  have esc: \<open>escaped (str ''<script>&"'' @ [39]) = str ''&lt;script&gt;&amp;&quot;&apos;''\<close>
    using c1 by (simp only: escapeXml_escaped)
  from script [THEN conjunct2, THEN conjunct2, THEN conjunct2, THEN conjunct2, THEN conjunct2,
      THEN conjunct2, THEN conjunct2, THEN conjunct2, THEN conjunct2, rule_format, OF e]
  obtain a where a: "Attribute a \<in> set (sc_nodes (computeScene (collate pf) scriptModel
        (normalizeStyle emptyStyle)
        (case nodeOverrides noOptions of None \<Rightarrow> Map.empty | Some m \<Rightarrow> m)))"
    and lbl: \<open>an_label a = (if attr_isPrimary scriptAttr
        then attr_name scriptAttr @ str '' (PK)'' else attr_name scriptAttr)\<close>
    and line: \<open>str ''<text class="''
        @ (if attr_isPrimary scriptAttr then str ''attrLabel pk'' else str ''attrLabel'')
        @ str ''" x="'' @ numToString pf (an_x a)
        @ str ''" y="'' @ numToString pf (an_y a) @ str ''">''
        @ escaped (if attr_isPrimary scriptAttr then attr_name scriptAttr @ str '' (PK)''
                   else attr_name scriptAttr)
        @ str ''</text>'' \<in> set (renderLines pf scriptModel emptyStyle noOptions)\<close>
    by blast
  have pk: "attr_isPrimary scriptAttr = False" and name: \<open>attr_name scriptAttr = str ''<script>&"'' @ [39]\<close>
    by (simp_all add: scriptAttr_def)
  from a have a': "Attribute a \<in> set (sc_nodes (computeScene codeUnitCompare scriptModel
                   DEFAULT_CHEN_STYLE Map.empty))"
    by (simp only: pf opts normalizeStyle_emptyStyle)
  from lbl have lbl': \<open>an_label a = str ''<script>&"'' @ [39]\<close>
    by (simp only: pk name if_False)
  from line have line': \<open>str ''<text class="attrLabel" x="'' @ print (an_x a) @ str ''" y="''
                @ print (an_y a) @ str ''">&lt;script&gt;&amp;&quot;&apos;</text>''
                \<in> set (renderLines pf scriptModel emptyStyle noOptions)\<close>
    unfolding pk name if_False esc pf by (simp add: str_def)
  from a' lbl' line' have c2: \<open>\<exists>a. Attribute a \<in> set (sc_nodes (computeScene codeUnitCompare
                   scriptModel DEFAULT_CHEN_STYLE Map.empty))
            \<and> an_label a = str ''<script>&"'' @ [39]
            \<and> str ''<text class="attrLabel" x="'' @ print (an_x a) @ str ''" y="''
                @ print (an_y a) @ str ''">&lt;script&gt;&amp;&quot;&apos;</text>''
                \<in> set (renderLines pf scriptModel emptyStyle noOptions)\<close>
    by blast
  show "?P print fixed"
    unfolding pf_def [symmetric] by (intro conjI c0 c1 c2)
qed

subsection \<open>The edges of a model\<close>

lemma map_bn_id_buildNodes:
  "map bn_id (buildNodes model style overrides)
   = map ent_id (entities model) @ map rel_id (relationships model)"
  by (simp add: buildNodes_def makeEntityNode_def makeRelationshipNode_def assignEnvelope_def
      Let_def comp_def split: prod.splits)

lemma bn_id_buildNodes: "bn_id ` set (buildNodes model style overrides) = nodeIds model"
proof -
  have "bn_id ` set (buildNodes model style overrides)
        = set (map bn_id (buildNodes model style overrides))" by simp
  then show ?thesis by (simp only: map_bn_id_buildNodes nodeIds_def set_append set_map)
qed

lemma addEndpoint_indexById:
  "addEndpoint nodes (indexById nodes) rn (adj, edges) ep =
     (let new = (if entityId ep \<in> bn_id ` set nodes
                 then [EntityRelationship (entityId ep) (bn_id (nodes ! rn))
                         (if cardinality ep = [] then str ''N'' else cardinality ep)]
                 else [])
      in (foldl linkEdge adj new, edges @ new))"
proof (cases "indexById nodes (entityId ep)")
  case None
  then show ?thesis by (simp add: addEndpoint_def indexById_None [symmetric])
next
  case (Some i)
  then have "bn_id (nodes ! i) = entityId ep" by (simp add: indexById_Some)
  moreover from Some have "entityId ep \<in> bn_id ` set nodes"
    using indexById_None [of nodes "entityId ep"] by simp
  ultimately show ?thesis using Some by (simp add: addEndpoint_def linkEdge_def)
qed

lemma foldl_addEndpoint:
  "foldl (addEndpoint nodes (indexById nodes) rn) (adj, edges) eps =
     (let new = map (\<lambda>ep. EntityRelationship (entityId ep) (bn_id (nodes ! rn))
                         (if cardinality ep = [] then str ''N'' else cardinality ep))
                  (filter (\<lambda>ep. entityId ep \<in> bn_id ` set nodes) eps)
      in (foldl linkEdge adj new, edges @ new))"
proof (induction eps arbitrary: adj edges)
  case Nil
  show ?case by simp
next
  case (Cons ep eps)
  show ?case
    by (simp only: foldl_Cons addEndpoint_indexById Let_def Cons.IH) simp
qed

lemma addRelationship_indexById:
  assumes "rel_id r \<in> bn_id ` set nodes"
  shows "addRelationship nodes (indexById nodes) (adj, edges) r =
     (foldl linkEdge adj (endpointEdges (bn_id ` set nodes) r),
      edges @ endpointEdges (bn_id ` set nodes) r)"
proof -
  from assms obtain rn where rn: "indexById nodes (rel_id r) = Some rn"
    using indexById_None [of nodes "rel_id r"] by auto
  then have "bn_id (nodes ! rn) = rel_id r" by (simp add: indexById_Some)
  moreover have "endpointEdge r = (\<lambda>ep. EntityRelationship (entityId ep) (rel_id r)
      (if cardinality ep = [] then str ''N'' else cardinality ep))"
    by (simp add: fun_eq_iff endpointEdge_def)
  ultimately show ?thesis using rn
    by (simp add: addRelationship_def foldl_addEndpoint endpointEdges_def Let_def)
qed

lemma foldl_addRelationship:
  assumes "\<forall>r \<in> set rels. rel_id r \<in> bn_id ` set nodes"
  shows "foldl (addRelationship nodes (indexById nodes)) (adj, edges) rels =
     (foldl linkEdge adj (concat (map (endpointEdges (bn_id ` set nodes)) rels)),
      edges @ concat (map (endpointEdges (bn_id ` set nodes)) rels))"
  using assms
proof (induction rels arbitrary: adj edges)
  case Nil
  show ?case by simp
next
  case (Cons r rels)
  from Cons.prems have r: "rel_id r \<in> bn_id ` set nodes"
    and rels: "\<forall>r \<in> set rels. rel_id r \<in> bn_id ` set nodes" by simp_all
  show ?case
    by (simp only: foldl_Cons addRelationship_indexById [OF r] Cons.IH [OF rels]) simp
qed

lemma buildEdges_model:
  "buildEdges model (buildNodes model style overrides) =
     (foldl linkEdge (emptyAdjacency (buildNodes model style overrides)) (modelEdges model),
      modelEdges model)"
proof -
  have "\<forall>r \<in> set (relationships model).
          rel_id r \<in> bn_id ` set (buildNodes model style overrides)"
    by (simp add: bn_id_buildNodes nodeIds_def)
  then show ?thesis
    unfolding buildEdges_def modelEdges_def
    by (simp only: foldl_addRelationship bn_id_buildNodes) simp
qed

subsection \<open>The adjacency of a model\<close>

lemma map_of_foldl_update:
  "map_of (foldl (\<lambda>adj node. AList.update (bn_id node) [] adj) adj nodes) k
   = (if k \<in> bn_id ` set nodes then Some [] else map_of adj k)"
proof (induction nodes arbitrary: adj)
  case Nil
  show ?case by simp
next
  case (Cons node nodes)
  show ?case by (simp add: Cons.IH update_conv')
qed

lemma map_of_emptyAdjacency:
  "map_of (emptyAdjacency nodes) k = (if k \<in> bn_id ` set nodes then Some [] else None)"
  by (simp add: emptyAdjacency_def map_of_foldl_update)

lemma dom_addNeighbor: "dom (map_of (addNeighbor k v adj)) = dom (map_of adj)"
  by (auto simp add: addNeighbor_def map_of_map_entry split: option.splits if_splits)

lemma neighborsOf_addNeighbor:
  "set (neighborsOf (addNeighbor k v adj) a)
   = (if a = k \<and> k \<in> dom (map_of adj) then insert v (set (neighborsOf adj a))
      else set (neighborsOf adj a))"
  by (auto simp add: addNeighbor_def neighborsOf_def map_of_map_entry split: option.splits)

lemma dom_linkEdge: "dom (map_of (linkEdge adj edge)) = dom (map_of adj)"
  by (cases edge) (simp_all add: linkEdge_def dom_addNeighbor)

lemma neighborsOf_linkEdge:
  assumes "e \<in> dom (map_of adj)" and "r \<in> dom (map_of adj)"
  shows "set (neighborsOf (linkEdge adj (EntityRelationship e r c)) a)
         = set (neighborsOf adj a) \<union> (if a = e then {r} else {}) \<union> (if a = r then {e} else {})"
  using assms by (auto simp add: linkEdge_def neighborsOf_addNeighbor dom_addNeighbor)

lemma neighborsOf_foldl_linkEdge:
  assumes "\<forall>edge \<in> set edges. \<exists>e r c. edge = EntityRelationship e r c
             \<and> e \<in> dom (map_of adj) \<and> r \<in> dom (map_of adj)"
  shows "set (neighborsOf (foldl linkEdge adj edges) a)
         = set (neighborsOf adj a)
           \<union> {b. \<exists>c. EntityRelationship a b c \<in> set edges
                    \<or> EntityRelationship b a c \<in> set edges}"
  using assms
proof (induction edges arbitrary: adj)
  case Nil
  show ?case by simp
next
  case (Cons edge edges)
  from Cons.prems obtain e r c where edge: "edge = EntityRelationship e r c"
    and dom: "e \<in> dom (map_of adj)" "r \<in> dom (map_of adj)" by auto
  from Cons.prems have "\<forall>edge' \<in> set edges. \<exists>e r c. edge' = EntityRelationship e r c
      \<and> e \<in> dom (map_of (linkEdge adj edge)) \<and> r \<in> dom (map_of (linkEdge adj edge))"
    by (simp add: dom_linkEdge)
  from Cons.IH [OF this]
  have "set (neighborsOf (foldl linkEdge adj (edge # edges)) a)
        = set (neighborsOf (linkEdge adj edge) a)
          \<union> {b. \<exists>c. EntityRelationship a b c \<in> set edges
                   \<or> EntityRelationship b a c \<in> set edges}"
    by simp
  also have "set (neighborsOf (linkEdge adj edge) a)
        = set (neighborsOf adj a) \<union> (if a = e then {r} else {}) \<union> (if a = r then {e} else {})"
    unfolding edge by (rule neighborsOf_linkEdge [OF dom])
  finally show ?case unfolding edge by auto
qed

lemma modelEdges_ids:
  assumes "edge \<in> set (modelEdges model)"
  shows "\<exists>r \<in> set (relationships model). \<exists>ep \<in> set (rel_endpoints r).
           edge = endpointEdge r ep \<and> entityId ep \<in> nodeIds model"
  using assms by (auto simp add: modelEdges_def endpointEdges_def)

lemma neighborsOf_emptyAdjacency: "neighborsOf (emptyAdjacency nodes) a = []"
  by (simp add: neighborsOf_def map_of_emptyAdjacency)

lemma dom_emptyAdjacency: "dom (map_of (emptyAdjacency nodes)) = bn_id ` set nodes"
  by (auto simp add: map_of_emptyAdjacency dom_def)

lemma model_adjacency:
  "set (neighborsOf (fst (buildEdges model (buildNodes model style overrides))) a)
   = {b. \<exists>c. EntityRelationship a b c \<in> set (modelEdges model)
            \<or> EntityRelationship b a c \<in> set (modelEdges model)}"
proof -
  let ?nodes = "buildNodes model style overrides"
  have "\<forall>edge \<in> set (modelEdges model). \<exists>e r c. edge = EntityRelationship e r c
          \<and> e \<in> dom (map_of (emptyAdjacency ?nodes)) \<and> r \<in> dom (map_of (emptyAdjacency ?nodes))"
  proof
    fix edge
    assume "edge \<in> set (modelEdges model)"
    then obtain r ep where "r \<in> set (relationships model)" "edge = endpointEdge r ep"
      "entityId ep \<in> nodeIds model"
      using modelEdges_ids by blast
    then show "\<exists>e r c. edge = EntityRelationship e r c
          \<and> e \<in> dom (map_of (emptyAdjacency ?nodes)) \<and> r \<in> dom (map_of (emptyAdjacency ?nodes))"
      by (simp add: endpointEdge_def dom_emptyAdjacency bn_id_buildNodes) (simp add: nodeIds_def)
  qed
  from neighborsOf_foldl_linkEdge [OF this, of a] show ?thesis
    by (simp add: buildEdges_model neighborsOf_emptyAdjacency)
qed

subsection \<open>The cardinality labels of a model\<close>

lemma layout_edges:
  "snd (snd (buildBackboneLayout cmp model style overrides)) = modelEdges model"
  by (simp add: buildBackboneLayout_def Let_def buildEdges_model)

lemma dom_sceneNodeById: "dom (sceneNodeById nodes) = nodeId ` set nodes"
  by (simp add: sceneNodeById_def dom_map_of_conv_image_fst image_image)

lemma nodeId_shiftNode: "nodeId (shiftNode sx sy node) = nodeId node"
  by (cases node) simp_all

lemma scene_nodeById:
  "sc_nodeById (computeScene cmp model style overrides)
   = sceneNodeById (sc_nodes (computeScene cmp model style overrides))"
  by (simp add: computeScene_def Let_def split: prod.splits)

lemma scene_ids: "nodeIds model \<subseteq> dom (sc_nodeById (computeScene cmp model style overrides))"
proof -
  let ?layout = "buildBackboneLayout cmp model style overrides"
  obtain sx sy where nodes: "sc_nodes (computeScene cmp model style overrides) =
     map (shiftNode sx sy) (map Backbone (fst ?layout)
        @ map Attribute (fst (placeAttributeNodes ?layout style)))"
    using scene_nodes by blast
  have "nodeIds model = bn_id ` set (map unplaced (fst ?layout))"
    by (simp only: layout_moves_only bn_id_buildNodes)
  also have "\<dots> = bn_id ` set (fst ?layout)"
    by (simp add: image_image unplaced_def)
  also have "\<dots> \<subseteq> nodeId ` set (sc_nodes (computeScene cmp model style overrides))"
    unfolding nodes by (auto simp add: image_image nodeId_shiftNode image_Un)
  finally show ?thesis by (simp only: scene_nodeById dom_sceneNodeById)
qed

lemma label_texts:
  assumes "\<forall>edge \<in> set es. \<exists>e r c. edge = EntityRelationship e r c
             \<and> e \<in> dom byId \<and> r \<in> dom byId"
      and "\<forall>edge \<in> set links. \<exists>f t. edge = AttributeLink f t"
  shows "map cl_text (concat (map (cardinalityLabel byId) (es @ links))) = map edgeText es"
proof -
  have "concat (map (cardinalityLabel byId) links) = []"
    using assms(2) by (auto simp add: cardinalityLabel_def)
  moreover have "map cl_text (concat (map (cardinalityLabel byId) es)) = map edgeText es"
    using assms(1)
  proof (induction es)
    case Nil
    show ?case by simp
  next
    case (Cons edge es)
    from Cons.prems obtain e r c where "edge = EntityRelationship e r c"
      "e \<in> dom byId" "r \<in> dom byId" by auto
    then have "map cl_text (cardinalityLabel byId edge) = [edgeText edge]"
      by (auto simp add: cardinalityLabel_def)
    with Cons show ?case by simp
  qed
  ultimately show ?thesis by simp
qed

lemma scene_label_texts:
  "map cl_text (cardinalityLabels (computeScene cmp model style overrides))
   = map edgeText (modelEdges model)"
proof -
  let ?scene = "computeScene cmp model style overrides"
  let ?layout = "buildBackboneLayout cmp model style overrides"
  obtain nodes nodeById edges where layout: "?layout = (nodes, nodeById, edges)"
    by (cases ?layout)
  have edges: "\<forall>edge \<in> set (modelEdges model). \<exists>e r c. edge = EntityRelationship e r c
          \<and> e \<in> dom (sc_nodeById ?scene) \<and> r \<in> dom (sc_nodeById ?scene)"
  proof
    fix edge
    assume "edge \<in> set (modelEdges model)"
    then obtain r ep where "r \<in> set (relationships model)" "edge = endpointEdge r ep"
      "entityId ep \<in> nodeIds model"
      using modelEdges_ids by blast
    moreover from this(1) have "rel_id r \<in> nodeIds model" by (simp add: nodeIds_def)
    ultimately show "\<exists>e r c. edge = EntityRelationship e r c
          \<and> e \<in> dom (sc_nodeById ?scene) \<and> r \<in> dom (sc_nodeById ?scene)"
      using scene_ids [of model cmp style overrides] by (auto simp add: endpointEdge_def)
  qed
  have links: "\<forall>edge \<in> set (snd (placeAttributeNodes ?layout style)). \<exists>f t. edge = AttributeLink f t"
    unfolding layout by (auto simp add: placeAttributeNodes_info)
  have "cardinalityLabels ?scene
        = concat (map (cardinalityLabel (sc_nodeById ?scene))
            (modelEdges model @ snd (placeAttributeNodes ?layout style)))"
    by (simp only: scene_labels scene_edges layout_edges)
  with label_texts [OF edges links] show ?thesis by simp
qed

text \<open>
  C6 (as the code has it). An endpoint is looked up among all the backbone nodes, entities
  and relationships alike. The edges are those of the endpoints whose id is the id of a
  node, in the order of the model; the neighbours of an id are the other ends of its
  edges; the cardinality labels are those of the edges. An endpoint whose id is no id of a
  node gives no edge and no adjacency link, and its id has no neighbour; an endpoint whose
  id is the id of a node gives its edge and its two adjacency links.
\<close>

theorem unmatched_endpoints_dropped:
  fixes model :: ChenModel and style :: ChenStyle and overrides :: ChenNodeStyleOverrides
  defines "built \<equiv> buildEdges model (buildNodes model style overrides)"
  shows "snd built = modelEdges model
    \<and> snd (snd (buildBackboneLayout cmp model style overrides)) = modelEdges model
    \<and> set (neighborsOf (fst built) a)
        = {b. \<exists>c. EntityRelationship a b c \<in> set (snd built)
                 \<or> EntityRelationship b a c \<in> set (snd built)}
    \<and> map cl_text (cardinalityLabels (computeScene cmp model style overrides))
        = map edgeText (snd built)
    \<and> (r \<in> set (relationships model) \<and> ep \<in> set (rel_endpoints r)
         \<and> entityId ep \<notin> nodeIds model \<longrightarrow>
           (\<forall>b c. EntityRelationship (entityId ep) b c \<notin> set (snd built)
                  \<and> EntityRelationship b (entityId ep) c \<notin> set (snd built))
           \<and> (\<forall>b. entityId ep \<notin> set (neighborsOf (fst built) b))
           \<and> neighborsOf (fst built) (entityId ep) = [])
    \<and> (r' \<in> set (relationships model) \<and> ep' \<in> set (rel_endpoints r')
         \<and> entityId ep' \<in> nodeIds model \<longrightarrow>
           endpointEdge r' ep' \<in> set (snd built)
           \<and> entityId ep' \<in> set (neighborsOf (fst built) (rel_id r'))
           \<and> rel_id r' \<in> set (neighborsOf (fst built) (entityId ep')))"
proof -
  have edges: "snd built = modelEdges model"
    by (simp add: built_def buildEdges_model)
  have adj: "set (neighborsOf (fst built) a)
        = {b. \<exists>c. EntityRelationship a b c \<in> set (modelEdges model)
                 \<or> EntityRelationship b a c \<in> set (modelEdges model)}" for a
    unfolding built_def by (rule model_adjacency)
  have ids: "e \<in> nodeIds model \<and> r \<in> nodeIds model"
    if "EntityRelationship e r c \<in> set (modelEdges model)" for e r c
  proof -
    from modelEdges_ids [OF that] obtain r0 ep0 where
      "r0 \<in> set (relationships model)" "EntityRelationship e r c = endpointEdge r0 ep0"
      "entityId ep0 \<in> nodeIds model" by blast
    then show ?thesis by (auto simp add: endpointEdge_def nodeIds_def)
  qed
  have dropped: "(\<forall>b c. EntityRelationship (entityId ep) b c \<notin> set (snd built)
                  \<and> EntityRelationship b (entityId ep) c \<notin> set (snd built))
           \<and> (\<forall>b. entityId ep \<notin> set (neighborsOf (fst built) b))
           \<and> neighborsOf (fst built) (entityId ep) = []"
    if "entityId ep \<notin> nodeIds model"
  proof -
    from that ids have none: "EntityRelationship (entityId ep) b c \<notin> set (modelEdges model)"
      "EntityRelationship b (entityId ep) c \<notin> set (modelEdges model)" for b c
      by blast+
    then have "set (neighborsOf (fst built) (entityId ep)) = {}"
      "entityId ep \<notin> set (neighborsOf (fst built) b)" for b
      by (simp_all add: adj)
    with none show ?thesis by (simp add: edges)
  qed
  have kept: "endpointEdge r' ep' \<in> set (snd built)
           \<and> entityId ep' \<in> set (neighborsOf (fst built) (rel_id r'))
           \<and> rel_id r' \<in> set (neighborsOf (fst built) (entityId ep'))"
    if "r' \<in> set (relationships model)" "ep' \<in> set (rel_endpoints r')"
       "entityId ep' \<in> nodeIds model"
  proof -
    from that have "endpointEdge r' ep' \<in> set (modelEdges model)"
      by (auto simp add: modelEdges_def endpointEdges_def)
    moreover from this have "\<exists>c. EntityRelationship (entityId ep') (rel_id r') c
        \<in> set (modelEdges model)"
      unfolding endpointEdge_def by (rule exI)
    ultimately show ?thesis by (auto simp add: edges adj)
  qed
  show ?thesis
    apply (intro conjI impI)
                apply (rule edges)
               apply (rule layout_edges)
              apply (simp only: adj edges)
             apply (simp only: edges scene_label_texts)
           apply (simp add: dropped)
          apply (simp add: dropped)
         apply (simp add: dropped)
        apply (simp add: kept)
       apply (simp add: kept)
      apply (simp add: kept)
    done
qed

theorem unmatched_endpoints_dropped_witness:
  "(let built = buildEdges ghostModel (buildNodes ghostModel DEFAULT_CHEN_STYLE Map.empty)
    in snd built = [EntityRelationship (str ''a'') (str ''r'') (str ''1'')]
     \<and> set (neighborsOf (fst built) (str ''a'')) = {str ''r''}
     \<and> set (neighborsOf (fst built) (str ''r'')) = {str ''a''}
     \<and> neighborsOf (fst built) (str ''ghost'') = []
     \<and> EntityRelationship (str ''a'') (str ''r'') (str ''1'') \<in> set (snd built)
     \<and> map cl_text (cardinalityLabels
           (computeScene codeUnitCompare ghostModel DEFAULT_CHEN_STYLE Map.empty)) = [str ''1''])"
proof -
  define r where "r = \<lparr>rel_id = str ''r'', rel_name = str ''r'',
          rel_endpoints =
            [\<lparr>entityId = str ''a'', cardinality = str ''1''\<rparr>,
             \<lparr>entityId = str ''ghost'', cardinality = str ''N''\<rparr>],
          rel_attributes = []\<rparr>"
  define ghost where "ghost = \<lparr>entityId = str ''ghost'', cardinality = str ''N''\<rparr>"
  define matched where "matched = \<lparr>entityId = str ''a'', cardinality = str ''1''\<rparr>"
  define built where
    "built = buildEdges ghostModel (buildNodes ghostModel DEFAULT_CHEN_STYLE Map.empty)"
  have ids: "nodeIds ghostModel = {str ''a'', str ''r''}"
    by (auto simp add: nodeIds_def ghostModel_def)
  have edges: "modelEdges ghostModel = [EntityRelationship (str ''a'') (str ''r'') (str ''1'')]"
    unfolding modelEdges_def ids
    by (simp add: endpointEdges_def endpointEdge_def ghostModel_def str_def)
  have dropped: "r \<in> set (relationships ghostModel) \<and> ghost \<in> set (rel_endpoints r)
      \<and> entityId ghost \<notin> nodeIds ghostModel"
    by (simp add: ids) (simp add: ghostModel_def r_def ghost_def str_def)
  have kept: "r \<in> set (relationships ghostModel) \<and> matched \<in> set (rel_endpoints r)
      \<and> entityId matched \<in> nodeIds ghostModel"
    by (simp add: ids) (simp add: ghostModel_def r_def matched_def)
  note fact = unmatched_endpoints_dropped [where model = ghostModel
      and style = DEFAULT_CHEN_STYLE and overrides = Map.empty and cmp = codeUnitCompare
      and r = r and ep = ghost and r' = r and ep' = matched, folded built_def]
  have c1: "snd built = [EntityRelationship (str ''a'') (str ''r'') (str ''1'')]"
    using fact [THEN conjunct1] by (simp only: edges)
  have c2: "set (neighborsOf (fst built) (str ''a'')) = {str ''r''}"
    using fact [where a = "str ''a''", THEN conjunct2, THEN conjunct2, THEN conjunct1]
    by (simp add: c1) (auto simp add: str_def)
  have c3: "set (neighborsOf (fst built) (str ''r'')) = {str ''a''}"
    using fact [where a = "str ''r''", THEN conjunct2, THEN conjunct2, THEN conjunct1]
    by (simp add: c1) (auto simp add: str_def)
  have c4: "neighborsOf (fst built) (str ''ghost'') = []"
    using fact [THEN conjunct2, THEN conjunct2, THEN conjunct2, THEN conjunct2, THEN conjunct1,
        rule_format, OF dropped]
    by (simp add: ghost_def)
  have c5: "map cl_text (cardinalityLabels
           (computeScene codeUnitCompare ghostModel DEFAULT_CHEN_STYLE Map.empty)) = [str ''1'']"
    using fact [THEN conjunct2, THEN conjunct2, THEN conjunct2, THEN conjunct1]
    by (simp add: c1)
  have c6: "EntityRelationship (str ''a'') (str ''r'') (str ''1'') \<in> set (snd built)"
    using fact [THEN conjunct2, THEN conjunct2, THEN conjunct2, THEN conjunct2, THEN conjunct2,
        rule_format, OF kept, THEN conjunct1]
    by (simp add: endpointEdge_def r_def matched_def str_def)
  show ?thesis
    unfolding Let_def built_def [symmetric] by (intro conjI c1 c2 c3 c4 c6 c5)
qed

text \<open>
  Without any entity, the endpoint of \<open>r2\<close> that names the relationship \<open>r1\<close> gives an
  edge, two adjacency links and a cardinality label.
\<close>

theorem entity_match_counterexample:
  "entities danglingModel = []
   \<and> map rel_endpoints (relationships danglingModel)
       = [[], [\<lparr>entityId = str ''r1'', cardinality = str ''1''\<rparr>]]
   \<and> buildEdges danglingModel (buildNodes danglingModel DEFAULT_CHEN_STYLE Map.empty)
       = ([(str ''r1'', [str ''r2'']), (str ''r2'', [str ''r1''])],
          [EntityRelationship (str ''r1'') (str ''r2'') (str ''1'')])
   \<and> map cl_text (cardinalityLabels
         (computeScene codeUnitCompare danglingModel DEFAULT_CHEN_STYLE Map.empty)) = [str ''1'']"
proof (intro conjI)
  show "entities danglingModel = []" by (simp add: danglingModel_def)
  show "map rel_endpoints (relationships danglingModel)
       = [[], [\<lparr>entityId = str ''r1'', cardinality = str ''1''\<rparr>]]"
    by (simp add: danglingModel_def)
  show "buildEdges danglingModel (buildNodes danglingModel DEFAULT_CHEN_STYLE Map.empty)
       = ([(str ''r1'', [str ''r2'']), (str ''r2'', [str ''r1''])],
          [EntityRelationship (str ''r1'') (str ''r2'') (str ''1'')])"
    by (simp only: dangling_nodes dangling_edges danglingAdjacency_def danglingEdges_def)
  have "snd (buildEdges danglingModel (buildNodes danglingModel DEFAULT_CHEN_STYLE Map.empty))
        = modelEdges danglingModel"
    by (simp add: buildEdges_model)
  then have "modelEdges danglingModel = danglingEdges"
    by (simp only: dangling_nodes dangling_edges snd_conv)
  then show "map cl_text (cardinalityLabels
         (computeScene codeUnitCompare danglingModel DEFAULT_CHEN_STYLE Map.empty)) = [str ''1'']"
    by (simp add: scene_label_texts danglingEdges_def)
qed

subsection \<open>The breadth-first walks\<close>

text \<open>
  C9. The walk of a connected component and the walk that assigns the depths terminate on
  every adjacency, queue and state. The neighbours that one step enqueues are distinct, were
  not yet marked, and are marked from then on; so taking an id from the queue and visiting
  its neighbours decreases twice the number of unmarked ids plus the length of the queue.
\<close>

theorem walks_terminate:
  "componentWalk_dom (adj, byId, visited, queue, component)
   \<and> depthWalk_dom (adj, depth, queue)
   \<and> (\<exists>new. visitNeighbors ns (visited, queue) = (visited \<union> set new, queue @ new)
          \<and> distinct new \<and> set new \<inter> visited = {} \<and> set new \<subseteq> set ns)
   \<and> (\<exists>new. snd (assignNeighbors ns d (depth, queue)) = queue @ new
          \<and> dom (fst (assignNeighbors ns d (depth, queue))) = dom depth \<union> set new
          \<and> distinct new \<and> set new \<inter> dom depth = {} \<and> set new \<subseteq> set ns)
   \<and> 2 * card (adjacencyIds adj
                  - fst (visitNeighbors (neighborsOf adj ident) (visited, queue)))
       + length (snd (visitNeighbors (neighborsOf adj ident) (visited, queue)))
       < 2 * card (adjacencyIds adj - visited) + length (ident # queue)
   \<and> 2 * card (adjacencyIds adj
                  - dom (fst (assignNeighbors (neighborsOf adj ident) d (depth, queue))))
       + length (snd (assignNeighbors (neighborsOf adj ident) d (depth, queue)))
       < 2 * card (adjacencyIds adj - dom depth) + length (ident # queue)"
proof (intro conjI)
  show "componentWalk_dom (adj, byId, visited, queue, component)"
    by (rule componentWalk_total)
  show "depthWalk_dom (adj, depth, queue)"
    by (rule depthWalk_total)
  show "\<exists>new. visitNeighbors ns (visited, queue) = (visited \<union> set new, queue @ new)
          \<and> distinct new \<and> set new \<inter> visited = {} \<and> set new \<subseteq> set ns"
    by (rule visitNeighbors_new)
  show "\<exists>new. snd (assignNeighbors ns d (depth, queue)) = queue @ new
          \<and> dom (fst (assignNeighbors ns d (depth, queue))) = dom depth \<union> set new
          \<and> distinct new \<and> set new \<inter> dom depth = {} \<and> set new \<subseteq> set ns"
    by (rule assignNeighbors_new)
  obtain visited' queue' where
    v: "visitNeighbors (neighborsOf adj ident) (visited, queue) = (visited', queue')"
    by (cases "visitNeighbors (neighborsOf adj ident) (visited, queue)")
  from visitNeighbors_measure [OF v]
  show "2 * card (adjacencyIds adj
                  - fst (visitNeighbors (neighborsOf adj ident) (visited, queue)))
       + length (snd (visitNeighbors (neighborsOf adj ident) (visited, queue)))
       < 2 * card (adjacencyIds adj - visited) + length (ident # queue)"
    by (simp add: v)
  obtain depth' queue'' where
    a: "assignNeighbors (neighborsOf adj ident) d (depth, queue) = (depth', queue'')"
    by (cases "assignNeighbors (neighborsOf adj ident) d (depth, queue)")
  from assignNeighbors_measure [OF a]
  show "2 * card (adjacencyIds adj
                  - dom (fst (assignNeighbors (neighborsOf adj ident) d (depth, queue))))
       + length (snd (assignNeighbors (neighborsOf adj ident) d (depth, queue)))
       < 2 * card (adjacencyIds adj - dom depth) + length (ident # queue)"
    by (simp add: a)
qed

theorem walks_terminate_witness:
  "buildNodes selfReferenceModel DEFAULT_CHEN_STYLE Map.empty = selfReferenceNodes
   \<and> fst (buildEdges selfReferenceModel selfReferenceNodes)
       = [(str ''emp'', [str ''manages'']), (str ''manages'', [str ''emp''])]
   \<and> componentWalk_dom (selfReferenceAdjacency, indexById selfReferenceNodes, {str ''emp''},
        [str ''emp''], [])
   \<and> depthWalk_dom (selfReferenceAdjacency, [str ''manages'' \<mapsto> 0], [str ''manages''])
   \<and> connectedComponents selfReferenceNodes selfReferenceAdjacency = [[0, 1]]
   \<and> assignDepths selfReferenceAdjacency (str ''manages'')
       = [str ''manages'' \<mapsto> 0, str ''emp'' \<mapsto> 1]
   \<and> visitNeighbors (neighborsOf selfReferenceAdjacency (str ''manages''))
         ({str ''emp'', str ''manages''}, [])
       = ({str ''emp'', str ''manages''}, [])"
proof -
  note fact = walks_terminate [where adj = selfReferenceAdjacency
      and byId = "indexById selfReferenceNodes" and visited = "{str ''emp''}"
      and queue = "[str ''emp'']" and component = "[]"]
  note fact' = walks_terminate [where adj = selfReferenceAdjacency
      and depth = "[str ''manages'' \<mapsto> 0]" and queue = "[str ''manages'']"]
  have "bn_id (selfReferenceNodes ! 1) = str ''manages''"
    by (simp add: selfReferenceNodes_def plainNode_sel)
  with selfReference_depths have depths: "assignDepths selfReferenceAdjacency (str ''manages'')
       = [str ''manages'' \<mapsto> 0, str ''emp'' \<mapsto> 1]"
    by simp
  have visit: "visitNeighbors (neighborsOf selfReferenceAdjacency (str ''manages''))
         ({str ''emp'', str ''manages''}, [])
       = ({str ''emp'', str ''manages''}, [])"
    by (simp add: selfReferenceAdjacency_def neighborsOf_def str_def)
  show ?thesis
    apply (intro conjI)
          apply (rule selfReference_nodes)
         apply (simp add: selfReference_edges selfReferenceAdjacency_def)
        apply (rule fact [THEN conjunct1])
       apply (rule fact' [THEN conjunct2, THEN conjunct1])
      apply (rule selfReference_components)
     apply (rule depths)
    apply (rule visit)
    done
qed

end
